(* ===== verification/Go_Prelude.thy ===== *)
theory Go_Prelude
  imports Main "HOL-Library.Word" "HOL-Library.Sublist"
begin

text \<open>
  Shared vocabulary of the development: the part of the Go language and of its standard library
  that the proxy's sources use on byte strings, the result type of fallible functions, and the
  generic lemmas that the component theories rest on.

  A Go \<^verbatim>\<open>string\<close> or \<^verbatim>\<open>[]byte\<close> is a \<^typ>\<open>string\<close>: a \<^typ>\<open>char\<close> of HOL is exactly one byte. A function
  that returns \<^verbatim>\<open>(T, error)\<close> has type \<open>'e + 'a\<close> with \<^const>\<open>Inl\<close> for the error.
\<close>

named_theorems result_simps \<open>unfolding of the result combinators\<close>
named_theorems go_defs \<open>definitions of the standard library functions, for evaluation\<close>

unbundle bit_operations_syntax

section \<open>Results\<close>

definition bindR :: "'e + 'a \<Rightarrow> ('a \<Rightarrow> 'e + 'b) \<Rightarrow> 'e + 'b" where
  "bindR m f = (case m of Inl e \<Rightarrow> Inl e | Inr x \<Rightarrow> f x)"

definition mapR :: "('a \<Rightarrow> 'b) \<Rightarrow> 'e + 'a \<Rightarrow> 'e + 'b" where
  "mapR f m = (case m of Inl e \<Rightarrow> Inl e | Inr x \<Rightarrow> Inr (f x))"

fun traverseR :: "('a \<Rightarrow> 'e + 'b) \<Rightarrow> 'a list \<Rightarrow> 'e + 'b list" where
  "traverseR f [] = Inr []"
| "traverseR f (x # xs) = bindR (f x) (\<lambda>y. mapR (Cons y) (traverseR f xs))"

lemma bindR_simps [simp, result_simps]:
  "bindR (Inl e) f = Inl e" "bindR (Inr x) f = f x"
  by (simp_all add: bindR_def)

lemma mapR_simps [simp, result_simps]:
  "mapR f (Inl e) = Inl e" "mapR f (Inr x) = Inr (f x)"
  by (simp_all add: mapR_def)

lemma bindR_eq_Inr [simp]: "bindR m f = Inr y \<longleftrightarrow> (\<exists>x. m = Inr x \<and> f x = Inr y)"
  by (cases m) auto

lemma mapR_eq_Inr [simp]: "mapR f m = Inr y \<longleftrightarrow> (\<exists>x. m = Inr x \<and> y = f x)"
  by (cases m) auto

text \<open>Wrapping the error and converting the value.\<close>

definition mapLR :: "('e \<Rightarrow> 'd) \<Rightarrow> ('a \<Rightarrow> 'b) \<Rightarrow> 'e + 'a \<Rightarrow> 'd + 'b" where
  "mapLR g f m = (case m of Inl e \<Rightarrow> Inl (g e) | Inr x \<Rightarrow> Inr (f x))"

lemma mapLR_simps [simp, result_simps]:
  "mapLR g f (Inl e) = Inl (g e)" "mapLR g f (Inr x) = Inr (f x)"
  by (simp_all add: mapLR_def)

lemma mapLR_eq_Inr [simp]: "mapLR g f m = Inr y \<longleftrightarrow> (\<exists>x. m = Inr x \<and> y = f x)"
  by (cases m) auto

lemma mapR_eq_Inl [simp]: "mapR f m = Inl e \<longleftrightarrow> m = Inl e"
  by (cases m) auto

lemma traverseR_Inr_iff:
  "traverseR f xs = Inr ys \<longleftrightarrow> length ys = length xs \<and> (\<forall>i < length xs. f (xs ! i) = Inr (ys ! i))"
proof (induction xs arbitrary: ys)
  case Nil
  then show ?case by auto
next
  case (Cons x xs)
  show ?case
  proof (cases ys)
    case Nil
    then show ?thesis by auto
  next
    case (Cons z zs)
    then show ?thesis using Cons.IH [of zs] by (auto simp: nth_Cons' less_Suc_eq_0_disj all_conj_distrib)
  qed
qed

text \<open>Results of a computation that may also fail to return: the outer \<^const>\<open>None\<close>.\<close>

definition bindOR :: "('e + 'a) option \<Rightarrow> ('a \<Rightarrow> ('e + 'b) option) \<Rightarrow> ('e + 'b) option" where
  "bindOR m f = (case m of None \<Rightarrow> None | Some (Inl e) \<Rightarrow> Some (Inl e) | Some (Inr x) \<Rightarrow> f x)"

fun traverseOR :: "('a \<Rightarrow> ('e + 'b) option) \<Rightarrow> 'a list \<Rightarrow> ('e + 'b list) option" where
  "traverseOR f [] = Some (Inr [])"
| "traverseOR f (x # xs) = bindOR (f x) (\<lambda>y. map_option (mapR (Cons y)) (traverseOR f xs))"

lemma bindOR_simps [simp, result_simps]:
  "bindOR None f = None" "bindOR (Some (Inl e)) f = Some (Inl e)" "bindOR (Some (Inr x)) f = f x"
  by (simp_all add: bindOR_def)

lemma bindOR_eq_Inr [simp]: "bindOR m f = Some (Inr y) \<longleftrightarrow> (\<exists>x. m = Some (Inr x) \<and> f x = Some (Inr y))"
  by (auto simp: bindOR_def split: option.splits sum.splits)

lemma bindOR_returns:
  "(\<exists>r. m = Some r) \<Longrightarrow> (\<And>x. \<exists>r. f x = Some r) \<Longrightarrow> \<exists>r. bindOR m f = Some r"
  by (auto simp: bindOR_def split: option.splits sum.splits)

lemma traverseOR_returns: "(\<And>x. x \<in> set xs \<Longrightarrow> \<exists>r. f x = Some r) \<Longrightarrow> \<exists>r. traverseOR f xs = Some r"
proof (induction xs)
  case (Cons x xs)
  then obtain r s where "f x = Some r" "traverseOR f xs = Some s" by fastforce
  then show ?case by (cases r) simp_all
qed simp

lemma list_all2_in_set2: "list_all2 P xs ys \<Longrightarrow> y \<in> set ys \<Longrightarrow> \<exists>x \<in> set xs. P x y"
  by (induction rule: list_all2_induct) auto

lemma traverseOR_list_all2:
  "traverseOR f xs = Some (Inr ys) \<Longrightarrow> list_all2 (\<lambda>x y. f x = Some (Inr y)) xs ys"
  by (induction xs arbitrary: ys) auto

section \<open>Bytes\<close>

abbreviation byteVal :: "char \<Rightarrow> nat" where
  "byteVal c \<equiv> of_char c"

definition isDigit :: "char \<Rightarrow> bool" where
  "isDigit c \<longleftrightarrow> 48 \<le> byteVal c \<and> byteVal c \<le> 57"

definition isLowerAlpha :: "char \<Rightarrow> bool" where
  "isLowerAlpha c \<longleftrightarrow> 97 \<le> byteVal c \<and> byteVal c \<le> 122"

definition isUpperAlpha :: "char \<Rightarrow> bool" where
  "isUpperAlpha c \<longleftrightarrow> 65 \<le> byteVal c \<and> byteVal c \<le> 90"

lemma byteVal_less_256 [simp]: "byteVal c < 256"
  by (simp add: of_char_def horner_sum_bound [where 'a = nat, simplified] ) 

section \<open>Package strings\<close>

definition hasPrefix :: "string \<Rightarrow> string \<Rightarrow> bool" where
  "hasPrefix s p \<longleftrightarrow> take (length p) s = p"

definition hasSuffix :: "string \<Rightarrow> string \<Rightarrow> bool" where
  "hasSuffix s p \<longleftrightarrow> length p \<le> length s \<and> drop (length s - length p) s = p"

definition trimPrefix :: "string \<Rightarrow> string \<Rightarrow> string" where
  "trimPrefix s p = (if hasPrefix s p then drop (length p) s else s)"

definition trimSuffix :: "string \<Rightarrow> string \<Rightarrow> string" where
  "trimSuffix s p = (if hasSuffix s p then take (length s - length p) s else s)"

text \<open>\<^verbatim>\<open>strings.Index\<close> and \<^verbatim>\<open>strings.IndexByte\<close>; \<^const>\<open>None\<close> stands for -1.\<close>

fun index :: "string \<Rightarrow> string \<Rightarrow> nat option" where
  "index [] p = (if p = [] then Some 0 else None)"
| "index (c # cs) p = (if hasPrefix (c # cs) p then Some 0 else map_option Suc (index cs p))"

fun indexByte :: "string \<Rightarrow> char \<Rightarrow> nat option" where
  "indexByte [] t = None"
| "indexByte (b # bs) t = (if b = t then Some 0 else map_option Suc (indexByte bs t))"

fun lastIndexByte :: "string \<Rightarrow> char \<Rightarrow> nat option" where
  "lastIndexByte [] t = None"
| "lastIndexByte (b # bs) t =
     (case lastIndexByte bs t of Some i \<Rightarrow> Some (Suc i) | None \<Rightarrow> if b = t then Some 0 else None)"

fun lastIndex :: "string \<Rightarrow> string \<Rightarrow> nat option" where
  "lastIndex [] p = (if p = [] then Some 0 else None)"
| "lastIndex (b # bs) p =
     (case lastIndex bs p of Some i \<Rightarrow> Some (Suc i)
      | None \<Rightarrow> if hasPrefix (b # bs) p then Some 0 else None)"

definition contains :: "string \<Rightarrow> string \<Rightarrow> bool" where
  "contains s p \<longleftrightarrow> index s p \<noteq> None"

text \<open>\<^verbatim>\<open>strings.ReplaceAll\<close> for a non-empty pattern.\<close>

function replaceAll :: "string \<Rightarrow> string \<Rightarrow> string \<Rightarrow> string" where
  "replaceAll s old new =
     (if s = [] \<or> old = [] then s
      else if hasPrefix s old then new @ replaceAll (drop (length old) s) old new
      else hd s # replaceAll (tl s) old new)"
  by pat_completeness auto
termination
  by (relation "measure (\<lambda>(s, old, new). length s)") auto

declare replaceAll.simps [simp del]

text \<open>\<^verbatim>\<open>strings.Split\<close> with a one-byte separator: never the empty list.\<close>

fun splitByte :: "char \<Rightarrow> string \<Rightarrow> string list" where
  "splitByte t [] = [[]]"
| "splitByte t (c # cs) =
     (if c = t then [] # splitByte t cs
      else (case splitByte t cs of [] \<Rightarrow> [[c]] | p # ps \<Rightarrow> (c # p) # ps))"

text \<open>\<^verbatim>\<open>strings.Join\<close>.\<close>

fun join :: "string list \<Rightarrow> string \<Rightarrow> string" where
  "join [] sep = []"
| "join [x] sep = x"
| "join (x # y # xs) sep = x @ sep @ join (y # xs) sep"

text \<open>\<^verbatim>\<open>strings.Cut\<close> with a one-byte separator: before, after, found.\<close>

fun cutByte :: "string \<Rightarrow> char \<Rightarrow> string \<times> string \<times> bool" where
  "cutByte [] t = ([], [], False)"
| "cutByte (c # cs) t =
     (if c = t then ([], cs, True)
      else (case cutByte cs t of (a, b, ok) \<Rightarrow> (c # a, b, ok)))"

text \<open>\<^verbatim>\<open>strings.Trim\<close>, \<^verbatim>\<open>TrimRight\<close> with a cutset of ASCII characters.\<close>

definition trimLeftSet :: "string \<Rightarrow> string \<Rightarrow> string" where
  "trimLeftSet s cutset = dropWhile (\<lambda>c. c \<in> set cutset) s"

definition trimRightSet :: "string \<Rightarrow> string \<Rightarrow> string" where
  "trimRightSet s cutset = rev (dropWhile (\<lambda>c. c \<in> set cutset) (rev s))"

definition trimSet :: "string \<Rightarrow> string \<Rightarrow> string" where
  "trimSet s cutset = trimRightSet (trimLeftSet s cutset) cutset"

text \<open>
  \<^verbatim>\<open>strings.TrimSpace\<close> removes the characters of \<^verbatim>\<open>unicode.IsSpace\<close>. They are listed here in their
  UTF-8 encodings; every encoding starts with a byte that is not a continuation byte, so matching
  encodings at the two ends of the string is what decoding the first and last rune does.
\<close>

definition spaceEncodings :: "string list" where
  "spaceEncodings =
     [[CHR 0x09], [CHR 0x0A], [CHR 0x0B], [CHR 0x0C], [CHR 0x0D], [CHR 0x20],
      [CHR 0xC2, CHR 0x85], [CHR 0xC2, CHR 0xA0], [CHR 0xE1, CHR 0x9A, CHR 0x80],
      [CHR 0xE2, CHR 0x80, CHR 0x80], [CHR 0xE2, CHR 0x80, CHR 0x81], [CHR 0xE2, CHR 0x80, CHR 0x82],
      [CHR 0xE2, CHR 0x80, CHR 0x83], [CHR 0xE2, CHR 0x80, CHR 0x84], [CHR 0xE2, CHR 0x80, CHR 0x85],
      [CHR 0xE2, CHR 0x80, CHR 0x86], [CHR 0xE2, CHR 0x80, CHR 0x87], [CHR 0xE2, CHR 0x80, CHR 0x88],
      [CHR 0xE2, CHR 0x80, CHR 0x89], [CHR 0xE2, CHR 0x80, CHR 0x8A], [CHR 0xE2, CHR 0x80, CHR 0xA8],
      [CHR 0xE2, CHR 0x80, CHR 0xA9], [CHR 0xE2, CHR 0x80, CHR 0xAF], [CHR 0xE2, CHR 0x81, CHR 0x9F],
      [CHR 0xE3, CHR 0x80, CHR 0x80]]"

definition leadingSpace :: "string list \<Rightarrow> string \<Rightarrow> nat" where
  "leadingSpace encs s =
     (case find (\<lambda>e. hasPrefix s e) encs of None \<Rightarrow> 0 | Some e \<Rightarrow> length e)"

function trimLeading :: "string list \<Rightarrow> string \<Rightarrow> string" where
  "trimLeading encs s =
     (if s = [] \<or> leadingSpace encs s = 0 then s else trimLeading encs (drop (leadingSpace encs s) s))"
  by pat_completeness auto
termination
  by (relation "measure (\<lambda>(encs, s). length s)") auto

definition trimSpace :: "string \<Rightarrow> string" where
  "trimSpace s =
     rev (trimLeading (map rev spaceEncodings) (rev (trimLeading spaceEncodings s)))"

text \<open>
  \<^verbatim>\<open>strings.ToLower\<close>, \<^verbatim>\<open>ToUpper\<close> and \<^verbatim>\<open>EqualFold\<close> on bytes. The proxy only compares the results with ASCII
  constants or with other case-folded host names; the two non-ASCII runes whose lower case is ASCII
  (U+212A, U+0130), the two whose upper case is ASCII (U+0131, U+017F) and the two that fold to
  ASCII (U+212A, U+017F) are mapped, every other non-ASCII byte is kept.
\<close>

definition lowerByte :: "char \<Rightarrow> char" where
  "lowerByte c = (if isUpperAlpha c then char_of (byteVal c + 32) else c)"

definition upperByte :: "char \<Rightarrow> char" where
  "upperByte c = (if isLowerAlpha c then char_of (byteVal c - 32) else c)"

fun mapRunes :: "(string \<times> char) list \<Rightarrow> (char \<Rightarrow> char) \<Rightarrow> string \<Rightarrow> string" where
  "mapRunes tab f [] = []"
| "mapRunes tab f (c # cs) =
     (case find (\<lambda>(e, d). hasPrefix (c # cs) e) tab of
        None \<Rightarrow> f c # mapRunes tab f cs
      | Some (e, d) \<Rightarrow> d # mapRunes tab f (drop (length e - 1) cs))"

definition toLower :: "string \<Rightarrow> string" where
  "toLower s = mapRunes [([CHR 0xE2, CHR 0x84, CHR 0xAA], CHR ''k''), ([CHR 0xC4, CHR 0xB0], CHR ''i'')] lowerByte s"

definition toUpper :: "string \<Rightarrow> string" where
  "toUpper s = mapRunes [([CHR 0xC4, CHR 0xB1], CHR ''I''), ([CHR 0xC5, CHR 0xBF], CHR ''S'')] upperByte s"

definition foldCase :: "string \<Rightarrow> string" where
  "foldCase s = mapRunes [([CHR 0xE2, CHR 0x84, CHR 0xAA], CHR ''k''), ([CHR 0xC5, CHR 0xBF], CHR ''s'')] lowerByte s"

definition equalFold :: "string \<Rightarrow> string \<Rightarrow> bool" where
  "equalFold s t \<longleftrightarrow> foldCase s = foldCase t"

lemmas [go_defs] = hasPrefix_def hasSuffix_def trimPrefix_def trimSuffix_def contains_def
  trimLeftSet_def trimRightSet_def trimSet_def toLower_def toUpper_def foldCase_def equalFold_def
  lowerByte_def upperByte_def isDigit_def isLowerAlpha_def isUpperAlpha_def

declare trimLeading.simps [simp del]

section \<open>Lemmas on strings\<close>

lemma hasPrefix_iff: "hasPrefix s p \<longleftrightarrow> (\<exists>r. s = p @ r)"
proof
  assume "hasPrefix s p"
  then have "s = p @ drop (length p) s"
    unfolding hasPrefix_def by (metis append_take_drop_id)
  then show "\<exists>r. s = p @ r" ..
qed (auto simp: hasPrefix_def)

lemma hasPrefix_Nil [simp]: "hasPrefix s []"
  by (simp add: hasPrefix_def)

lemma hasPrefix_append [simp]: "hasPrefix (p @ r) p"
  by (simp add: hasPrefix_def)

lemma hasPrefix_Cons [simp]: "hasPrefix (c # s) (d # p) \<longleftrightarrow> c = d \<and> hasPrefix s p"
  by (auto simp: hasPrefix_def)

lemma hasPrefix_Nil_iff [simp]: "hasPrefix [] p \<longleftrightarrow> p = []"
  by (auto simp: hasPrefix_def)

lemma hasPrefix_trans: "hasPrefix s p \<Longrightarrow> hasPrefix p q \<Longrightarrow> hasPrefix s q"
  by (auto simp: hasPrefix_iff)

lemma hasSuffix_iff: "hasSuffix s p \<longleftrightarrow> (\<exists>r. s = r @ p)"
proof
  assume "hasSuffix s p"
  then have "s = take (length s - length p) s @ p"
    unfolding hasSuffix_def by (metis append_take_drop_id)
  then show "\<exists>r. s = r @ p" ..
qed (auto simp: hasSuffix_def)

lemma splitByte_nonempty [simp]: "splitByte t s \<noteq> []"
  by (cases s) (auto split: list.splits)

lemma splitByte_Cons_other:
  "c \<noteq> t \<Longrightarrow> splitByte t (c # cs) = (c # hd (splitByte t cs)) # tl (splitByte t cs)"
  by (cases "splitByte t cs") auto

lemma splitByte_no_sep: "p \<in> set (splitByte t s) \<Longrightarrow> t \<notin> set p"
proof (induction s arbitrary: p)
  case (Cons c cs)
  show ?case
  proof (cases "c = t")
    case False
    obtain q qs where q: "splitByte t cs = q # qs"
      by (cases "splitByte t cs") auto
    with Cons.IH [of q] Cons.IH [of p] Cons.prems False show ?thesis
      by (auto simp: q)
  qed (use Cons in auto)
qed simp

lemma splitByte_set: "p \<in> set (splitByte t s) \<Longrightarrow> set p \<subseteq> set s"
proof (induction s arbitrary: p)
  case (Cons c cs)
  obtain q qs where q: "splitByte t cs = q # qs"
    by (cases "splitByte t cs") auto
  have "set q \<subseteq> set cs" and "\<And>r. r \<in> set qs \<Longrightarrow> set r \<subseteq> set cs"
    using Cons.IH q by auto
  with Cons.prems show ?case
    by (auto simp: q split: if_splits)
qed simp

lemma join_Cons: "xs \<noteq> [] \<Longrightarrow> join (x # xs) sep = x @ sep @ join xs sep"
  by (cases xs) auto

lemma join_head_Cons: "join ((c # x) # xs) sep = c # join (x # xs) sep"
  by (cases xs) auto

lemma join_splitByte [simp]: "join (splitByte t s) [t] = s"
proof (induction s)
  case (Cons c cs)
  then show ?case
    by (cases "splitByte t cs") (auto simp: join_Cons join_head_Cons)
qed simp

lemma splitByte_append_sep: "t \<notin> set p \<Longrightarrow> splitByte t (p @ t # r) = p # splitByte t r"
  by (induction p) auto

lemma splitByte_no_occ: "t \<notin> set p \<Longrightarrow> splitByte t p = [p]"
  by (induction p) auto

lemma splitByte_join:
  "ps \<noteq> [] \<Longrightarrow> (\<And>p. p \<in> set ps \<Longrightarrow> t \<notin> set p) \<Longrightarrow> splitByte t (join ps [t]) = ps"
proof (induction ps)
  case (Cons p ps)
  then show ?case
    by (cases "ps = []") (auto simp: splitByte_no_occ join_Cons splitByte_append_sep)
qed simp

lemma set_join: "set (join ps sep) \<subseteq> (\<Union>p \<in> set ps. set p) \<union> set sep"
  by (induction ps sep rule: join.induct) auto

lemma length_join: "length (join ps sep) = sum_list (map length ps) + (length ps - 1) * length sep"
  by (induction ps sep rule: join.induct) auto

lemma cutByte_spec:
  "cutByte s t = (a, b, ok) \<Longrightarrow> t \<notin> set a \<and> (if ok then s = a @ t # b else s = a \<and> b = [])"
proof (induction s arbitrary: a b ok)
  case (Cons c cs)
  obtain a' b' ok' where r: "cutByte cs t = (a', b', ok')"
    by (cases "cutByte cs t") auto
  from Cons.prems have "(a, b, ok) = (if c = t then ([], cs, True) else (c # a', b', ok'))"
    by (cases "c = t") (simp_all add: r)
  with Cons.IH [OF r] show ?case
    by (simp split: if_splits)
qed simp

lemma indexByte_Some:
  "indexByte s t = Some i \<Longrightarrow> i < length s \<and> s ! i = t \<and> t \<notin> set (take i s)"
  by (induction s arbitrary: i) (auto split: if_splits)

lemma indexByte_None: "indexByte s t = None \<longleftrightarrow> t \<notin> set s"
  by (induction s) auto

lemma trimLeading_suffix: "suffix (trimLeading encs s) s"
proof (induction encs s rule: trimLeading.induct)
  case (1 encs s)
  show ?case
  proof (cases "s = [] \<or> leadingSpace encs s = 0")
    case False
    with 1 have "suffix (trimLeading encs (drop (leadingSpace encs s) s)) (drop (leadingSpace encs s) s)"
      by simp
    with False show ?thesis
      by (subst trimLeading.simps) (auto intro: suffix_order.trans suffix_drop)
  qed (subst trimLeading.simps, auto)
qed

lemma set_trimLeading: "set (trimLeading encs s) \<subseteq> set s"
  using trimLeading_suffix by (rule set_mono_suffix)

lemma set_trimSpace: "set (trimSpace s) \<subseteq> set s"
  unfolding trimSpace_def by (auto dest!: set_trimLeading [THEN subsetD])

section \<open>Words\<close>

lemma word_xor_eq_0_iff: "a XOR b = 0 \<longleftrightarrow> a = (b :: 'a::len word)"
  by (auto simp: bit_eq_iff bit_xor_iff)

lemma uint_drop_bit: "uint (drop_bit k a) = uint a div 2 ^ k" for a :: "'a::len word"
proof -
  have "uint (drop_bit k a) = drop_bit k (uint a)"
    by (rule bit_eqI) (auto simp: bit_simps dest: bit_imp_le_length)
  then show ?thesis by (simp only: drop_bit_eq_div)
qed

lemma xor_high_bits_iff:
  fixes a n :: "'a::len word"
  shows "drop_bit k a XOR drop_bit k n = 0 \<longleftrightarrow> uint a div 2 ^ k = uint n div 2 ^ k"
proof -
  have "drop_bit k a XOR drop_bit k n = 0 \<longleftrightarrow> uint (drop_bit k a) = uint (drop_bit k n)"
    unfolding word_xor_eq_0_iff by (rule word_uint_eq_iff)
  also have "\<dots> \<longleftrightarrow> uint a div 2 ^ k = uint n div 2 ^ k"
    by (simp add: uint_drop_bit)
  finally show ?thesis .
qed

section \<open>Transition systems\<close>

text \<open>
  The states that a system reaches, and the contract of an invariant: it holds at the start and every
  step keeps it. The components with concurrent operations are instances.
\<close>

inductive reached :: "('s \<Rightarrow> bool) \<Rightarrow> ('s \<Rightarrow> 's \<Rightarrow> bool) \<Rightarrow> 's \<Rightarrow> bool"
  for initial :: "'s \<Rightarrow> bool" and step :: "'s \<Rightarrow> 's \<Rightarrow> bool" where
  start: "initial s \<Longrightarrow> reached initial step s"
| move: "reached initial step s \<Longrightarrow> step s s' \<Longrightarrow> reached initial step s'"

locale invariant_system =
  fixes initial :: "'s \<Rightarrow> bool" and step :: "'s \<Rightarrow> 's \<Rightarrow> bool" and inv :: "'s \<Rightarrow> bool"
  assumes established: "initial s \<Longrightarrow> inv s"
    and preserved: "step s s' \<Longrightarrow> inv s \<Longrightarrow> inv s'"
begin

lemma holds: "reached initial step s \<Longrightarrow> inv s"
  by (induction rule: reached.induct) (auto intro: established preserved)

end

end
