(* ===== verification/L7_Path.thy ===== *)
theory L7_Path
  imports Go_Prelude
begin

text \<open>
  The path boundary of \<^verbatim>\<open>proxy/path.go\<close>: the canonical form on which the policy is matched and which
  is sent upstream. Each loop of \<^verbatim>\<open>canonicalizeL7Path\<close> is one recursive function; the error branches
  are the constructors of \<open>path_error\<close>. The theorems: a canonical path is a fixed point, its
  decoded form has no dot segment, its alphabet is closed, and its size is bounded.
\<close>

section \<open>Model\<close>

datatype path_error =
    PathControlByte
  | PathNonAscii
  | PathFragment
  | PathNotOriginForm
  | PathTooLong
  | PathBadPercent
  | PathEncodedSlash
  | PathEncodedControl
  | PathEscapesRoot
  | PathResidualDot

definition maxL7PathBytes :: nat where
  "maxL7PathBytes = 4096"

definition encodedSlash :: char where
  "encodedSlash = CHR 0x01"

definition fromHex :: "char \<Rightarrow> nat option" where
  "fromHex b =
     (if isDigit b then Some (byteVal b - 48)
      else if 97 \<le> byteVal b \<and> byteVal b \<le> 102 then Some (byteVal b - 97 + 10)
      else if 65 \<le> byteVal b \<and> byteVal b \<le> 70 then Some (byteVal b - 65 + 10)
      else None)"

definition upperHex :: "nat \<Rightarrow> char" where
  "upperHex n = (if n < 10 then char_of (48 + n) else char_of (65 + n - 10))"

definition pcharPunct :: string where
  "pcharPunct = ''-._~!$&'' @ [CHR 0x27] @ ''()*+,;=:@''"

definition isPathPChar :: "char \<Rightarrow> bool" where
  "isPathPChar b \<longleftrightarrow> isLowerAlpha b \<or> isUpperAlpha b \<or> isDigit b \<or> b \<in> set pcharPunct"

definition isControlByte :: "char \<Rightarrow> bool" where
  "isControlByte b \<longleftrightarrow> byteVal b < 0x20 \<or> byteVal b = 0x7f"

fun checkRawBytes :: "string \<Rightarrow> path_error + unit" where
  "checkRawBytes [] = Inr ()"
| "checkRawBytes (b # bs) =
     (if isControlByte b \<or> b = encodedSlash then Inl PathControlByte
      else if 0x80 \<le> byteVal b then Inl PathNonAscii
      else checkRawBytes bs)"

fun decodeL7 :: "bool \<Rightarrow> string \<Rightarrow> path_error + string" where
  "decodeL7 allow [] = Inr []"
| "decodeL7 allow (c # cs) =
     (if c \<noteq> CHR ''%'' then mapR (Cons c) (decodeL7 allow cs)
      else (case cs of
        h # l # rest \<Rightarrow>
          (case (fromHex h, fromHex l) of
             (Some hi, Some lo) \<Rightarrow>
               (let b = char_of (push_bit 4 hi OR lo) in
                if b = CHR ''/'' then
                  (if \<not> allow then Inl PathEncodedSlash
                   else mapR (Cons encodedSlash) (decodeL7 allow rest))
                else if isControlByte b then Inl PathEncodedControl
                else mapR (Cons b) (decodeL7 allow rest))
           | _ \<Rightarrow> Inl PathBadPercent)
      | _ \<Rightarrow> Inl PathBadPercent))"

definition bytesPathSegments :: "string \<Rightarrow> string list" where
  "bytesPathSegments path = splitByte (CHR ''/'') path"

definition splitEncodedSlash :: "string \<Rightarrow> string list" where
  "splitEncodedSlash segment = splitByte encodedSlash segment"

definition stripParams :: "string \<Rightarrow> string" where
  "stripParams segment =
     (case indexByte segment (CHR '';'') of Some i \<Rightarrow> take i segment | None \<Rightarrow> segment)"

fun normalizeSegments :: "string list \<Rightarrow> string list \<Rightarrow> path_error + string list" where
  "normalizeSegments stack [] = Inr stack"
| "normalizeSegments stack (raw # rest) =
     (let segment = stripParams raw; last = (rest = []) in
      if segment = ''..'' then
        (if stack = [] then Inl PathEscapesRoot
         else normalizeSegments (butlast stack @ (if last then [[]] else [])) rest)
      else if segment = ''.'' then
        normalizeSegments (stack @ (if last then [[]] else [])) rest
      else if segment = [] \<and> \<not> last then normalizeSegments stack rest
      else normalizeSegments (stack @ [segment]) rest)"

definition isDotSegment :: "string \<Rightarrow> bool" where
  "isDotSegment part \<longleftrightarrow> part = ''.'' \<or> part = ''..''"

definition residualDot :: "string list \<Rightarrow> bool" where
  "residualDot stack \<longleftrightarrow> (\<exists>segment \<in> set stack. \<exists>part \<in> set (splitEncodedSlash segment). isDotSegment part)"

definition encodeByte :: "char \<Rightarrow> string" where
  "encodeByte b =
     (if b = encodedSlash then ''%2F''
      else if isPathPChar b then [b]
      else [CHR ''%'', upperHex (drop_bit 4 (byteVal b)), upperHex (byteVal b AND 0x0f)])"

definition encodeSegment :: "string \<Rightarrow> string" where
  "encodeSegment segment = concat (map encodeByte segment)"

definition renderPath :: "string list \<Rightarrow> string" where
  "renderPath stack = CHR ''/'' # join (map encodeSegment stack) ''/''"

definition canonicalizeL7Path :: "string \<Rightarrow> bool \<Rightarrow> path_error + string" where
  "canonicalizeL7Path raw0 allowEncodedSlash =
     bindR (checkRawBytes raw0) (\<lambda>_.
     if contains raw0 ''#'' then Inl PathFragment
     else (let raw = (if raw0 = [] then ''/'' else raw0) in
       if \<not> hasPrefix raw ''/'' \<or> raw = ''*'' then Inl PathNotOriginForm
       else if length raw > maxL7PathBytes then Inl PathTooLong
       else bindR (decodeL7 allowEncodedSlash raw) (\<lambda>decoded.
         if decoded = [] \<or> hd decoded \<noteq> CHR ''/'' then Inl PathNotOriginForm
         else bindR (normalizeSegments [] (bytesPathSegments (tl decoded))) (\<lambda>stack.
           if residualDot stack then Inl PathResidualDot else Inr (renderPath stack)))))"

text \<open>
  \<^verbatim>\<open>requestTargetPath\<close>: the path of the request line, from \<^verbatim>\<open>req.RequestURI\<close> (empty when absent) and
  \<^verbatim>\<open>req.URL.IsAbs()\<close>.
\<close>

definition indexAny :: "string \<Rightarrow> string \<Rightarrow> nat option" where
  "indexAny s chars =
     (let n = length (takeWhile (\<lambda>c. c \<notin> set chars) s) in if n < length s then Some n else None)"

definition cutQuery :: "string \<Rightarrow> string" where
  "cutQuery target = (case indexByte target (CHR ''?'') of Some q \<Rightarrow> take q target | None \<Rightarrow> target)"

definition requestTargetPath :: "string \<Rightarrow> bool \<Rightarrow> string \<Rightarrow> string" where
  "requestTargetPath requestURI isAbs fallback =
     (if requestURI = [] then fallback
      else if isAbs then
        (case index requestURI ''://'' of
           None \<Rightarrow> cutQuery requestURI
         | Some schemeEnd \<Rightarrow>
             (let afterAuthority = drop (schemeEnd + 3) requestURI in
              case indexAny afterAuthority ''/?#'' of
                None \<Rightarrow> ''/''
              | Some pathStart \<Rightarrow>
                  if afterAuthority ! pathStart \<noteq> CHR ''/'' then ''/''
                  else cutQuery (drop pathStart afterAuthority)))
      else cutQuery requestURI)"

text \<open>The messages of \<^verbatim>\<open>fmt.Errorf\<close>, as they appear in deny reasons.\<close>

fun pathErrorMsg :: "path_error \<Rightarrow> string" where
  "pathErrorMsg PathControlByte = ''request path contains a control byte''"
| "pathErrorMsg PathNonAscii = ''request path contains raw non-ASCII bytes''"
| "pathErrorMsg PathFragment = ''request path contains a fragment''"
| "pathErrorMsg PathNotOriginForm = ''request path is not origin-form''"
| "pathErrorMsg PathTooLong = ''request path exceeds 4096 bytes''"
| "pathErrorMsg PathBadPercent = ''request path contains invalid percent encoding''"
| "pathErrorMsg PathEncodedSlash =
     ''request path contains encoded '' @ [CHR 0x27] @ ''/'' @ [CHR 0x27] @ '' (%2F), not allowed on this endpoint''"
| "pathErrorMsg PathEncodedControl = ''request path contains an encoded control byte''"
| "pathErrorMsg PathEscapesRoot = ''request path traversal escapes the root''"
| "pathErrorMsg PathResidualDot = ''request path contains a residual dot segment''"

section \<open>Specification vocabulary\<close>

text \<open>A byte that can stand in a decoded segment, and the alphabet of a canonical path.\<close>

definition okByte :: "bool \<Rightarrow> char \<Rightarrow> bool" where
  "okByte allow c \<longleftrightarrow> (if c = encodedSlash then allow else \<not> isControlByte c \<and> c \<noteq> CHR ''/'')"

definition isCanonicalByte :: "char \<Rightarrow> bool" where
  "isCanonicalByte c \<longleftrightarrow> isPathPChar c \<or> c = CHR ''%'' \<or> c = CHR ''/''"

text \<open>\<^verbatim>\<open>url.PathUnescape\<close>, with \<^const>\<open>None\<close> for its \<^verbatim>\<open>EscapeError\<close>.\<close>

fun pathUnescape :: "string \<Rightarrow> string option" where
  "pathUnescape [] = Some []"
| "pathUnescape (c # cs) =
     (if c \<noteq> CHR ''%'' then map_option (Cons c) (pathUnescape cs)
      else (case cs of
        h # l # rest \<Rightarrow>
          (case (fromHex h, fromHex l) of
             (Some hi, Some lo) \<Rightarrow>
               map_option (Cons (char_of (push_bit 4 hi OR lo))) (pathUnescape rest)
           | _ \<Rightarrow> None)
      | _ \<Rightarrow> None))"

definition slashOf :: "char \<Rightarrow> char" where
  "slashOf c = (if c = encodedSlash then CHR ''/'' else c)"

definition cleanSegment :: "bool \<Rightarrow> string \<Rightarrow> bool" where
  "cleanSegment allow seg \<longleftrightarrow>
     (\<forall>c \<in> set seg. okByte allow c \<and> c \<noteq> CHR '';'') \<and> \<not> isDotSegment seg"

definition segWeight :: "string list \<Rightarrow> nat" where
  "segWeight segs = sum_list (map (\<lambda>s. Suc (length s)) segs)"

section \<open>Byte encoding\<close>

lemma fromHex_upperHex [simp]: "n < 16 \<Longrightarrow> fromHex (upperHex n) = Some n"
  by (auto simp: fromHex_def upperHex_def isDigit_def)

lemma and_15_take_bit: "n AND 15 = take_bit 4 (n :: nat)"
  by (simp add: take_bit_eq_mask mask_eq_exp_minus_1)

lemma nibbles_join: "push_bit 4 (drop_bit 4 n) OR (n AND 15) = (n :: nat)"
  unfolding and_15_take_bit
  by (rule bit_eqI) (auto simp: bit_or_iff bit_push_bit_iff bit_drop_bit_eq bit_take_bit_iff)

lemma high_nibble_less [simp]: "drop_bit 4 (byteVal c) < 16"
  using byteVal_less_256 [of c] by (simp add: drop_bit_eq_div del: byteVal_less_256)

lemma low_nibble_less [simp]: "n AND 15 < (16 :: nat)"
  unfolding and_15_take_bit using take_bit_nat_less_exp [of 4 n] by simp

lemma pchar_not_percent: "isPathPChar c \<Longrightarrow> c \<noteq> CHR ''%''"
  by (auto simp: isPathPChar_def pcharPunct_def isDigit_def isLowerAlpha_def isUpperAlpha_def)

lemma decodeL7_encodeByte:
  assumes "okByte allow c"
  shows "decodeL7 allow (encodeByte c @ s) = mapR (Cons c) (decodeL7 allow s)"
proof (cases "c = encodedSlash")
  case True
  with assms have allow by (simp add: okByte_def)
  moreover have "fromHex (CHR ''2'') = Some 2" "fromHex (CHR ''F'') = Some 15"
    by (simp_all add: fromHex_def isDigit_def)
  moreover have "char_of (push_bit 4 2 OR (15::nat)) = CHR ''/''"
    by code_simp
  ultimately show ?thesis
    using True by (simp add: encodeByte_def)
next
  case False
  show ?thesis
  proof (cases "isPathPChar c")
    case True
    with False pchar_not_percent show ?thesis
      by (auto simp: encodeByte_def)
  next
    case no: False
    from False assms have "\<not> isControlByte c" "c \<noteq> CHR ''/''"
      by (auto simp: okByte_def)
    with no False show ?thesis
      by (simp add: encodeByte_def nibbles_join)
  qed
qed

lemma decodeL7_encodeSegment:
  "(\<And>c. c \<in> set seg \<Longrightarrow> okByte allow c) \<Longrightarrow>
   decodeL7 allow (encodeSegment seg @ s) = mapR ((@) seg) (decodeL7 allow s)"
proof (induction seg)
  case Nil
  then show ?case by (cases "decodeL7 allow s") (auto simp: encodeSegment_def)
next
  case (Cons c seg)
  then have "decodeL7 allow (encodeByte c @ (encodeSegment seg @ s))
      = mapR (Cons c) (mapR ((@) seg) (decodeL7 allow s))"
    by (simp add: decodeL7_encodeByte)
  then show ?case
    by (cases "decodeL7 allow s") (auto simp: encodeSegment_def)
qed

lemma encode_alphabet_byte: "x \<in> set (encodeByte c) \<Longrightarrow> isPathPChar x \<or> x = CHR ''%''"
proof -
  have hex: "n < 16 \<Longrightarrow> isPathPChar (upperHex n)" for n
    by (auto simp: upperHex_def isPathPChar_def isDigit_def isUpperAlpha_def)
  have "isPathPChar (CHR ''2'')" "isPathPChar (CHR ''F'')"
    by (simp_all add: isPathPChar_def isDigit_def isUpperAlpha_def)
  then show "x \<in> set (encodeByte c) \<Longrightarrow> isPathPChar x \<or> x = CHR ''%''"
    by (auto simp: encodeByte_def hex split: if_splits)
qed

lemma renderPath_alphabet: "c \<in> set (renderPath stack) \<Longrightarrow> isCanonicalByte c"
  using set_join [of "map encodeSegment stack" "''/''"]
  by (auto simp: renderPath_def encodeSegment_def isCanonicalByte_def dest!: encode_alphabet_byte)

lemma canonicalByte_clean:
  assumes "isCanonicalByte c"
  shows "\<not> isControlByte c" "c \<noteq> encodedSlash" "byteVal c < 0x80" "c \<noteq> CHR ''#''" "c \<noteq> CHR ''?''"
  using assms by (auto simp: isCanonicalByte_def isPathPChar_def pcharPunct_def isControlByte_def
      encodedSlash_def isDigit_def isLowerAlpha_def isUpperAlpha_def)

lemma checkRawBytes_canonical: "(\<And>c. c \<in> set s \<Longrightarrow> isCanonicalByte c) \<Longrightarrow> checkRawBytes s = Inr ()"
proof (induction s)
  case (Cons c s)
  then have "isCanonicalByte c" by simp
  note canonicalByte_clean [OF this]
  with Cons show ?case by simp
qed simp

lemma checkRawBytes_tail: "checkRawBytes (c # cs) = Inr () \<Longrightarrow> checkRawBytes cs = Inr ()"
  by (auto split: if_splits)

lemma decodeL7_Cons_Inr:
  assumes "decodeL7 allow (c # cs) = Inr d"
  obtains x rest d' where "d = x # d'" "decodeL7 allow rest = Inr d'" "suffix rest cs"
    "x = c \<and> c \<noteq> CHR ''%'' \<or> okByte allow x"
proof (cases "c = CHR ''%''")
  case False
  with assms that [of c _ cs] show ?thesis by auto
next
  case True
  with assms obtain h l rest hi lo where
    cs: "cs = h # l # rest" and hx: "fromHex h = Some hi" "fromHex l = Some lo"
    by (auto split: list.splits option.splits)
  have suf: "suffix rest cs" unfolding cs by (simp add: suffix_ConsI)
  define b where "b = (char_of (push_bit 4 hi OR lo) :: char)"
  have "decodeL7 allow (c # cs) = (if b = CHR ''/'' then
        (if \<not> allow then Inl PathEncodedSlash else mapR (Cons encodedSlash) (decodeL7 allow rest))
      else if isControlByte b then Inl PathEncodedControl
      else mapR (Cons b) (decodeL7 allow rest))"
    using True by (simp add: cs hx b_def Let_def)
  note dec = assms [unfolded this]
  show ?thesis
  proof (cases "b = CHR ''/''")
    case b: True
    with dec that [of encodedSlash _ rest] suf show ?thesis
      by (auto simp: okByte_def split: if_splits)
  next
    case b: False
    with dec have "\<not> isControlByte b" by (auto split: if_splits)
    then have "b \<noteq> encodedSlash" by (auto simp: isControlByte_def encodedSlash_def)
    with dec b that [of b _ rest] suf show ?thesis
      by (auto simp: okByte_def split: if_splits)
  qed
qed

lemma checkRawBytes_iff:
  "checkRawBytes s = Inr () \<longleftrightarrow>
   (\<forall>c \<in> set s. \<not> isControlByte c \<and> c \<noteq> encodedSlash \<and> byteVal c < 0x80)"
  by (induction s) auto

lemma decodeL7_bytes:
  "decodeL7 allow s = Inr d \<Longrightarrow> checkRawBytes s = Inr () \<Longrightarrow>
   length d \<le> length s \<and> (\<forall>x \<in> set d. okByte allow x \<or> x = CHR ''/'')"
proof (induction s arbitrary: d rule: length_induct)
  case (1 s)
  show ?case
  proof (cases s)
    case Nil
    with 1 show ?thesis by simp
  next
    case (Cons c cs)
    with 1 have "decodeL7 allow (c # cs) = Inr d" by (simp only:)
    then obtain x rest d' where d: "d = x # d'" "decodeL7 allow rest = Inr d'" "suffix rest cs"
      "x = c \<and> c \<noteq> CHR ''%'' \<or> okByte allow x"
      by (rule decodeL7_Cons_Inr)
    from d(3) Cons have len: "length rest \<le> length cs" "set rest \<subseteq> set s"
      by (auto dest: suffix_length_le set_mono_suffix)
    have raw: "\<forall>c \<in> set s. \<not> isControlByte c \<and> c \<noteq> encodedSlash \<and> byteVal c < 0x80"
      using 1(3) by (simp only: checkRawBytes_iff)
    with len(2) have "checkRawBytes rest = Inr ()"
      unfolding checkRawBytes_iff by blast
    moreover have "length rest < length s" using len(1) Cons by simp
    ultimately have "length d' \<le> length rest \<and> (\<forall>x \<in> set d'. okByte allow x \<or> x = CHR ''/'')"
      using 1(1) d(2) by blast
    moreover have "okByte allow x \<or> x = CHR ''/''"
      using d(4) raw Cons by (auto simp: okByte_def)
    ultimately show ?thesis using len Cons d(1) by auto
  qed
qed

section \<open>Segment normalisation\<close>

lemma stripParams_set: "set (stripParams s) \<subseteq> set s" "CHR '';'' \<notin> set (stripParams s)"
  by (auto simp: stripParams_def indexByte_None split: option.splits dest: in_set_takeD indexByte_Some)

lemma stripParams_id: "CHR '';'' \<notin> set s \<Longrightarrow> stripParams s = s"
  by (simp add: stripParams_def indexByte_None [THEN iffD2])

lemma length_stripParams: "length (stripParams s) \<le> length s"
  by (auto simp: stripParams_def split: option.splits)

lemma cleanSegment_Nil [simp]: "cleanSegment allow []"
  by (simp add: cleanSegment_def isDotSegment_def)

lemma normalizeSegments_clean:
  assumes "normalizeSegments stack segs = Inr out"
    and "\<And>s c. s \<in> set segs \<Longrightarrow> c \<in> set s \<Longrightarrow> okByte allow c"
    and "\<And>s. s \<in> set stack \<Longrightarrow> cleanSegment allow s \<and> s \<noteq> []" and "segs \<noteq> []"
  shows "out \<noteq> [] \<and> (\<forall>s \<in> set out. cleanSegment allow s) \<and> [] \<notin> set (butlast out)"
  using assms
proof (induction stack segs arbitrary: out rule: normalizeSegments.induct)
  case (2 stack raw rest)
  define seg where "seg = stripParams raw"
  have seg_ok: "\<not> isDotSegment seg \<Longrightarrow> cleanSegment allow seg"
    using 2(6) [of raw] stripParams_set [of raw] by (auto simp: cleanSegment_def seg_def)
  have bl: "\<And>s. s \<in> set (butlast stack) \<Longrightarrow> cleanSegment allow s \<and> s \<noteq> []"
    using 2(7) by (auto dest: in_set_butlastD)
  consider (up) "seg = ''..''" | (dot) "seg = ''.''" | (skip) "seg = []" "rest \<noteq> []"
    | (push) "\<not> isDotSegment seg" "seg = [] \<longrightarrow> rest = []"
    by (auto simp: isDotSegment_def)
  then show ?case
  proof cases
    case up
    with 2(5) have ne: "stack \<noteq> []" and
      eq: "normalizeSegments (butlast stack @ (if rest = [] then [[]] else [])) rest = Inr out"
      by (auto simp: seg_def Let_def split: if_splits)
    show ?thesis
    proof (cases "rest = []")
      case True
      with eq show ?thesis by (auto dest: bl)
    next
      case False
      with 2(1) [OF seg_def refl up ne] eq 2(6) bl show ?thesis by auto
    qed
  next
    case dot
    with 2(5) have eq: "normalizeSegments (stack @ (if rest = [] then [[]] else [])) rest = Inr out"
      by (auto simp: seg_def Let_def split: if_splits)
    show ?thesis
    proof (cases "rest = []")
      case True
      with eq show ?thesis by (auto dest: 2(7))
    next
      case False
      with 2(2) [OF seg_def refl _ dot] dot eq 2(6) 2(7) show ?thesis by auto
    qed
  next
    case skip
    with 2(5) have "normalizeSegments stack rest = Inr out"
      by (auto simp: seg_def Let_def split: if_splits)
    with 2(3) [OF seg_def refl] skip 2(6) 2(7) show ?thesis by auto
  next
    case push
    with 2(5) have eq: "normalizeSegments (stack @ [seg]) rest = Inr out"
      by (auto simp: seg_def Let_def isDotSegment_def split: if_splits)
    show ?thesis
    proof (cases "rest = []")
      case True
      with eq seg_ok push(1) show ?thesis by (auto dest: 2(7))
    next
      case False
      with 2(4) [OF seg_def refl] push eq 2(6) 2(7) seg_ok show ?thesis
        by (auto simp: isDotSegment_def)
    qed
  qed
qed simp

lemma normalizeSegments_fixed:
  "(\<And>s. s \<in> set segs \<Longrightarrow> cleanSegment allow s) \<Longrightarrow> [] \<notin> set (butlast segs) \<Longrightarrow>
   normalizeSegments stack segs = Inr (stack @ segs)"
proof (induction segs arbitrary: stack)
  case (Cons s segs)
  then have "stripParams s = s" "\<not> isDotSegment s"
    by (auto simp: cleanSegment_def intro: stripParams_id)
  moreover have "s = [] \<Longrightarrow> segs = []"
    using Cons.prems(2) by (cases segs) auto
  moreover have "[] \<notin> set (butlast segs)"
    using Cons.prems(2) by (cases segs) auto
  ultimately show ?case
    using Cons by (auto simp: isDotSegment_def Let_def)
qed simp

lemma segWeight_simps [simp]:
  "segWeight [] = 0" "segWeight (s # segs) = Suc (length s) + segWeight segs"
  "segWeight (xs @ ys) = segWeight xs + segWeight ys"
  by (simp_all add: segWeight_def)

lemma segWeight_butlast: "segWeight (butlast xs) \<le> segWeight xs"
  by (cases xs rule: rev_cases) auto

lemma normalizeSegments_weight:
  "normalizeSegments stack segs = Inr out \<Longrightarrow> segWeight out \<le> segWeight stack + segWeight segs"
proof (induction stack segs arbitrary: out rule: normalizeSegments.induct)
  case (2 stack raw rest)
  have w: "length (stripParams raw) \<le> length raw" "segWeight (butlast stack) \<le> segWeight stack"
    by (rule length_stripParams, rule segWeight_butlast)
  consider (up) "stripParams raw = ''..''" | (dot) "stripParams raw = ''.''"
    | (skip) "stripParams raw = []" "rest \<noteq> []"
    | (push) "\<not> isDotSegment (stripParams raw)" "stripParams raw = [] \<longrightarrow> rest = []"
    by (auto simp: isDotSegment_def)
  then show ?case
  proof cases
    case up
    with 2(5) have ne: "stack \<noteq> []" and
      eq: "normalizeSegments (butlast stack @ (if rest = [] then [[]] else [])) rest = Inr out"
      by (auto simp: Let_def split: if_splits)
    with 2(1) [OF refl refl up ne eq] w show ?thesis by (auto split: if_splits)
  next
    case dot
    with 2(5) have eq: "normalizeSegments (stack @ (if rest = [] then [[]] else [])) rest = Inr out"
      by (auto simp: Let_def split: if_splits)
    with 2(2) [OF refl refl _ dot eq] dot w show ?thesis by (auto split: if_splits)
  next
    case skip
    with 2(5) have "normalizeSegments stack rest = Inr out"
      by (auto simp: Let_def split: if_splits)
    with 2(3) [OF refl refl] skip show ?thesis by auto
  next
    case push
    with 2(5) have "normalizeSegments (stack @ [stripParams raw]) rest = Inr out"
      by (auto simp: Let_def isDotSegment_def split: if_splits)
    with 2(4) [OF refl refl] push w show ?thesis by (auto simp: isDotSegment_def)
  qed
qed simp

section \<open>Canonical paths\<close>

lemma segWeight_splitByte [simp]: "segWeight (splitByte t s) = Suc (length s)"
proof (induction s)
  case (Cons c s)
  then show ?case by (cases "splitByte t s") auto
qed simp

lemma index_single: "index s [c] = None \<longleftrightarrow> c \<notin> set s"
  by (induction s) auto

lemma cleanSegment_no_slash: "cleanSegment allow s \<Longrightarrow> CHR ''/'' \<notin> set s"
proof -
  have "\<not> okByte allow (CHR ''/'')" by (simp add: okByte_def encodedSlash_def)
  then show "cleanSegment allow s \<Longrightarrow> CHR ''/'' \<notin> set s" by (auto simp: cleanSegment_def)
qed

lemma canonicalizeL7Path_Inr:
  assumes "canonicalizeL7Path raw allow = Inr p"
  obtains stack where "p = renderPath stack" "stack \<noteq> []" "\<And>s. s \<in> set stack \<Longrightarrow> cleanSegment allow s"
    "[] \<notin> set (butlast stack)" "\<not> residualDot stack" "segWeight stack \<le> maxL7PathBytes"
proof -
  define raw' where "raw' = (if raw = [] then ''/'' else raw)"
  from assms obtain decoded stack where
    chk: "checkRawBytes raw = Inr ()" and len: "length raw' \<le> maxL7PathBytes" and
    dec: "decodeL7 allow raw' = Inr decoded" and
    ne: "decoded \<noteq> []" and
    norm: "normalizeSegments [] (bytesPathSegments (tl decoded)) = Inr stack" and
    res: "\<not> residualDot stack" and p: "p = renderPath stack"
    by (auto simp: canonicalizeL7Path_def raw'_def Let_def split: if_splits)
  have "checkRawBytes raw' = Inr ()"
    using chk by (simp add: raw'_def checkRawBytes_iff isControlByte_def encodedSlash_def)
  with dec have d: "length decoded \<le> length raw'" "\<And>x. x \<in> set decoded \<Longrightarrow> okByte allow x \<or> x = CHR ''/''"
    using decodeL7_bytes by blast+
  have "okByte allow c" if "s \<in> set (bytesPathSegments (tl decoded))" "c \<in> set s" for s c
    using that d(2) [of c] splitByte_set [of s "CHR ''/''" "tl decoded"] splitByte_no_sep [of s "CHR ''/''" "tl decoded"]
      list.set_sel(2) [OF ne, of c] by (auto simp: bytesPathSegments_def)
  then have "stack \<noteq> [] \<and> (\<forall>s \<in> set stack. cleanSegment allow s) \<and> [] \<notin> set (butlast stack)"
    using norm by (intro normalizeSegments_clean) (auto simp: bytesPathSegments_def)
  moreover have "segWeight stack \<le> maxL7PathBytes"
    using normalizeSegments_weight [OF norm] d(1) len ne by (simp add: bytesPathSegments_def)
  ultimately show ?thesis using that p res by blast
qed

lemma decodeL7_join:
  "(\<And>s. s \<in> set stack \<Longrightarrow> cleanSegment allow s) \<Longrightarrow>
   decodeL7 allow (join (map encodeSegment stack) ''/'') = Inr (join stack ''/'')"
proof (induction stack)
  case (Cons s stack)
  then have ok: "\<And>c. c \<in> set s \<Longrightarrow> okByte allow c"
    by (auto simp: cleanSegment_def)
  have "decodeL7 allow (encodeSegment s @ []) = mapR ((@) s) (decodeL7 allow [])"
    by (rule decodeL7_encodeSegment) (rule ok)
  then have single: "decodeL7 allow (encodeSegment s) = Inr s" by simp
  show ?case
  proof (cases "stack = []")
    case False
    with Cons show ?thesis
      by (simp add: join_Cons decodeL7_encodeSegment ok)
  qed (simp add: single)
qed simp

lemma renderPath_cases: "renderPath stack = CHR ''/'' # join (map encodeSegment stack) ''/''"
  by (simp add: renderPath_def)

lemma canonical_fixed_point:
  assumes "stack \<noteq> []" "\<And>s. s \<in> set stack \<Longrightarrow> cleanSegment allow s" "[] \<notin> set (butlast stack)"
    "\<not> residualDot stack" "length (renderPath stack) \<le> maxL7PathBytes"
  shows "canonicalizeL7Path (renderPath stack) allow = Inr (renderPath stack)"
proof -
  have alpha: "\<And>c. c \<in> set (renderPath stack) \<Longrightarrow> isCanonicalByte c"
    by (rule renderPath_alphabet)
  have chk: "checkRawBytes (renderPath stack) = Inr ()"
    using alpha by (rule checkRawBytes_canonical)
  have frag: "\<not> contains (renderPath stack) ''#''"
    using alpha canonicalByte_clean(4) by (auto simp: contains_def index_single)
  have dec: "decodeL7 allow (renderPath stack) = Inr (CHR ''/'' # join stack ''/'')"
    using decodeL7_join [OF assms(2)] by (simp add: renderPath_cases)
  have noslash: "CHR ''/'' \<notin> set s" if "s \<in> set stack" for s
    using assms(2) [OF that] by (rule cleanSegment_no_slash)
  have segs: "bytesPathSegments (join stack ''/'') = stack"
    unfolding bytesPathSegments_def using assms(1) noslash by (rule splitByte_join)
  have "normalizeSegments [] stack = Inr stack"
    using normalizeSegments_fixed [OF assms(2,3), of "[]"] by simp
  then show ?thesis
    using chk frag dec segs assms(4,5)
    by (simp add: canonicalizeL7Path_def renderPath_cases [of stack] Let_def)
qed

section \<open>The decoded form of a canonical path\<close>

lemma pathUnescape_encodeByte:
  "pathUnescape (encodeByte c @ s) = map_option (Cons (slashOf c)) (pathUnescape s)"
proof -
  have "fromHex (CHR ''2'') = Some 2" "fromHex (CHR ''F'') = Some 15"
    by (simp_all add: fromHex_def isDigit_def)
  moreover have "char_of (push_bit 4 2 OR (15::nat)) = CHR ''/''"
    by code_simp
  ultimately show ?thesis
    by (auto simp: encodeByte_def slashOf_def nibbles_join dest: pchar_not_percent)
qed

lemma pathUnescape_encodeSegment:
  "pathUnescape (encodeSegment seg @ s) = map_option ((@) (map slashOf seg)) (pathUnescape s)"
proof (induction seg)
  case (Cons c seg)
  then show ?case
    using pathUnescape_encodeByte [of c "encodeSegment seg @ s"]
    by (cases "pathUnescape s") (auto simp: encodeSegment_def)
qed (cases "pathUnescape s", auto simp: encodeSegment_def)

lemma pathUnescape_join:
  "pathUnescape (join (map encodeSegment stack) ''/'') = Some (join (map (map slashOf) stack) ''/'')"
proof (induction stack)
  case (Cons s stack)
  have "pathUnescape (encodeSegment s @ []) = Some (map slashOf s)"
    by (simp only: pathUnescape_encodeSegment) simp
  with Cons show ?case
    by (cases "stack = []") (auto simp: join_Cons pathUnescape_encodeSegment)
qed simp

lemma splitByte_concat_join:
  "ps \<noteq> [] \<Longrightarrow> splitByte t (join ps [t]) = concat (map (splitByte t) ps)"
proof (induction ps)
  case (Cons p ps)
  have "splitByte t (p @ t # r) = splitByte t p @ splitByte t r" for r
  proof (induction p)
    case (Cons c p)
    then show ?case by (cases "splitByte t p") auto
  qed simp
  with Cons show ?case by (cases "ps = []") (auto simp: join_Cons)
qed simp

lemma splitByte_slashOf:
  "CHR ''/'' \<notin> set seg \<Longrightarrow> splitByte (CHR ''/'') (map slashOf seg) = splitEncodedSlash seg"
  unfolding splitEncodedSlash_def
proof (induction seg)
  case (Cons c seg)
  then show ?case by (cases "splitByte encodedSlash seg") (auto simp: slashOf_def)
qed simp

lemma decoded_segments:
  assumes "stack \<noteq> []" "\<And>s. s \<in> set stack \<Longrightarrow> cleanSegment allow s"
  shows "splitByte (CHR ''/'') (join (map (map slashOf) stack) ''/'') = concat (map splitEncodedSlash stack)"
proof -
  have "CHR ''/'' \<notin> set s" if "s \<in> set stack" for s
    using assms(2) [OF that] by (rule cleanSegment_no_slash)
  then have "map (splitByte (CHR ''/'')) (map (map slashOf) stack) = map splitEncodedSlash stack"
    by (simp add: splitByte_slashOf)
  moreover have "splitByte (CHR ''/'') (join (map (map slashOf) stack) ''/'')
      = concat (map (splitByte (CHR ''/'')) (map (map slashOf) stack))"
    using assms(1) by (intro splitByte_concat_join) simp
  ultimately show ?thesis by (simp only:)
qed

lemma length_encodeSegment: "length (encodeSegment s) \<le> 3 * length s"
proof (induction s)
  case (Cons c s)
  have "length (encodeByte c) \<le> 3" by (simp add: encodeByte_def)
  with Cons show ?case by (simp add: encodeSegment_def)
qed (simp add: encodeSegment_def)

lemma length_renderPath: "stack \<noteq> [] \<Longrightarrow> length (renderPath stack) \<le> 3 * segWeight stack"
proof (induction stack)
  case (Cons s stack)
  then show ?case
    using length_encodeSegment [of s] by (cases "stack = []") (auto simp: renderPath_def join_Cons)
qed simp

section \<open>Properties\<close>

text \<open>
  C7: canonicalisation is idempotent. A path that \<^verbatim>\<open>canonicalizeL7Path\<close> returned is accepted again
  and returned unchanged (as long as it is within the size limit that the function puts on its
  input), so the policy and a second pass over the forwarded path see the same bytes.
\<close>

theorem canonicalizeL7Path_idempotent:
  assumes "canonicalizeL7Path raw allow = Inr p" and "length p \<le> maxL7PathBytes"
  shows "canonicalizeL7Path p allow = Inr p"
proof -
  obtain stack where "p = renderPath stack" "stack \<noteq> []" "\<And>s. s \<in> set stack \<Longrightarrow> cleanSegment allow s"
    "[] \<notin> set (butlast stack)" "\<not> residualDot stack"
    using assms(1) by (rule canonicalizeL7Path_Inr) blast
  with assms(2) show ?thesis by (metis canonical_fixed_point)
qed

theorem canonicalizeL7Path_idempotent_witness:
  "canonicalizeL7Path ''/a/%2e%2e/b%7c;x/'' False = Inr ''/b%7C/'' \<and>
   canonicalizeL7Path ''/b%7C/'' False = Inr ''/b%7C/''"
proof -
  have h: "canonicalizeL7Path ''/a/%2e%2e/b%7c;x/'' False = Inr ''/b%7C/''"
    by code_simp
  show ?thesis using h canonicalizeL7Path_idempotent [OF h] by (simp add: maxL7PathBytes_def)
qed

text \<open>
  C6: no path traversal survives. Percent-decoding an accepted path (encoded slashes included, where
  the endpoint allows them) gives an absolute path none of whose segments is \<^verbatim>\<open>.\<close> or \<^verbatim>\<open>..\<close>, so an
  upstream that decodes the path once cannot be walked out of the prefix that the policy matched.
\<close>

theorem canonical_path_no_dot_segments:
  assumes "canonicalizeL7Path raw allow = Inr p"
  shows "\<exists>d. pathUnescape p = Some (CHR ''/'' # d) \<and>
    (\<forall>seg \<in> set (splitByte (CHR ''/'') d). \<not> isDotSegment seg)"
proof -
  obtain stack where s: "p = renderPath stack" "stack \<noteq> []" "\<And>s. s \<in> set stack \<Longrightarrow> cleanSegment allow s"
    "\<not> residualDot stack"
    using assms by (rule canonicalizeL7Path_Inr) blast
  let ?d = "join (map (map slashOf) stack) ''/''"
  have "pathUnescape p = Some (CHR ''/'' # ?d)"
    by (simp add: s(1) renderPath_cases pathUnescape_join)
  moreover have "\<forall>seg \<in> set (splitByte (CHR ''/'') ?d). \<not> isDotSegment seg"
    using s(4) by (auto simp: decoded_segments [OF s(2,3)] residualDot_def)
  ultimately show ?thesis by blast
qed

theorem canonical_path_no_dot_segments_witness:
  "canonicalizeL7Path ''/repos/group%2fx/../y'' True = Inr ''/repos/y'' \<and>
   (\<exists>d. pathUnescape ''/repos/y'' = Some (CHR ''/'' # d) \<and>
      list_all (\<lambda>seg. \<not> isDotSegment seg) (splitByte (CHR ''/'') d))"
proof -
  have h: "canonicalizeL7Path ''/repos/group%2fx/../y'' True = Inr ''/repos/y''"
    by code_simp
  show ?thesis using h canonical_path_no_dot_segments [OF h] unfolding list_all_iff by blast
qed

text \<open>
  C12: the shape of a canonical path. It starts with a slash, it consists of unreserved characters,
  sub-delimiters, slashes and percent escapes only (no control byte, no non-ASCII byte, no query or
  fragment delimiter), and it is at most three times the input limit long.
\<close>

theorem canonical_path_shape:
  assumes "canonicalizeL7Path raw allow = Inr p"
  shows "hd p = CHR ''/'' \<and> (\<forall>c \<in> set p. isCanonicalByte c) \<and> length p \<le> 3 * maxL7PathBytes"
proof -
  obtain stack where s: "p = renderPath stack" "stack \<noteq> []" "segWeight stack \<le> maxL7PathBytes"
    using assms by (rule canonicalizeL7Path_Inr) blast
  have "\<forall>c \<in> set p. isCanonicalByte c"
    using renderPath_alphabet s(1) by blast
  moreover have "length p \<le> 3 * maxL7PathBytes"
    using length_renderPath [OF s(2)] s(1,3) by simp
  ultimately show ?thesis by (simp add: s(1) renderPath_cases)
qed

theorem canonical_path_shape_witness:
  "canonicalizeL7Path ''/caf%c3%a9'' False = Inr ''/caf%C3%A9'' \<and>
   list_all isCanonicalByte ''/caf%C3%A9''"
proof -
  have h: "canonicalizeL7Path ''/caf%c3%a9'' False = Inr ''/caf%C3%A9''"
    by code_simp
  show ?thesis using h canonical_path_shape [OF h] by (simp add: list_all_iff)
qed

end
