(* ===== verification/Netip.thy ===== *)
theory Netip
  imports Go_Prelude
begin

text \<open>
  The part of Go's \<^verbatim>\<open>net/netip\<close> and \<^verbatim>\<open>strconv\<close> that the proxy's destination checks use: addresses with an
  optional IPv6 zone, prefixes, their text forms, and containment. A prefix never contains an
  address that carries a zone, as the package documents; the destination filter depends on that.
\<close>

section \<open>Numbers\<close>

definition digitVal :: "char \<Rightarrow> int" where
  "digitVal c = of_char c - 48"

definition decVal :: "string \<Rightarrow> int" where
  "decVal s = foldl (\<lambda>acc c. acc * 10 + digitVal c) 0 s"

text \<open>\<^verbatim>\<open>strconv.ParseUint(s, 10, bits)\<close>; \<^const>\<open>None\<close> for a syntax or range error.\<close>

definition parseUint :: "string \<Rightarrow> nat \<Rightarrow> int option" where
  "parseUint s bits =
     (if s = [] \<or> \<not> list_all isDigit s then None
      else if decVal s < 2 ^ bits then Some (decVal s) else None)"

text \<open>\<^verbatim>\<open>strconv.Atoi\<close> on a 64-bit platform.\<close>

definition atoi :: "string \<Rightarrow> int option" where
  "atoi s =
     (let neg = hasPrefix s ''-'';
          body = (if hasPrefix s ''-'' \<or> hasPrefix s ''+'' then tl s else s) in
      if body = [] \<or> \<not> list_all isDigit body then None
      else (let v = (if neg then - decVal body else decVal body) in
            if - (2 ^ 63) \<le> v \<and> v < 2 ^ 63 then Some v else None))"

function decDigits :: "int \<Rightarrow> string" where
  "decDigits n = (if n < 10 then [char_of (48 + n)] else decDigits (n div 10) @ [char_of (48 + n mod 10)])"
  by pat_completeness auto
termination
  by (relation "measure nat") auto

declare decDigits.simps [simp del]

text \<open>\<^verbatim>\<open>strconv.Itoa\<close>.\<close>

definition itoa :: "int \<Rightarrow> string" where
  "itoa i = (if i < 0 then CHR ''-'' # decDigits (- i) else decDigits i)"

text \<open>Decimal numerals are read back, so that different numbers are written differently.\<close>

lemma digitVal_char: "0 \<le> d \<Longrightarrow> d < 10 \<Longrightarrow> digitVal (char_of (48 + d)) = d"
  by (simp add: digitVal_def)

lemma decVal_snoc: "decVal (s @ [c]) = decVal s * 10 + digitVal c"
  by (simp add: decVal_def)

lemma decVal_decDigits: "0 \<le> n \<Longrightarrow> decVal (decDigits n) = n"
proof (induction n rule: decDigits.induct)
  case (1 n)
  show ?case
  proof (cases "n < 10")
    case True
    then show ?thesis using 1 by (simp add: decDigits.simps [of n] decVal_def digitVal_char)
  next
    case False
    then show ?thesis using 1 by (simp add: decDigits.simps [of n] decVal_snoc digitVal_char)
  qed
qed

lemma decDigits_hd: "0 \<le> n \<Longrightarrow> decDigits n \<noteq> [] \<and> hd (decDigits n) \<noteq> CHR ''-''"
proof (induction n rule: decDigits.induct)
  case (1 n)
  have minus: "digitVal CHR ''-'' = - 3" by (simp add: digitVal_def)
  have "char_of (48 + d) \<noteq> CHR ''-''" if "0 \<le> d" "d < 10" for d :: int
  proof
    assume "char_of (48 + d) = CHR ''-''"
    then show False using digitVal_char [OF that] minus that by simp
  qed
  then show ?case using 1 by (simp add: decDigits.simps [of n])
qed

lemma itoa_inject:
  assumes "itoa i = itoa j"
  shows "i = j"
proof (cases "i < 0"; cases "j < 0")
  assume "i < 0" "j < 0"
  then have "decVal (decDigits (- i)) = decVal (decDigits (- j))" using assms by (simp add: itoa_def)
  then show ?thesis using \<open>i < 0\<close> \<open>j < 0\<close> by (simp add: decVal_decDigits)
next
  assume "\<not> i < 0" "\<not> j < 0"
  then have "decVal (decDigits i) = decVal (decDigits j)" using assms by (simp add: itoa_def)
  then show ?thesis using \<open>\<not> i < 0\<close> \<open>\<not> j < 0\<close> by (simp add: decVal_decDigits)
next
  assume "i < 0" "\<not> j < 0"
  then have "hd (decDigits j) = CHR ''-''" using assms [symmetric] by (simp add: itoa_def)
  then show ?thesis using decDigits_hd [of j] \<open>\<not> j < 0\<close> by simp
next
  assume "\<not> i < 0" "j < 0"
  then have "hd (decDigits i) = CHR ''-''" using assms by (simp add: itoa_def)
  then show ?thesis using decDigits_hd [of i] \<open>\<not> i < 0\<close> by simp
qed

definition hexVal :: "char \<Rightarrow> int option" where
  "hexVal c =
     (if isDigit c then Some (of_char c - 48)
      else if 97 \<le> byteVal c \<and> byteVal c \<le> 102 then Some (of_char c - 87)
      else if 65 \<le> byteVal c \<and> byteVal c \<le> 70 then Some (of_char c - 55)
      else None)"

definition isHexDigit :: "char \<Rightarrow> bool" where
  "isHexDigit c \<longleftrightarrow> hexVal c \<noteq> None"

definition hexNum :: "string \<Rightarrow> int" where
  "hexNum s = foldl (\<lambda>acc c. acc * 16 + (case hexVal c of Some v \<Rightarrow> v | None \<Rightarrow> 0)) 0 s"

section \<open>Addresses\<close>

datatype ip_addr = IPv4 "32 word" | IPv6 "128 word" string

fun hasZone :: "ip_addr \<Rightarrow> bool" where
  "hasZone (IPv4 a) = False"
| "hasZone (IPv6 a z) = (z \<noteq> [])"

fun withoutZone :: "ip_addr \<Rightarrow> ip_addr" where
  "withoutZone (IPv4 a) = IPv4 a"
| "withoutZone (IPv6 a z) = IPv6 a []"

fun bitLen :: "ip_addr \<Rightarrow> nat" where
  "bitLen (IPv4 a) = 32"
| "bitLen (IPv6 a z) = 128"

definition is4In6 :: "128 word \<Rightarrow> bool" where
  "is4In6 a \<longleftrightarrow> drop_bit 32 a = 0xffff"

fun unmap :: "ip_addr \<Rightarrow> ip_addr" where
  "unmap (IPv4 a) = IPv4 a"
| "unmap (IPv6 a z) = (if is4In6 a then IPv4 (ucast a) else IPv6 a z)"

definition bytesToInt :: "string \<Rightarrow> int" where
  "bytesToInt bs = foldl (\<lambda>acc b. acc * 256 + of_char b) 0 bs"

text \<open>\<^verbatim>\<open>netip.AddrFromSlice\<close>: four or sixteen bytes.\<close>

definition addrFromSlice :: "string \<Rightarrow> ip_addr option" where
  "addrFromSlice bs =
     (if length bs = 4 then Some (IPv4 (of_int (bytesToInt bs)))
      else if length bs = 16 then Some (IPv6 (of_int (bytesToInt bs)) [])
      else None)"

section \<open>Parsing\<close>

definition parseOctet :: "string \<Rightarrow> int option" where
  "parseOctet s =
     (if s = [] \<or> \<not> list_all isDigit s \<or> (length s > 1 \<and> hd s = CHR ''0'') \<or> decVal s > 255 then None
      else Some (decVal s))"

definition parseIPv4Fields :: "string \<Rightarrow> int option" where
  "parseIPv4Fields s =
     (case map parseOctet (splitByte (CHR ''.'') s) of
        [Some a, Some b, Some c, Some d] \<Rightarrow> Some (((a * 256 + b) * 256 + c) * 256 + d)
      | _ \<Rightarrow> None)"

function parseGroups :: "int list \<Rightarrow> nat option \<Rightarrow> string \<Rightarrow> (int list \<times> nat option) option" where
  "parseGroups gs ell s =
     (if length gs \<ge> 8 then (if s = [] then Some (gs, ell) else None)
      else
        (let hs = takeWhile isHexDigit s; rest = drop (length hs) s in
         if hs = [] \<or> length hs > 4 then None
         else if rest \<noteq> [] \<and> hd rest = CHR ''.'' then
           (if ell = None \<and> length gs \<noteq> 6 then None
            else if length gs + 2 > 8 then None
            else (case parseIPv4Fields s of
                    None \<Rightarrow> None
                  | Some v \<Rightarrow> Some (gs @ [v div 65536, v mod 65536], ell)))
         else
           (let gs' = gs @ [hexNum hs] in
            if rest = [] then Some (gs', ell)
            else if hd rest \<noteq> CHR '':'' then None
            else if length rest = 1 then None
            else if hd (tl rest) = CHR '':'' then
              (if ell \<noteq> None then None
               else if tl (tl rest) = [] then Some (gs', Some (length gs'))
               else parseGroups gs' (Some (length gs')) (tl (tl rest)))
            else parseGroups gs' ell (tl rest))))"
  by pat_completeness auto
termination
proof (relation "measure (\<lambda>(gs, ell, s). length s)", goal_cases)
  case (2 gs ell s hs rest gs')
  then have "length rest < length s" by (cases s) (auto split: if_splits)
  then show ?case by simp
next
  case (3 gs ell s hs rest gs')
  then have "length rest < length s" by (cases s) (auto split: if_splits)
  then show ?case by simp
qed simp

declare parseGroups.simps [simp del]

definition expandEllipsis :: "int list \<Rightarrow> nat option \<Rightarrow> int list option" where
  "expandEllipsis gs ell =
     (if length gs < 8 then
        (case ell of None \<Rightarrow> None
         | Some e \<Rightarrow> Some (take e gs @ replicate (8 - length gs) 0 @ drop e gs))
      else if ell \<noteq> None then None else Some gs)"

definition groupsToInt :: "int list \<Rightarrow> int" where
  "groupsToInt gs = foldl (\<lambda>acc g. acc * 65536 + g) 0 gs"

definition parseIPv6 :: "string \<Rightarrow> ip_addr option" where
  "parseIPv6 input =
     (let (s, zone, zoned) = cutByte input (CHR ''%'') in
      if zoned \<and> zone = [] then None
      else if s = ''::'' then Some (IPv6 0 zone)
      else
        (case (if hasPrefix s ''::'' then parseGroups [] (Some 0) (drop 2 s) else parseGroups [] None s) of
           None \<Rightarrow> None
         | Some (gs, ell) \<Rightarrow>
             (case expandEllipsis gs ell of
                None \<Rightarrow> None
              | Some gs' \<Rightarrow> Some (IPv6 (of_int (groupsToInt gs')) zone))))"

definition parseAddr :: "string \<Rightarrow> ip_addr option" where
  "parseAddr s =
     (case find (\<lambda>c. c = CHR ''.'' \<or> c = CHR '':'' \<or> c = CHR ''%'') s of
        None \<Rightarrow> None
      | Some c \<Rightarrow>
          if c = CHR ''.'' then map_option (\<lambda>v. IPv4 (of_int v)) (parseIPv4Fields s)
          else if c = CHR '':'' then parseIPv6 s
          else None)"

section \<open>Printing\<close>

definition octetOf :: "32 word \<Rightarrow> nat \<Rightarrow> int" where
  "octetOf a i = (uint a div 256 ^ (3 - i)) mod 256"

definition string4 :: "32 word \<Rightarrow> string" where
  "string4 a = join (map (\<lambda>i. decDigits (octetOf a i)) [0, 1, 2, 3]) ''.''"

definition groupOf :: "128 word \<Rightarrow> nat \<Rightarrow> int" where
  "groupOf a i = (uint a div 65536 ^ (7 - i)) mod 65536"

definition lowerHexDigit :: "int \<Rightarrow> char" where
  "lowerHexDigit n = (if n < 10 then char_of (48 + n) else char_of (87 + n))"

function hexDigits :: "int \<Rightarrow> string" where
  "hexDigits n = (if n < 16 then [lowerHexDigit n] else hexDigits (n div 16) @ [lowerHexDigit (n mod 16)])"
  by pat_completeness auto
termination
  by (relation "measure nat") auto

declare hexDigits.simps [simp del]

text \<open>The leftmost longest run of at least two zero groups, as \<^verbatim>\<open>(start, end)\<close>.\<close>

definition zeroRunFrom :: "int list \<Rightarrow> nat \<Rightarrow> nat" where
  "zeroRunFrom gs i = i + length (takeWhile (\<lambda>g. g = 0) (drop i gs))"

fun longestZeroRun :: "int list \<Rightarrow> nat list \<Rightarrow> (nat \<times> nat) option \<Rightarrow> (nat \<times> nat) option" where
  "longestZeroRun gs [] best = best"
| "longestZeroRun gs (i # is) best =
     (let j = zeroRunFrom gs i;
          bestLen = (case best of None \<Rightarrow> 0 | Some (zs, ze) \<Rightarrow> ze - zs) in
      longestZeroRun gs is (if j - i \<ge> 2 \<and> j - i > bestLen then Some (i, j) else best))"

definition string6 :: "128 word \<Rightarrow> string" where
  "string6 a =
     (let gs = map (groupOf a) [0, 1, 2, 3, 4, 5, 6, 7] in
      case longestZeroRun gs [0, 1, 2, 3, 4, 5, 6, 7] None of
        None \<Rightarrow> join (map hexDigits gs) '':''
      | Some (zs, ze) \<Rightarrow>
          join (map hexDigits (take zs gs)) '':'' @ ''::'' @ join (map hexDigits (drop ze gs)) '':'')"

fun addrString :: "ip_addr \<Rightarrow> string" where
  "addrString (IPv4 a) = string4 a"
| "addrString (IPv6 a z) =
     (if is4In6 a then ''::ffff:'' @ string4 (ucast a) else string6 a) @ (if z = [] then [] else CHR ''%'' # z)"

section \<open>Prefixes\<close>

record ip_prefix =
  pfxIP :: ip_addr
  pfxBits :: nat

definition prefixFrom :: "ip_addr \<Rightarrow> nat \<Rightarrow> ip_prefix" where
  "prefixFrom ip bits = \<lparr>pfxIP = withoutZone ip, pfxBits = bits\<rparr>"

fun maskAddr :: "ip_addr \<Rightarrow> nat \<Rightarrow> ip_addr" where
  "maskAddr (IPv4 a) bits = IPv4 (push_bit (32 - bits) (drop_bit (32 - bits) a))"
| "maskAddr (IPv6 a z) bits = IPv6 (push_bit (128 - bits) (drop_bit (128 - bits) a)) []"

definition masked :: "ip_prefix \<Rightarrow> ip_prefix" where
  "masked p = \<lparr>pfxIP = maskAddr (pfxIP p) (pfxBits p), pfxBits = pfxBits p\<rparr>"

definition parsePrefix :: "string \<Rightarrow> ip_prefix option" where
  "parsePrefix s =
     (case lastIndexByte s (CHR ''/'') of
        None \<Rightarrow> None
      | Some i \<Rightarrow>
          (case parseAddr (take i s) of
             None \<Rightarrow> None
           | Some ip \<Rightarrow>
               (let bitsStr = drop (Suc i) s in
                if hasZone ip then None
                else if length bitsStr > 1 \<and> \<not> (49 \<le> byteVal (hd bitsStr) \<and> byteVal (hd bitsStr) \<le> 57) then None
                else (case atoi bitsStr of
                        None \<Rightarrow> None
                      | Some bits \<Rightarrow>
                          if bits < 0 \<or> bits > int (bitLen ip) then None
                          else Some (prefixFrom ip (nat bits))))))"

fun containsAddr :: "ip_addr \<Rightarrow> nat \<Rightarrow> ip_addr \<Rightarrow> bool" where
  "containsAddr (IPv4 n) bits (IPv4 a) = (bits \<le> 32 \<and> drop_bit (32 - bits) (a XOR n) = 0)"
| "containsAddr (IPv6 n nz) bits (IPv6 a z) = (bits \<le> 128 \<and> z = [] \<and> drop_bit (128 - bits) (a XOR n) = 0)"
| "containsAddr _ _ _ = False"

definition prefixContains :: "ip_prefix \<Rightarrow> ip_addr \<Rightarrow> bool" where
  "prefixContains p ip = containsAddr (pfxIP p) (pfxBits p) ip"

section \<open>Containment as equality of high bits\<close>

lemma prefixContains_v4:
  "bits \<le> 32 \<Longrightarrow> prefixContains \<lparr>pfxIP = IPv4 n, pfxBits = bits\<rparr> (IPv4 a) \<longleftrightarrow>
   uint a div 2 ^ (32 - bits) = uint n div 2 ^ (32 - bits)"
  by (simp add: prefixContains_def drop_bit_xor xor_high_bits_iff)

lemma prefixContains_v6:
  "bits \<le> 128 \<Longrightarrow> prefixContains \<lparr>pfxIP = IPv6 n z', pfxBits = bits\<rparr> (IPv6 a []) \<longleftrightarrow>
   uint a div 2 ^ (128 - bits) = uint n div 2 ^ (128 - bits)"
  by (simp add: prefixContains_def drop_bit_xor xor_high_bits_iff)

lemma prefixContains_zoned: "hasZone ip \<Longrightarrow> \<not> prefixContains p ip"
  by (cases ip; cases "pfxIP p") (auto simp: prefixContains_def)

lemma prefixContains_family [simp]:
  "\<not> prefixContains \<lparr>pfxIP = IPv4 n, pfxBits = bits\<rparr> (IPv6 a z)"
  "\<not> prefixContains \<lparr>pfxIP = IPv6 m z, pfxBits = bits\<rparr> (IPv4 b)"
  by (simp_all add: prefixContains_def)

text \<open>A prefix contains what shares its leading bits, so masking its address changes nothing.\<close>

lemma prefixContains_masked [simp]: "prefixContains (masked p) ip = prefixContains p ip"
proof -
  have drop: "drop_bit k (push_bit k (drop_bit k n)) = drop_bit k n" for k and n :: "'a::len word"
    by (rule bit_eqI) (auto simp: bit_simps dest: bit_imp_le_length)
  show ?thesis
    by (cases "pfxIP p"; cases ip) (auto simp: prefixContains_def masked_def drop_bit_xor drop)
qed

lemma unmap_unmap [simp]: "unmap (unmap ip) = unmap ip"
  by (cases ip) auto

lemma unmap_no_zone: "hasZone (unmap ip) \<Longrightarrow> hasZone ip"
  by (cases ip) (auto split: if_splits)

end
