(* ===== verification/No_Proxy.thy ===== *)
theory No_Proxy
  imports Netip
begin

text \<open>
  The upstream-proxy bypass list of \<^verbatim>\<open>proxy/no_proxy.go\<close>: its grammar (wildcard, domain suffix, address,
  CIDR, optional port) and the selection of the addresses that are dialled directly.
\<close>

section \<open>Model\<close>

datatype noProxyKind =
    NoProxyDomain string
  | NoProxyIP ip_addr
  | NoProxyCIDR ip_prefix
  | NoProxyAll

record noProxyEntry =
  kind :: noProxyKind
  port :: int
  hasPort :: bool

fun appendUniqueAddr :: "ip_addr list \<Rightarrow> ip_addr \<Rightarrow> ip_addr list" where
  "appendUniqueAddr addrs candidate = (if candidate \<in> set addrs then addrs else addrs @ [candidate])"

definition splitHeadSuffix :: "string \<Rightarrow> (string \<times> string) option" where
  "splitHeadSuffix item =
     (if hasPrefix item ''['' then
        (case lastIndex item '']:'' of
           None \<Rightarrow> None
         | Some close \<Rightarrow> Some (take (close + 1) item, drop (close + 2) item))
      else
        (case lastIndexByte item (CHR '':'') of
           None \<Rightarrow> None
         | Some colon \<Rightarrow> Some (take colon item, drop (colon + 1) item)))"

definition splitNoProxyPort :: "string \<Rightarrow> string \<times> int \<times> bool" where
  "splitNoProxyPort item =
     (case splitHeadSuffix item of
        None \<Rightarrow> (item, 0, False)
      | Some (head, suf) \<Rightarrow>
          (case parseUint suf 16 of
             None \<Rightarrow> (item, 0, False)
           | Some n \<Rightarrow>
               if n = 0 then (item, 0, False)
               else if parsePrefix head = None \<and> parseAddr (trimSet head ''[]'') = None \<and> contains head '':''
               then (item, 0, False)
               else (head, n, True)))"

definition parseNoProxyItem :: "string \<Rightarrow> noProxyEntry option" where
  "parseNoProxyItem token =
     (let item0 = trimSpace token in
      if item0 = [] then None
      else if item0 = ''*'' then Some \<lparr>kind = NoProxyAll, port = 0, hasPort = False\<rparr>
      else
        (let item = toLower item0 in
         case parsePrefix item of
           Some p \<Rightarrow> Some \<lparr>kind = NoProxyCIDR (masked p), port = 0, hasPort = False\<rparr>
         | None \<Rightarrow>
           (case parseAddr (trimSet item ''[]'') of
              Some ip \<Rightarrow> Some \<lparr>kind = NoProxyIP (unmap ip), port = 0, hasPort = False\<rparr>
            | None \<Rightarrow>
              (case splitNoProxyPort item of
                 (head, p, hp) \<Rightarrow>
                   (case parsePrefix head of
                      Some pfx \<Rightarrow> Some \<lparr>kind = NoProxyCIDR (masked pfx), port = p, hasPort = hp\<rparr>
                    | None \<Rightarrow>
                      (case parseAddr (trimSet head ''[]'') of
                         Some ip \<Rightarrow> Some \<lparr>kind = NoProxyIP (unmap ip), port = p, hasPort = hp\<rparr>
                       | None \<Rightarrow>
                         (let name = trimSuffix (trimPrefix (trimPrefix head ''*.'') ''.'') ''.'' in
                          if name \<noteq> [] then Some \<lparr>kind = NoProxyDomain name, port = p, hasPort = hp\<rparr>
                          else None)))))))"

definition parseNoProxy :: "string \<Rightarrow> noProxyEntry list" where
  "parseNoProxy raw = List.map_filter parseNoProxyItem (splitByte (CHR '','') raw)"

definition canonicalNoProxyHost :: "string \<Rightarrow> string" where
  "canonicalNoProxyHost host =
     (let h = trimSuffix (toLower (trimSet (trimSpace host) ''[]'')) ''.'' in
      case parseAddr h of Some ip \<Rightarrow> addrString (unmap ip) | None \<Rightarrow> h)"

definition hostAddrSatisfies :: "string \<Rightarrow> (ip_addr \<Rightarrow> bool) \<Rightarrow> bool" where
  "hostAddrSatisfies canonicalHost P =
     (case parseAddr canonicalHost of Some ip \<Rightarrow> P (unmap ip) | None \<Rightarrow> False)"

fun selectDirect :: "string \<Rightarrow> int \<Rightarrow> ip_addr list \<Rightarrow> noProxyEntry list \<Rightarrow> ip_addr list \<Rightarrow> ip_addr list" where
  "selectDirect canonicalHost p resolved [] direct = direct"
| "selectDirect canonicalHost p resolved (entry # entries) direct =
     (if hasPort entry \<and> port entry \<noteq> p then selectDirect canonicalHost p resolved entries direct
      else (case kind entry of
        NoProxyAll \<Rightarrow> resolved
      | NoProxyDomain d \<Rightarrow>
          if canonicalHost = d \<or> hasSuffix canonicalHost (CHR ''.'' # d) then resolved
          else selectDirect canonicalHost p resolved entries direct
      | NoProxyIP ip \<Rightarrow>
          if hostAddrSatisfies canonicalHost (\<lambda>a. a = ip) then resolved
          else selectDirect canonicalHost p resolved entries
                 (foldl appendUniqueAddr direct (filter (\<lambda>a. unmap a = ip) resolved))
      | NoProxyCIDR pfx \<Rightarrow>
          if hostAddrSatisfies canonicalHost (prefixContains pfx) then resolved
          else selectDirect canonicalHost p resolved entries
                 (foldl appendUniqueAddr direct (filter (\<lambda>a. prefixContains pfx (unmap a)) resolved))))"

definition noProxyAddresses :: "string \<Rightarrow> int \<Rightarrow> string \<Rightarrow> ip_addr list \<Rightarrow> ip_addr list" where
  "noProxyAddresses host p raw resolved =
     selectDirect (canonicalNoProxyHost host) p resolved (parseNoProxy raw) []"

section \<open>Lemmas\<close>

text \<open>What it means for an entry to justify a direct connection to \<open>addr\<close>.\<close>

definition entryMatchesHost :: "string \<Rightarrow> noProxyEntry \<Rightarrow> bool" where
  "entryMatchesHost h e =
     (case kind e of
        NoProxyAll \<Rightarrow> True
      | NoProxyDomain d \<Rightarrow> h = d \<or> hasSuffix h (CHR ''.'' # d)
      | NoProxyIP ip \<Rightarrow> hostAddrSatisfies h (\<lambda>a. a = ip)
      | NoProxyCIDR pfx \<Rightarrow> hostAddrSatisfies h (prefixContains pfx))"

definition entryMatchesAddr :: "ip_addr \<Rightarrow> noProxyEntry \<Rightarrow> bool" where
  "entryMatchesAddr a e =
     (case kind e of
        NoProxyIP ip \<Rightarrow> unmap a = ip
      | NoProxyCIDR pfx \<Rightarrow> prefixContains pfx (unmap a)
      | _ \<Rightarrow> False)"

definition entryPortOk :: "int \<Rightarrow> noProxyEntry \<Rightarrow> bool" where
  "entryPortOk p e \<longleftrightarrow> (hasPort e \<longrightarrow> port e = p)"

lemma set_foldl_appendUnique: "set (foldl appendUniqueAddr acc xs) = set acc \<union> set xs"
  by (induction xs arbitrary: acc) auto

lemma distinct_foldl_appendUnique: "distinct acc \<Longrightarrow> distinct (foldl appendUniqueAddr acc xs)"
  by (induction xs arbitrary: acc) auto

lemma selectDirect_subset: "set direct \<subseteq> set resolved \<Longrightarrow> set (selectDirect h p resolved es direct) \<subseteq> set resolved"
proof (induction es arbitrary: direct)
  case (Cons e es)
  then show ?case
    by (auto simp: set_foldl_appendUnique split: noProxyKind.splits)
qed simp

lemma selectDirect_unfold:
  "selectDirect h p resolved (e # es) direct =
     (if \<not> entryPortOk p e then selectDirect h p resolved es direct
      else if entryMatchesHost h e then resolved
      else selectDirect h p resolved es
             (foldl appendUniqueAddr direct (filter (\<lambda>a. entryMatchesAddr a e) resolved)))"
  by (auto simp: entryPortOk_def entryMatchesHost_def entryMatchesAddr_def split: noProxyKind.splits)

lemma selectDirect_set:
  "set (selectDirect h p resolved es direct) =
     (if \<exists>e \<in> set es. entryPortOk p e \<and> entryMatchesHost h e then set resolved
      else set direct \<union> {a \<in> set resolved. \<exists>e \<in> set es. entryPortOk p e \<and> entryMatchesAddr a e})"
proof (induction es arbitrary: direct)
  case (Cons e es)
  then show ?case
    unfolding selectDirect_unfold by (auto simp: set_foldl_appendUnique)
qed simp

declare selectDirect.simps(2) [simp del]

section \<open>Property\<close>

text \<open>
  C13: the addresses dialled directly are exactly: all resolved addresses, when an entry whose port
  (if any) is the destination port matches the host itself; otherwise the resolved addresses that
  such an entry's address or CIDR covers. Nothing outside the resolved list is ever returned.\<close>

theorem noProxyAddresses_exact:
  "set (noProxyAddresses host p raw resolved) =
     (if \<exists>e \<in> set (parseNoProxy raw). entryPortOk p e \<and> entryMatchesHost (canonicalNoProxyHost host) e
      then set resolved
      else {a \<in> set resolved. \<exists>e \<in> set (parseNoProxy raw). entryPortOk p e \<and> entryMatchesAddr a e})"
  unfolding noProxyAddresses_def selectDirect_set list.set(1) Un_empty_left by (rule refl)

end
