(* ===== verification/L7_Query.thy ===== *)
theory L7_Query
  imports L7_Path
begin

text \<open>
  Query strings: the escaping of \<^verbatim>\<open>net/url\<close>, UTF-8 validity, and \<^verbatim>\<open>parsePolicyQuery\<close> of \<^verbatim>\<open>proxy/query.go\<close>, which
  feeds the policy's query matchers.
\<close>

section \<open>Model\<close>

text \<open>\<^verbatim>\<open>url.QueryUnescape\<close>: a plus sign is a space, the rest is as in \<^verbatim>\<open>url.PathUnescape\<close>.\<close>

definition queryUnescape :: "string \<Rightarrow> string option" where
  "queryUnescape s = pathUnescape (map (\<lambda>c. if c = CHR ''+'' then CHR '' '' else c) s)"

definition isUnreserved :: "char \<Rightarrow> bool" where
  "isUnreserved c \<longleftrightarrow> isLowerAlpha c \<or> isUpperAlpha c \<or> isDigit c \<or> c \<in> set ''-_.~''"

definition percentByte :: "char \<Rightarrow> string" where
  "percentByte c = [CHR ''%'', upperHex (drop_bit 4 (byteVal c)), upperHex (byteVal c AND 15)]"

text \<open>\<^verbatim>\<open>url.QueryEscape\<close>.\<close>

definition queryEscapeByte :: "char \<Rightarrow> string" where
  "queryEscapeByte c =
     (if isUnreserved c then [c] else if c = CHR '' '' then ''+'' else percentByte c)"

definition queryEscape :: "string \<Rightarrow> string" where
  "queryEscape s = concat (map queryEscapeByte s)"

text \<open>\<^verbatim>\<open>utf8.ValidString\<close>: the accept ranges of the second byte, by the first.\<close>

definition isCont :: "char \<Rightarrow> bool" where
  "isCont c \<longleftrightarrow> 0x80 \<le> byteVal c \<and> byteVal c \<le> 0xBF"

definition secondRange :: "nat \<Rightarrow> nat \<times> nat" where
  "secondRange b0 =
     (if b0 = 0xE0 then (0xA0, 0xBF) else if b0 = 0xED then (0x80, 0x9F)
      else if b0 = 0xF0 then (0x90, 0xBF) else if b0 = 0xF4 then (0x80, 0x8F) else (0x80, 0xBF))"

definition contCount :: "nat \<Rightarrow> nat option" where
  "contCount b0 =
     (if b0 < 0x80 then Some 0
      else if 0xC2 \<le> b0 \<and> b0 \<le> 0xDF then Some 1
      else if 0xE0 \<le> b0 \<and> b0 \<le> 0xEF then Some 2
      else if 0xF0 \<le> b0 \<and> b0 \<le> 0xF4 then Some 3
      else None)"

function validUTF8 :: "string \<Rightarrow> bool" where
  "validUTF8 [] = True"
| "validUTF8 (c # cs) =
     (case contCount (byteVal c) of
        None \<Rightarrow> False
      | Some n \<Rightarrow>
          n \<le> length cs \<and> list_all isCont (take n cs) \<and>
          (n > 0 \<longrightarrow> fst (secondRange (byteVal c)) \<le> byteVal (hd cs) \<and> byteVal (hd cs) \<le> snd (secondRange (byteVal c))) \<and>
          validUTF8 (drop n cs))"
  by pat_completeness auto
termination
  by (relation "measure length") (auto simp: less_Suc_eq_le)

datatype query_error = QueryBadEscape | QueryNotUTF8

type_synonym query_map = "string \<rightharpoonup> string list"

definition addValue :: "query_map \<Rightarrow> string \<Rightarrow> string \<Rightarrow> query_map" where
  "addValue values k v = values(k \<mapsto> (case values k of None \<Rightarrow> [] | Some vs \<Rightarrow> vs) @ [v])"

definition decodePair :: "string \<Rightarrow> query_error + (string \<times> string)" where
  "decodePair pair =
     (case cutByte pair (CHR ''='') of
        (key, value, _) \<Rightarrow>
          (case queryUnescape key of
             None \<Rightarrow> Inl QueryBadEscape
           | Some k \<Rightarrow>
               (case queryUnescape value of
                  None \<Rightarrow> Inl QueryBadEscape
                | Some v \<Rightarrow> if \<not> validUTF8 k \<or> \<not> validUTF8 v then Inl QueryNotUTF8 else Inr (k, v))))"

fun addPairs :: "query_map \<Rightarrow> string list \<Rightarrow> query_error + query_map" where
  "addPairs values [] = Inr values"
| "addPairs values (pair # pairs) =
     (if pair = [] then addPairs values pairs
      else bindR (decodePair pair) (\<lambda>(k, v). addPairs (addValue values k v) pairs))"

definition parsePolicyQuery :: "string \<Rightarrow> query_error + query_map" where
  "parsePolicyQuery raw = addPairs Map.empty (splitByte (CHR ''&'') raw)"

section \<open>Escaping round trip\<close>

lemma unreserved_plain: "isUnreserved c \<Longrightarrow> c \<noteq> CHR ''%'' \<and> c \<noteq> CHR ''+'' \<and> c \<noteq> CHR ''&'' \<and> c \<noteq> CHR ''=''"
  by (auto simp: isUnreserved_def isLowerAlpha_def isUpperAlpha_def isDigit_def)

lemma upperHex_plain: "n < 16 \<Longrightarrow> upperHex n \<noteq> CHR ''%'' \<and> upperHex n \<noteq> CHR ''+'' \<and> upperHex n \<noteq> CHR ''&'' \<and> upperHex n \<noteq> CHR ''=''"
  using fromHex_upperHex [of n] by (auto simp: fromHex_def isDigit_def)

lemma nibble_bounds: "drop_bit 4 (byteVal c) < 16" "byteVal c AND 15 < 16"
proof -
  show "drop_bit 4 (byteVal c) < 16" using less_mult_imp_div_less [of "byteVal c" 16 16] byteVal_less_256 [of c]
    by (simp add: drop_bit_eq_div)
  have "byteVal c AND 15 = byteVal c mod 16" using take_bit_eq_mask [of 4 "byteVal c"]
    by (simp add: mask_eq_exp_minus_1 take_bit_eq_mod)
  then show "byteVal c AND 15 < 16" by simp
qed

lemma queryUnescape_escapeByte:
  "queryUnescape (queryEscapeByte c @ s) = map_option (Cons c) (queryUnescape s)"
proof -
  note hex = upperHex_plain [OF nibble_bounds(1) [of c]] upperHex_plain [OF nibble_bounds(2) [of c]]
  show ?thesis
    using hex nibble_bounds [of c] unreserved_plain [of c]
    by (auto simp: queryUnescape_def queryEscapeByte_def percentByte_def nibbles_join)
qed

lemma queryUnescape_escape [simp]: "queryUnescape (queryEscape s) = Some s"
proof (induction s)
  case (Cons c s)
  then show ?case using queryUnescape_escapeByte [of c "queryEscape s"] by (simp add: queryEscape_def)
qed (simp add: queryEscape_def queryUnescape_def)

lemma queryEscape_plain: "c \<in> set (queryEscape s) \<Longrightarrow> c \<noteq> CHR ''&'' \<and> c \<noteq> CHR ''=''"
proof -
  have "c \<in> set (queryEscapeByte b) \<Longrightarrow> c \<noteq> CHR ''&'' \<and> c \<noteq> CHR ''=''" for b
    using unreserved_plain [of b] upperHex_plain [OF nibble_bounds(1) [of b]] upperHex_plain [OF nibble_bounds(2) [of b]]
    by (auto simp: queryEscapeByte_def percentByte_def split: if_splits)
  then show "c \<in> set (queryEscape s) \<Longrightarrow> ?thesis" by (auto simp: queryEscape_def)
qed

lemma queryEscape_no_separator [simp]:
  "CHR ''='' \<notin> set (queryEscape s)" "CHR ''&'' \<notin> set (queryEscape s)"
  using queryEscape_plain by blast+

section \<open>Grouping of the values by key\<close>

definition grouped :: "(string \<times> string) list \<Rightarrow> query_map" where
  "grouped kvs k = (let vs = map snd (filter (\<lambda>p. fst p = k) kvs) in if vs = [] then None else Some vs)"

lemma grouped_snoc: "grouped (kvs @ [(k, v)]) = addValue (grouped kvs) k v"
  by (rule ext) (auto simp: grouped_def addValue_def Let_def)

lemma grouped_Nil [simp]: "grouped [] = Map.empty"
  by (rule ext) (simp add: grouped_def)

lemma addPairs_grouped:
  "addPairs (grouped kvs) pairs = mapR (\<lambda>more. grouped (kvs @ more)) (traverseR decodePair (filter (\<lambda>p. p \<noteq> []) pairs))"
proof (induction pairs arbitrary: kvs)
  case (Cons pair pairs)
  show ?case
  proof (cases "pair = []")
    case False
    show ?thesis
    proof (cases "decodePair pair")
      case (Inr kv)
      obtain k v where "kv = (k, v)" by fastforce
      then show ?thesis using False Inr Cons.IH [of "kvs @ [(k, v)]"]
        by (cases "traverseR decodePair (filter (\<lambda>p. p \<noteq> []) pairs)") (simp_all add: grouped_snoc)
    qed (use False in simp)
  qed (use Cons.IH [of kvs] in simp)
qed simp

definition encodePair :: "string \<times> string \<Rightarrow> string" where
  "encodePair kv = queryEscape (fst kv) @ ''='' @ queryEscape (snd kv)"

lemma cutByte_append: "t \<notin> set a \<Longrightarrow> cutByte (a @ t # b) t = (a, b, True)"
  by (induction a) auto

lemma decodePair_encodePair:
  "validUTF8 (fst kv) \<Longrightarrow> validUTF8 (snd kv) \<Longrightarrow> decodePair (encodePair kv) = Inr kv"
  by (cases kv) (auto simp: decodePair_def encodePair_def cutByte_append)

text \<open>
  C16: every escaped list of UTF-8 pairs is read back: the policy sees, for each key, its values
  in the order of the request, repetitions and empty values included, and no other key.\<close>

theorem parsePolicyQuery_roundtrip:
  assumes "list_all (\<lambda>kv. validUTF8 (fst kv) \<and> validUTF8 (snd kv)) kvs"
  shows "parsePolicyQuery (join (map encodePair kvs) ''&'') = Inr (grouped kvs)"
proof (cases "kvs = []")
  case False
  have "splitByte (CHR ''&'') (join (map encodePair kvs) ''&'') = map encodePair kvs"
    using False by (intro splitByte_join) (auto simp: encodePair_def)
  moreover have "filter (\<lambda>p. p \<noteq> []) (map encodePair kvs) = map encodePair kvs"
    by (auto simp: filter_id_conv encodePair_def)
  moreover have "traverseR decodePair (map encodePair kvs) = Inr kvs"
    using assms by (induction kvs) (auto simp: decodePair_encodePair)
  ultimately show ?thesis using addPairs_grouped [of "[]"] by (simp add: parsePolicyQuery_def)
qed (simp add: parsePolicyQuery_def)

theorem parsePolicyQuery_roundtrip_witness:
  "parsePolicyQuery (join (map encodePair [(''x'', ''a b''), (''x'', ''&''), ([], [])]) ''&'') =
     Inr (grouped [(''x'', ''a b''), (''x'', ''&''), ([], [])])"
proof -
  have "list_all (\<lambda>kv. validUTF8 (fst kv) \<and> validUTF8 (snd kv)) [(''x'', ''a b''), (''x'', ''&''), ([], [])]"
    by code_simp
  then show ?thesis by (rule parsePolicyQuery_roundtrip)
qed

end
