(* ===== verification/Go_Http.thy ===== *)
theory Go_Http
  imports L7_Query
begin

text \<open>
  The parts of \<^verbatim>\<open>net/http\<close>, \<^verbatim>\<open>net/url\<close> and \<^verbatim>\<open>encoding/base64\<close> that the request rewriting works on: header
  maps with canonical keys, the escaped path of a URL, and the standard base64 alphabet.
\<close>

section \<open>Base64\<close>

text \<open>The alphabet: A to Z, a to z, 0 to 9, plus, slash.\<close>

definition b64Char :: "nat \<Rightarrow> char" where
  "b64Char n =
     (if n < 26 then char_of (65 + n) else if n < 52 then char_of (97 + (n - 26))
      else if n < 62 then char_of (48 + (n - 52)) else if n = 62 then CHR ''+'' else CHR ''/'')"

fun base64Encode :: "string \<Rightarrow> string" where
  "base64Encode [] = []"
| "base64Encode [a] = [b64Char (byteVal a div 4), b64Char ((byteVal a mod 4) * 16), CHR ''='', CHR ''='']"
| "base64Encode [a, b] =
     [b64Char (byteVal a div 4), b64Char ((byteVal a mod 4) * 16 + byteVal b div 16),
      b64Char ((byteVal b mod 16) * 4), CHR ''='']"
| "base64Encode (a # b # c # rest) =
     b64Char (byteVal a div 4) # b64Char ((byteVal a mod 4) * 16 + byteVal b div 16) #
     b64Char ((byteVal b mod 16) * 4 + byteVal c div 64) # b64Char (byteVal c mod 64) # base64Encode rest"

text \<open>\<^verbatim>\<open>DecodeString\<close>: line breaks are skipped, padding is required and final.\<close>

definition b64Val :: "char \<Rightarrow> nat option" where
  "b64Val c =
     (if isUpperAlpha c then Some (byteVal c - 65)
      else if isLowerAlpha c then Some (byteVal c - 97 + 26)
      else if isDigit c then Some (byteVal c - 48 + 52)
      else if c = CHR ''+'' then Some 62
      else if c = CHR ''/'' then Some 63
      else None)"

fun decodeQuads :: "string \<Rightarrow> string option" where
  "decodeQuads [] = Some []"
| "decodeQuads (a # b # c # d # rest) =
     (case (b64Val a, b64Val b) of
        (Some x, Some y) \<Rightarrow>
          (if c = CHR ''='' then
             (if d = CHR ''='' \<and> rest = [] then Some [char_of (x * 4 + y div 16)] else None)
           else (case b64Val c of
             None \<Rightarrow> None
           | Some z \<Rightarrow>
               if d = CHR ''='' then
                 (if rest = [] then Some [char_of (x * 4 + y div 16), char_of ((y mod 16) * 16 + z div 4)] else None)
               else (case b64Val d of
                 None \<Rightarrow> None
               | Some u \<Rightarrow>
                   map_option (\<lambda>r. char_of (x * 4 + y div 16) # char_of ((y mod 16) * 16 + z div 4)
                                    # char_of ((z mod 4) * 64 + u) # r) (decodeQuads rest))))
      | _ \<Rightarrow> None)"
| "decodeQuads _ = None"

definition base64Decode :: "string \<Rightarrow> string option" where
  "base64Decode s = decodeQuads (filter (\<lambda>c. c \<noteq> CHR 0x0D \<and> c \<noteq> CHR 0x0A) s)"

lemma b64Val_b64Char [simp]: "n < 64 \<Longrightarrow> b64Val (b64Char n) = Some n"
  by (auto simp: b64Val_def b64Char_def isUpperAlpha_def isLowerAlpha_def isDigit_def)

lemma b64Char_plain:
  assumes "n < 64"
  shows "b64Char n \<noteq> CHR ''=''" "b64Char n \<noteq> CHR 0x0D" "b64Char n \<noteq> CHR 0x0A"
  using b64Val_b64Char [OF assms]
  by (auto simp: b64Val_def isUpperAlpha_def isLowerAlpha_def isDigit_def)

lemma b64_bounds:
  "byteVal a div 4 < 64" "(byteVal a mod 4) * 16 + byteVal b div 16 < 64" "(byteVal a mod 4) * 16 < 64"
  "(byteVal b mod 16) * 4 + byteVal c div 64 < 64" "(byteVal b mod 16) * 4 < 64" "byteVal c mod 64 < 64"
proof -
  have "byteVal a < 256" "byteVal b < 256" "byteVal c < 256" by simp_all
  then have "byteVal b div 16 < 16" "byteVal c div 64 < 4" "byteVal a div 4 < 64"
    by (simp_all add: less_mult_imp_div_less)
  moreover have "byteVal a mod 4 < 4" "byteVal b mod 16 < 16" by simp_all
  ultimately show "byteVal a div 4 < 64" "(byteVal a mod 4) * 16 + byteVal b div 16 < 64" "(byteVal a mod 4) * 16 < 64"
    "(byteVal b mod 16) * 4 + byteVal c div 64 < 64" "(byteVal b mod 16) * 4 < 64" "byteVal c mod 64 < 64"
    by (auto intro: order.strict_trans2)
qed

lemma b64_filter:
  "n < 64 \<Longrightarrow> filter (\<lambda>c. c \<noteq> CHR 0x0D \<and> c \<noteq> CHR 0x0A) (b64Char n # cs) =
     b64Char n # filter (\<lambda>c. c \<noteq> CHR 0x0D \<and> c \<noteq> CHR 0x0A) cs"
  by (simp add: b64Char_plain)

lemma b64_small:
  "byteVal b div 16 div 16 = 0" "byteVal b div 16 mod 16 = byteVal b div 16"
  "byteVal b div 64 div 4 = 0" "byteVal b div 64 mod 4 = byteVal b div 64"
proof -
  have "byteVal b < 256" by simp
  then have "byteVal b div 16 < 16" "byteVal b div 64 < 4" by (simp_all add: less_mult_imp_div_less)
  then show "byteVal b div 16 div 16 = 0" "byteVal b div 16 mod 16 = byteVal b div 16"
    "byteVal b div 64 div 4 = 0" "byteVal b div 64 mod 4 = byteVal b div 64" by simp_all
qed

lemma base64_roundtrip [simp]: "base64Decode (base64Encode s) = Some s"
  unfolding base64Decode_def
proof (induction s rule: base64Encode.induct)
  case (2 a)
  then show ?case
    by (simp add: b64_filter b64Char_plain b64_small b64_bounds)
next
  case (3 a b)
  then show ?case
    by (simp add: b64_filter b64Char_plain b64_small b64_bounds)
next
  case (4 a b c rest)
  then show ?case
    by (simp add: b64_filter b64Char_plain b64_small b64_bounds)
qed simp

section \<open>URLs\<close>

record http_url =
  Path :: string
  RawPath :: string
  RawQuery :: string

text \<open>\<^verbatim>\<open>shouldEscape\<close> and \<^verbatim>\<open>escape\<close> of \<^verbatim>\<open>net/url\<close> in the mode of paths.\<close>

definition pathShouldEscape :: "char \<Rightarrow> bool" where
  "pathShouldEscape c \<longleftrightarrow> \<not> isUnreserved c \<and> c \<notin> set ''$&+,/:;=@''"

definition pathEscape :: "string \<Rightarrow> string" where
  "pathEscape s = concat (map (\<lambda>c. if pathShouldEscape c then percentByte c else [c]) s)"

definition validEncodedPath :: "string \<Rightarrow> bool" where
  "validEncodedPath s =
     list_all (\<lambda>c. c \<in> set (CHR 0x27 # ''!$&()*+,;=:@[]%'') \<or> \<not> pathShouldEscape c) s"

definition escapedPath :: "http_url \<Rightarrow> string" where
  "escapedPath u =
     (if RawPath u \<noteq> [] \<and> validEncodedPath (RawPath u) \<and> pathUnescape (RawPath u) = Some (Path u) then RawPath u
      else if Path u = ''*'' then ''*''
      else pathEscape (Path u))"

section \<open>Headers\<close>

text \<open>
  \<^verbatim>\<open>http.Header\<close>: an association list from canonical keys to values, in the order in which a
  \<^verbatim>\<open>range\<close> loop meets the keys.
\<close>

type_synonym http_header = "(string \<times> string list) list"

definition validHeaderFieldByte :: "char \<Rightarrow> bool" where
  "validHeaderFieldByte c \<longleftrightarrow>
     isLowerAlpha c \<or> isUpperAlpha c \<or> isDigit c \<or> c \<in> set (CHR 0x27 # CHR 0x60 # ''!#$%&*+-.^_|~'')"

fun canonicalKeyFrom :: "bool \<Rightarrow> string \<Rightarrow> string" where
  "canonicalKeyFrom up [] = []"
| "canonicalKeyFrom up (c # cs) =
     (let d = (if up then upperByte c else lowerByte c) in d # canonicalKeyFrom (d = CHR ''-'') cs)"

definition canonicalHeaderKey :: "string \<Rightarrow> string" where
  "canonicalHeaderKey s = (if list_all validHeaderFieldByte s then canonicalKeyFrom True s else s)"

definition hdrValues :: "http_header \<Rightarrow> string \<Rightarrow> string list" where
  "hdrValues h k = (case map_of h (canonicalHeaderKey k) of None \<Rightarrow> [] | Some vs \<Rightarrow> vs)"

definition hdrGet :: "http_header \<Rightarrow> string \<Rightarrow> string" where
  "hdrGet h k = (case hdrValues h k of [] \<Rightarrow> [] | v # _ \<Rightarrow> v)"

definition hdrDel :: "http_header \<Rightarrow> string \<Rightarrow> http_header" where
  "hdrDel h k = filter (\<lambda>kv. fst kv \<noteq> canonicalHeaderKey k) h"

fun hdrPut :: "string \<Rightarrow> string list \<Rightarrow> http_header \<Rightarrow> http_header" where
  "hdrPut k vs [] = [(k, vs)]"
| "hdrPut k vs ((k', vs') # h) = (if k' = k then (k, vs) # h else (k', vs') # hdrPut k vs h)"

definition hdrSet :: "http_header \<Rightarrow> string \<Rightarrow> string \<Rightarrow> http_header" where
  "hdrSet h k v = hdrPut (canonicalHeaderKey k) [v] h"

definition hdrAdd :: "http_header \<Rightarrow> string \<Rightarrow> string \<Rightarrow> http_header" where
  "hdrAdd h k v = hdrPut (canonicalHeaderKey k) (hdrValues h k @ [v]) h"

lemma map_of_hdrPut: "map_of (hdrPut k vs h) = (map_of h)(k \<mapsto> vs)"
  by (induction k vs h rule: hdrPut.induct) (auto intro!: ext)

lemma map_of_hdrDel: "map_of (hdrDel h k) = (map_of h)(canonicalHeaderKey k := None)"
  by (induction h) (auto simp: hdrDel_def intro!: ext)

lemma hdrPut_keys: "fst ` set (hdrPut k vs h) = insert k (fst ` set h)"
  by (induction k vs h rule: hdrPut.induct) auto

lemma hdrPut_distinct: "distinct (map fst h) \<Longrightarrow> distinct (map fst (hdrPut k vs h))"
  by (induction k vs h rule: hdrPut.induct) (use hdrPut_keys in \<open>auto simp: image_iff\<close>)

lemma hdrDel_distinct: "distinct (map fst h) \<Longrightarrow> distinct (map fst (hdrDel h k))"
  by (simp add: hdrDel_def distinct_map_filter)

lemma hdrValues_hdrSet:
  "hdrValues (hdrSet h k v) k' = (if canonicalHeaderKey k' = canonicalHeaderKey k then [v] else hdrValues h k')"
  by (simp add: hdrValues_def hdrSet_def map_of_hdrPut)

lemma hdrValues_hdrDel:
  "hdrValues (hdrDel h k) k' = (if canonicalHeaderKey k' = canonicalHeaderKey k then [] else hdrValues h k')"
  by (simp add: hdrValues_def map_of_hdrDel)

lemma hdrValues_hdrAdd:
  "hdrValues (hdrAdd h k v) k' =
     (if canonicalHeaderKey k' = canonicalHeaderKey k then hdrValues h k @ [v] else hdrValues h k')"
  by (simp add: hdrValues_def hdrAdd_def map_of_hdrPut)

section \<open>Header keys and case\<close>

lemma mapRunes_plain:
  "list_all (\<lambda>c. c \<notin> (\<lambda>e. hd (fst e)) ` set tab) s \<Longrightarrow> [] \<notin> fst ` set tab \<Longrightarrow> mapRunes tab f s = map f s"
proof (induction s)
  case (Cons c cs)
  have "find (\<lambda>(e, d). hasPrefix (c # cs) e) tab = None"
    unfolding find_None_iff
  proof
    assume "\<exists>x. x \<in> set tab \<and> (case x of (e, d) \<Rightarrow> hasPrefix (c # cs) e)"
    then obtain e d where e: "(e, d) \<in> set tab" "hasPrefix (c # cs) e" by auto
    then have "e \<noteq> []" using Cons.prems(2) by force
    then have "hd e = c" using e(2) by (cases e) auto
    then show False using Cons.prems(1) e(1) by force
  qed
  then show ?case using Cons by simp
qed simp

lemma validHeaderFieldByte_ascii: "validHeaderFieldByte c \<Longrightarrow> byteVal c < 128"
  by (auto simp: validHeaderFieldByte_def isLowerAlpha_def isUpperAlpha_def isDigit_def)

lemma toLower_valid:
  assumes "list_all validHeaderFieldByte s"
  shows "toLower s = map lowerByte s"
  unfolding toLower_def
proof (rule mapRunes_plain)
  show "list_all (\<lambda>c. c \<notin> (\<lambda>e. hd (fst e)) ` set [([CHR 0xE2, CHR 0x84, CHR 0xAA], CHR ''k''), ([CHR 0xC4, CHR 0xB0], CHR ''i'')]) s"
    using assms by (auto simp: list_all_iff dest!: bspec validHeaderFieldByte_ascii)
qed simp

lemma leadingSpace_none:
  assumes "list_all (\<lambda>e. e \<noteq> [] \<and> \<not> validHeaderFieldByte (hd e)) encs" "list_all validHeaderFieldByte s"
  shows "leadingSpace encs s = 0"
proof -
  have "find (\<lambda>e. hasPrefix s e) encs = None"
    unfolding find_None_iff
  proof
    assume "\<exists>e. e \<in> set encs \<and> hasPrefix s e"
    then obtain e where e: "e \<in> set encs" "hasPrefix s e" by blast
    then have "e \<noteq> []" "\<not> validHeaderFieldByte (hd e)" using assms(1) by (auto simp: list_all_iff)
    then show False using e(2) assms(2) by (cases e; cases s) auto
  qed
  then show ?thesis by (simp add: leadingSpace_def)
qed

lemma trimSpace_valid:
  assumes "list_all validHeaderFieldByte s"
  shows "trimSpace s = s"
proof -
  have "list_all (\<lambda>e. e \<noteq> [] \<and> \<not> validHeaderFieldByte (hd e)) spaceEncodings"
    "list_all (\<lambda>e. e \<noteq> [] \<and> \<not> validHeaderFieldByte (hd e)) (map rev spaceEncodings)" by code_simp+
  then show ?thesis
    using assms by (simp add: trimSpace_def trimLeading.simps [of _ s] trimLeading.simps [of _ "rev s"] leadingSpace_none)
qed

lemma lowerByte_case: "lowerByte (upperByte c) = lowerByte c"
  "lowerByte (lowerByte c) = lowerByte c"
  by (auto simp: lowerByte_def upperByte_def isLowerAlpha_def isUpperAlpha_def)

lemma map_lowerByte_canonicalKeyFrom: "map lowerByte (canonicalKeyFrom up s) = map lowerByte s"
  by (induction s arbitrary: up) (simp_all add: Let_def lowerByte_case)

lemma canonicalHeaderKey_valid:
  "list_all validHeaderFieldByte (canonicalHeaderKey s) \<longleftrightarrow> list_all validHeaderFieldByte s"
proof -
  have byte: "validHeaderFieldByte (upperByte c)" "validHeaderFieldByte (lowerByte c)" if "validHeaderFieldByte c" for c
    using that by (auto simp: validHeaderFieldByte_def upperByte_def lowerByte_def isLowerAlpha_def isUpperAlpha_def)
  have "list_all validHeaderFieldByte s \<Longrightarrow> list_all validHeaderFieldByte (canonicalKeyFrom up s)" for up
    by (induction s arbitrary: up) (simp_all add: Let_def byte)
  then show ?thesis by (simp add: canonicalHeaderKey_def)
qed

text \<open>Two spellings of one header are equal, or valid names with the same lower case.\<close>

lemma canonicalHeaderKey_same:
  assumes "canonicalHeaderKey k = canonicalHeaderKey n"
  shows "k = n \<or> list_all validHeaderFieldByte k \<and> list_all validHeaderFieldByte n \<and> toLower k = toLower n"
proof (cases "list_all validHeaderFieldByte k")
  case True
  then have n: "list_all validHeaderFieldByte n" using assms canonicalHeaderKey_valid by metis
  then have "canonicalKeyFrom True k = canonicalKeyFrom True n" using assms True by (simp add: canonicalHeaderKey_def)
  then have "map lowerByte k = map lowerByte n" using map_lowerByte_canonicalKeyFrom by metis
  then show ?thesis by (simp add: toLower_valid True n)
next
  case False
  then have "\<not> list_all validHeaderFieldByte n" using assms canonicalHeaderKey_valid by metis
  then show ?thesis using False assms by (simp add: canonicalHeaderKey_def)
qed

lemma canonicalHeaderKey_toLower:
  "canonicalHeaderKey k = canonicalHeaderKey n \<Longrightarrow> toLower k = toLower n"
  using canonicalHeaderKey_same by blast

end
