(* ===== verification/Ssrf.thy ===== *)
theory Ssrf
  imports No_Proxy Go_Http
begin

text \<open>
  The destination filter of \<^verbatim>\<open>proxy/ssrf.go\<close>: which addresses of a host may be dialled, the choice
  between a direct connection and the corporate proxy, and the sequence of dials. Name
  resolution, the URL parser of the proxy variables and the dials themselves are arguments.
\<close>

section \<open>Model\<close>

definition mustCIDR :: "string \<Rightarrow> ip_prefix" where
  "mustCIDR s = the (parsePrefix s)"

definition cidrLoopback4 :: ip_prefix where "cidrLoopback4 = mustCIDR ''127.0.0.0/8''"
definition cidrLoopback6 :: ip_prefix where "cidrLoopback6 = mustCIDR ''::1/128''"
definition cidrLinkLocal4 :: ip_prefix where "cidrLinkLocal4 = mustCIDR ''169.254.0.0/16''"
definition cidrLinkLocal6 :: ip_prefix where "cidrLinkLocal6 = mustCIDR ''fe80::/10''"
definition cidrUnspecified :: ip_prefix where "cidrUnspecified = mustCIDR ''0.0.0.0/8''"
definition cidrCGNAT :: ip_prefix where "cidrCGNAT = mustCIDR ''100.64.0.0/10''"
definition cidrIETF1 :: ip_prefix where "cidrIETF1 = mustCIDR ''192.0.0.0/24''"
definition cidrBench :: ip_prefix where "cidrBench = mustCIDR ''198.18.0.0/15''"
definition cidrMulticast4 :: ip_prefix where "cidrMulticast4 = mustCIDR ''224.0.0.0/4''"
definition cidrUnspec6 :: ip_prefix where "cidrUnspec6 = mustCIDR ''::/128''"
definition cidrMapped4 :: ip_prefix where "cidrMapped4 = mustCIDR ''::ffff:0:0/96''"
definition cidrMulticast6 :: ip_prefix where "cidrMulticast6 = mustCIDR ''ff00::/8''"
definition cidrPrivate10 :: ip_prefix where "cidrPrivate10 = mustCIDR ''10.0.0.0/8''"
definition cidrPrivate172 :: ip_prefix where "cidrPrivate172 = mustCIDR ''172.16.0.0/12''"
definition cidrPrivate192 :: ip_prefix where "cidrPrivate192 = mustCIDR ''192.168.0.0/16''"
definition cidrULA :: ip_prefix where "cidrULA = mustCIDR ''fc00::/7''"

datatype ssrf_error =
    SsrfResolve string
  | SsrfNoAddresses string
  | SsrfInvalidAllowed string
  | SsrfBlockedAll string
  | SsrfHostnameConnect
  | SsrfDial string
  | SsrfProxy string

record ssrf_options =
  AllowedIPs :: "string list"
  allowLoopback :: bool
  LookupIPAddr :: "(string \<Rightarrow> string + string list) option"

definition lookupIP :: "(string \<Rightarrow> string + string list) \<Rightarrow> string \<Rightarrow> ssrf_options \<Rightarrow> string + string list" where
  "lookupIP defaultResolver host opts =
     (case LookupIPAddr opts of Some f \<Rightarrow> f host | None \<Rightarrow> defaultResolver host)"

definition alwaysBlocked :: "ip_addr \<Rightarrow> bool" where
  "alwaysBlocked addr0 =
     (let addr = unmap addr0 in
      prefixContains cidrLoopback4 addr \<or> prefixContains cidrLoopback6 addr \<or>
      prefixContains cidrLinkLocal4 addr \<or> prefixContains cidrLinkLocal6 addr \<or>
      prefixContains cidrUnspecified addr \<or> prefixContains cidrCGNAT addr \<or>
      prefixContains cidrIETF1 addr \<or> prefixContains cidrBench addr \<or>
      prefixContains cidrMulticast4 addr \<or> prefixContains cidrUnspec6 addr \<or>
      prefixContains cidrMapped4 addr \<or> prefixContains cidrMulticast6 addr)"

definition isLoopback :: "ip_addr \<Rightarrow> bool" where
  "isLoopback addr0 =
     (let addr = unmap addr0 in prefixContains cidrLoopback4 addr \<or> prefixContains cidrLoopback6 addr)"

definition isPrivate :: "ip_addr \<Rightarrow> bool" where
  "isPrivate addr0 =
     (let addr = unmap addr0 in
      prefixContains cidrPrivate10 addr \<or> prefixContains cidrPrivate172 addr \<or>
      prefixContains cidrPrivate192 addr \<or> prefixContains cidrULA addr)"

fun ipInAny :: "ip_addr \<Rightarrow> ip_prefix list \<Rightarrow> bool" where
  "ipInAny addr [] = False"
| "ipInAny addr (n # nets) = (if prefixContains n addr then True else ipInAny addr nets)"

fun parseAllowNets :: "string list \<Rightarrow> ssrf_error + ip_prefix list" where
  "parseAllowNets [] = Inr []"
| "parseAllowNets (c # cidrs) =
     (let s = trimSpace c in
      if s = [] then parseAllowNets cidrs
      else (case parsePrefix s of
              Some p \<Rightarrow> mapR (Cons p) (parseAllowNets cidrs)
            | None \<Rightarrow>
                (case parseAddr s of
                   None \<Rightarrow> Inl (SsrfInvalidAllowed s)
                 | Some ip \<Rightarrow> mapR (Cons (prefixFrom ip (bitLen ip))) (parseAllowNets cidrs))))"

definition resolveAddrs :: "(string \<Rightarrow> string + string list) \<Rightarrow> string \<Rightarrow> ssrf_options \<Rightarrow> ssrf_error + ip_addr list" where
  "resolveAddrs defaultResolver host opts =
     (case parseAddr host of
        Some ip \<Rightarrow> Inr [ip]
      | None \<Rightarrow>
          (case lookupIP defaultResolver host opts of
             Inl err \<Rightarrow> Inl (SsrfResolve err)
           | Inr ips \<Rightarrow> Inr (map unmap (List.map_filter addrFromSlice ips))))"

definition keepAddr :: "ssrf_options \<Rightarrow> ip_prefix list \<Rightarrow> ip_addr \<Rightarrow> bool" where
  "keepAddr opts allowNets addr =
     (if isLoopback addr then allowLoopback opts
      else if alwaysBlocked addr then False
      else if allowNets \<noteq> [] then ipInAny addr allowNets
      else \<not> isPrivate addr)"

definition ResolveAndFilter ::
    "(string \<Rightarrow> string + string list) \<Rightarrow> string \<Rightarrow> ssrf_options \<Rightarrow> ssrf_error + ip_addr list" where
  "ResolveAndFilter defaultResolver host opts =
     bindR (resolveAddrs defaultResolver host opts) (\<lambda>addrs.
       if addrs = [] then Inl (SsrfNoAddresses host)
       else bindR (parseAllowNets (AllowedIPs opts)) (\<lambda>allowNets.
         let out = filter (keepAddr opts allowNets) addrs in
         if out = [] then Inl (SsrfBlockedAll host) else Inr out))"

text \<open>The upstream proxy URL: the fields that the dial uses.\<close>

record proxy_url =
  urlHost :: string
  urlScheme :: string
  urlUser :: "(string \<times> string) option"

definition proxyEnvKeys :: "string list" where
  "proxyEnvKeys = [''HTTPS_PROXY'', ''https_proxy'', ''HTTP_PROXY'', ''http_proxy'', ''ALL_PROXY'', ''all_proxy'']"

text \<open>
  \<^verbatim>\<open>parsedPort, _ := strconv.ParseUint(destPort, 10, 16)\<close>: zero on a syntax error, the largest
  16-bit value on a range error.
\<close>

definition parsedPort :: "string \<Rightarrow> int" where
  "parsedPort destPort =
     (if destPort = [] \<or> \<not> list_all isDigit destPort then 0
      else case parseUint destPort 16 of Some n \<Rightarrow> n | None \<Rightarrow> 65535)"

fun scanProxyKeys ::
    "(string \<Rightarrow> string) \<Rightarrow> (string \<Rightarrow> proxy_url option) \<Rightarrow> string \<Rightarrow> string \<Rightarrow> ip_addr list \<Rightarrow> string list
      \<Rightarrow> proxy_url option \<times> ip_addr list" where
  "scanProxyKeys getenv parseURL destHost destPort addrs [] = (None, [])"
| "scanProxyKeys getenv parseURL destHost destPort addrs (key # keys) =
     (let raw = trimSpace (getenv key) in
      if raw = [] then scanProxyKeys getenv parseURL destHost destPort addrs keys
      else (case parseURL raw of
              None \<Rightarrow> scanProxyKeys getenv parseURL destHost destPort addrs keys
            | Some u \<Rightarrow>
                if urlHost u = [] then scanProxyKeys getenv parseURL destHost destPort addrs keys
                else
                  (let direct = (if parsedPort destPort \<noteq> 0
                      then noProxyAddresses destHost (parsedPort destPort)
                             (getenv ''NO_PROXY'' @ '','' @ getenv ''no_proxy'') addrs
                      else []) in
                   if direct \<noteq> [] then (None, direct) else (Some u, []))))"

definition upstreamProxyURL ::
    "(string \<Rightarrow> string) \<Rightarrow> (string \<Rightarrow> proxy_url option) \<Rightarrow> string \<Rightarrow> string \<Rightarrow> ip_addr list
      \<Rightarrow> proxy_url option \<times> ip_addr list" where
  "upstreamProxyURL getenv parseURL destHost destPort addrs =
     scanProxyKeys getenv parseURL destHost destPort addrs proxyEnvKeys"

text \<open>\<^verbatim>\<open>net.JoinHostPort\<close>.\<close>

definition joinHostPort :: "string \<Rightarrow> string \<Rightarrow> string" where
  "joinHostPort host p =
     (if contains host '':'' then CHR ''['' # host @ '']:'' @ p else host @ '':'' @ p)"

text \<open>\<^verbatim>\<open>URL.Hostname\<close> and \<^verbatim>\<open>URL.Port\<close>: the host field split at a trailing numeric port.\<close>

definition validOptionalPort :: "string \<Rightarrow> bool" where
  "validOptionalPort p = (p = [] \<or> (hd p = CHR '':'' \<and> list_all isDigit (tl p)))"

definition urlSplitHostPort :: "string \<Rightarrow> string \<times> string" where
  "urlSplitHostPort hp =
     (let (host, p) =
        (case lastIndexByte hp (CHR '':'') of
           Some colon \<Rightarrow> if validOptionalPort (drop colon hp) then (take colon hp, drop (Suc colon) hp) else (hp, [])
         | None \<Rightarrow> (hp, []))
      in (if hasPrefix host ''['' \<and> hasSuffix host '']'' then take (length host - 2) (tl host) else host, p))"

definition urlHostname :: "proxy_url \<Rightarrow> string" where
  "urlHostname u = fst (urlSplitHostPort (urlHost u))"

definition urlPort :: "proxy_url \<Rightarrow> string" where
  "urlPort u = snd (urlSplitHostPort (urlHost u))"

text \<open>
  What the operating system, the context and the peers answer during one dial. The answers are
  arguments, so that every statement holds for all of them.
\<close>

record dial_world =
  getenv :: "string \<Rightarrow> string"
  readFile :: "string \<Rightarrow> string option"
  parseURL :: "string \<Rightarrow> proxy_url option"
  defaultResolver :: "string \<Rightarrow> string + string list"
  tcpDial :: "string \<Rightarrow> string option"
  setDeadlineOk :: bool
  ctxErr :: "string option"
  appendCertsFromPEM :: "string \<Rightarrow> bool"
  handshakeOk :: "string \<Rightarrow> string option \<Rightarrow> bool"
  writeErr :: "string option"
  readResponse :: "string + int"
  stopCancelOk :: bool
  ctxErrLate :: "string option"
  clearDeadlineOk :: bool
  buffered :: nat

datatype dial_event =
    DialTCP string
  | TLSHandshake string "string option"
  | WriteConnect string "string option"
  | CloseConn

datatype dial_conn = PlainConn string | TLSConn string | BufConn dial_conn

text \<open>Every failure after the dial closes the connection first.\<close>

definition failClosing :: "dial_event list \<Rightarrow> string \<Rightarrow> (ssrf_error + 'a) \<times> dial_event list" where
  "failClosing evs msg = (Inl (SsrfProxy msg), evs @ [CloseConn])"

definition upstreamProxyAddr :: "proxy_url \<Rightarrow> string" where
  "upstreamProxyAddr u =
     (if urlPort u = [] then joinHostPort (urlHostname u) (if urlScheme u = ''https'' then ''443'' else ''80'')
      else urlHost u)"

text \<open>The certificate bundle of an HTTPS proxy; \<^const>\<open>None\<close> inside the result is the system pool.\<close>

definition upstreamProxyRoots :: "dial_world \<Rightarrow> string + string option" where
  "upstreamProxyRoots w =
     (let caPath = trimSpace (getenv w ''CAUTEUM_PROXY_CA_BUNDLE'') in
      if caPath = [] then Inr None
      else (case readFile w caPath of
              None \<Rightarrow> Inl ''read upstream proxy CA bundle''
            | Some body \<Rightarrow> if appendCertsFromPEM w body then Inr (Some body)
                           else Inl ''upstream proxy CA bundle contains no certificates''))"

definition basicToken :: "string \<Rightarrow> string \<Rightarrow> string" where
  "basicToken username pass = ''Basic '' @ base64Encode (username @ '':'' @ pass)"

definition upstreamProxyAuth :: "dial_world \<Rightarrow> proxy_url \<Rightarrow> string + string option" where
  "upstreamProxyAuth w u =
     (case urlUser u of
        Some (username, pass) \<Rightarrow> Inr (Some (basicToken username pass))
      | None \<Rightarrow>
          (let authPath = trimSpace (getenv w ''CAUTEUM_PROXY_AUTH_FILE'') in
           if authPath = [] then Inr None
           else (case readFile w authPath of
                   None \<Rightarrow> Inl ''read upstream proxy auth file''
                 | Some body \<Rightarrow>
                     if int (length body) > 64 * 1024 then Inl ''read upstream proxy auth file''
                     else (case cutByte (trimSpace body) (CHR '':'') of
                             (username, password, ok) \<Rightarrow>
                               if \<not> ok \<or> trimSpace username = []
                               then Inl ''upstream proxy auth file must contain user:pass''
                               else Inr (Some (basicToken username password))))))"

definition finishProxyDial ::
    "dial_world \<Rightarrow> dial_conn \<Rightarrow> dial_event list \<Rightarrow> (ssrf_error + dial_conn) \<times> dial_event list" where
  "finishProxyDial w conn evs =
     (case readResponse w of
        Inl err \<Rightarrow> failClosing evs (''upstream proxy response: '' @ err)
      | Inr status \<Rightarrow>
          if status \<noteq> 200 then failClosing evs ''upstream proxy CONNECT''
          else if \<not> stopCancelOk w then
            failClosing evs (case ctxErrLate w of Some err \<Rightarrow> err | None \<Rightarrow> ''upstream proxy connection canceled'')
          else if \<not> clearDeadlineOk w then failClosing evs ''upstream proxy clear deadline''
          else (Inr (if buffered w > 0 then BufConn conn else conn), evs))"

definition connectThrough ::
    "dial_world \<Rightarrow> proxy_url \<Rightarrow> string \<Rightarrow> dial_conn \<Rightarrow> dial_event list \<Rightarrow> (ssrf_error + dial_conn) \<times> dial_event list" where
  "connectThrough w u target conn evs =
     (case upstreamProxyAuth w u of
        Inl msg \<Rightarrow> failClosing evs msg
      | Inr auth \<Rightarrow>
          (let evs' = evs @ [WriteConnect target auth] in
           case writeErr w of
             Some err \<Rightarrow> failClosing evs' err
           | None \<Rightarrow> finishProxyDial w conn evs'))"

definition dialViaHTTPProxy ::
    "dial_world \<Rightarrow> proxy_url \<Rightarrow> string \<Rightarrow> (ssrf_error + dial_conn) \<times> dial_event list" where
  "dialViaHTTPProxy w u target =
     (let addr = upstreamProxyAddr u; evs = [DialTCP addr] in
      case tcpDial w addr of
        Some err \<Rightarrow> (Inl (SsrfProxy (''upstream proxy dial: '' @ err)), evs)
      | None \<Rightarrow>
          if \<not> setDeadlineOk w then failClosing evs ''upstream proxy deadline''
          else (case ctxErr w of
            Some err \<Rightarrow> failClosing evs err
          | None \<Rightarrow>
              if equalFold (urlScheme u) ''https'' then
                (case upstreamProxyRoots w of
                   Inl msg \<Rightarrow> failClosing evs msg
                 | Inr roots \<Rightarrow>
                     (let evs' = evs @ [TLSHandshake (urlHostname u) roots] in
                      if handshakeOk w (urlHostname u) roots
                      then connectThrough w u target (TLSConn addr) evs'
                      else failClosing evs' ''upstream proxy TLS handshake failed''))
              else connectThrough w u target (PlainConn addr) evs))"

text \<open>\<^verbatim>\<open>DialSSRF\<close> returns the connection or the error, and what it did on the network, in order.\<close>

fun dialDirect ::
    "dial_world \<Rightarrow> string \<Rightarrow> string \<Rightarrow> ip_addr list \<Rightarrow> (ssrf_error + dial_conn) \<times> dial_event list" where
  "dialDirect w p lastErr [] = (Inl (SsrfDial lastErr), [])"
| "dialDirect w p lastErr (addr # addrs) =
     (let target = joinHostPort (addrString addr) p in
      case tcpDial w target of
        None \<Rightarrow> (Inr (PlainConn target), [DialTCP target])
      | Some err \<Rightarrow> (case dialDirect w p err addrs of (r, evs) \<Rightarrow> (r, DialTCP target # evs)))"

definition connectByHostname :: "dial_world \<Rightarrow> bool" where
  "connectByHostname w = equalFold (trimSpace (getenv w ''CAUTEUM_PROXY_CONNECT_BY_HOSTNAME'')) ''true''"

definition DialSSRF ::
    "dial_world \<Rightarrow> string \<Rightarrow> string \<Rightarrow> ssrf_options \<Rightarrow> (ssrf_error + dial_conn) \<times> dial_event list" where
  "DialSSRF w host p opts =
     (case ResolveAndFilter (defaultResolver w) host opts of
        Inl err \<Rightarrow> (Inl err, [])
      | Inr addrs \<Rightarrow>
          (case upstreamProxyURL (getenv w) (parseURL w) host p addrs of
             (Some u, _) \<Rightarrow>
               if connectByHostname w then
                 (if AllowedIPs opts \<noteq> [] then (Inl SsrfHostnameConnect, [])
                  else dialViaHTTPProxy w u (joinHostPort host p))
               else dialViaHTTPProxy w u (joinHostPort (addrString (hd addrs)) p)
           | (None, bypass) \<Rightarrow>
               dialDirect w p ''ssrf: dial failed'' (if bypass \<noteq> [] then bypass else addrs)))"

section \<open>The ranges, as intervals\<close>

text \<open>
  The constants parse, so the package initialiser never panics, and denote these prefixes.
\<close>

lemma cidr4_eqs:
  "cidrLoopback4 = \<lparr>pfxIP = IPv4 0x7f000000, pfxBits = 8\<rparr>"
  "cidrLinkLocal4 = \<lparr>pfxIP = IPv4 0xa9fe0000, pfxBits = 16\<rparr>"
  "cidrUnspecified = \<lparr>pfxIP = IPv4 0, pfxBits = 8\<rparr>"
  "cidrCGNAT = \<lparr>pfxIP = IPv4 0x64400000, pfxBits = 10\<rparr>"
  "cidrIETF1 = \<lparr>pfxIP = IPv4 0xc0000000, pfxBits = 24\<rparr>"
  "cidrBench = \<lparr>pfxIP = IPv4 0xc6120000, pfxBits = 15\<rparr>"
  "cidrMulticast4 = \<lparr>pfxIP = IPv4 0xe0000000, pfxBits = 4\<rparr>"
  "cidrPrivate10 = \<lparr>pfxIP = IPv4 0x0a000000, pfxBits = 8\<rparr>"
  "cidrPrivate172 = \<lparr>pfxIP = IPv4 0xac100000, pfxBits = 12\<rparr>"
  "cidrPrivate192 = \<lparr>pfxIP = IPv4 0xc0a80000, pfxBits = 16\<rparr>"
  by code_simp+

lemma cidr6_eqs:
  "cidrLoopback6 = \<lparr>pfxIP = IPv6 1 [], pfxBits = 128\<rparr>"
  "cidrLinkLocal6 = \<lparr>pfxIP = IPv6 0xfe800000000000000000000000000000 [], pfxBits = 10\<rparr>"
  "cidrUnspec6 = \<lparr>pfxIP = IPv6 0 [], pfxBits = 128\<rparr>"
  "cidrMapped4 = \<lparr>pfxIP = IPv6 0xffff00000000 [], pfxBits = 96\<rparr>"
  "cidrMulticast6 = \<lparr>pfxIP = IPv6 0xff000000000000000000000000000000 [], pfxBits = 8\<rparr>"
  "cidrULA = \<lparr>pfxIP = IPv6 0xfc000000000000000000000000000000 [], pfxBits = 7\<rparr>"
  by code_simp+

lemma div_eq_interval:
  fixes x d q :: int
  assumes "0 < d"
  shows "x div d = q \<longleftrightarrow> q * d \<le> x \<and> x < (q + 1) * d"
proof
  assume "x div d = q"
  then have "x = q * d + x mod d" using div_mult_mod_eq [of x d] by simp
  then show "q * d \<le> x \<and> x < (q + 1) * d"
    using pos_mod_sign [OF assms, of x] pos_mod_bound [OF assms, of x]
    unfolding distrib_right mult_1 by linarith
next
  assume "q * d \<le> x \<and> x < (q + 1) * d"
  then show "x div d = q"
    using int_div_pos_eq [of x d q "x - q * d"] by (simp add: algebra_simps)
qed

definition within :: "int \<Rightarrow> (int \<times> int) list \<Rightarrow> bool" where
  "within x ivs = list_ex (\<lambda>(lo, hi). lo \<le> x \<and> x < hi) ivs"

definition loopback4 :: "(int \<times> int) list" where
  "loopback4 = [(0x7f000000, 0x80000000)]"

definition reserved4 :: "(int \<times> int) list" where
  "reserved4 = [(0, 0x01000000), (0x64400000, 0x64800000), (0xa9fe0000, 0xa9ff0000),
     (0xc0000000, 0xc0000100), (0xc6120000, 0xc6140000), (0xe0000000, 0xf0000000)]"

definition private4 :: "(int \<times> int) list" where
  "private4 = [(0x0a000000, 0x0b000000), (0xac100000, 0xac200000), (0xc0a80000, 0xc0a90000)]"

definition loopback6 :: "(int \<times> int) list" where
  "loopback6 = [(1, 2)]"

definition reserved6 :: "(int \<times> int) list" where
  "reserved6 = [(0, 1), (0xfe800000000000000000000000000000, 0xfec00000000000000000000000000000),
     (0xff000000000000000000000000000000, 0x100000000000000000000000000000000)]"

definition private6 :: "(int \<times> int) list" where
  "private6 = [(0xfc000000000000000000000000000000, 0xfe000000000000000000000000000000)]"

fun addrWithin :: "(int \<times> int) list \<Rightarrow> (int \<times> int) list \<Rightarrow> ip_addr \<Rightarrow> bool" where
  "addrWithin ivs4 ivs6 (IPv4 a) = within (uint a) ivs4"
| "addrWithin ivs4 ivs6 (IPv6 a z) = within (uint a) ivs6"

lemmas range_defs = within_def loopback4_def reserved4_def private4_def loopback6_def reserved6_def private6_def

lemma isLoopback_iff: "\<not> hasZone (unmap a) \<Longrightarrow> isLoopback a = addrWithin loopback4 loopback6 (unmap a)"
  by (cases "unmap a")
    (simp_all add: isLoopback_def Let_def cidr4_eqs cidr6_eqs prefixContains_v4 prefixContains_v6
      div_eq_interval range_defs, arith)

lemma isPrivate_iff: "\<not> hasZone (unmap a) \<Longrightarrow> isPrivate a = addrWithin private4 private6 (unmap a)"
  by (cases "unmap a")
    (simp_all add: isPrivate_def Let_def cidr4_eqs cidr6_eqs prefixContains_v4 prefixContains_v6
      div_eq_interval range_defs)

lemma uint_less_one: "uint n < 1 \<longleftrightarrow> uint n = 0" for n :: "'a::len word"
  using uint_ge_0 [of n] by linarith

lemma mapped_unmapped: "\<not> prefixContains cidrMapped4 (unmap a)"
proof (cases a)
  case (IPv6 n z)
  then show ?thesis
  proof (cases "is4In6 n")
    case True
    then show ?thesis using IPv6 by (simp add: cidr6_eqs)
  next
    case False
    have "uint (drop_bit 32 n) \<noteq> 0xffff"
    proof
      assume "uint (drop_bit 32 n) = 0xffff"
      then have "drop_bit 32 n = (0xffff :: 128 word)"
        by (simp add: word_uint_eq_iff)
      with False show False by (simp add: is4In6_def)
    qed
    then show ?thesis using IPv6 False
      by (cases "z = []") (simp_all add: cidr6_eqs prefixContains_v6 prefixContains_zoned uint_drop_bit)
  qed
qed (simp add: cidr6_eqs)

lemma alwaysBlocked_iff:
  assumes "\<not> hasZone (unmap a)"
  shows "alwaysBlocked a = (addrWithin loopback4 loopback6 (unmap a) \<or> addrWithin reserved4 reserved6 (unmap a))"
proof (cases "unmap a")
  case (IPv4 n)
  have "uint n < 2 ^ 32" using uint_lt2p [of n] by simp
  with IPv4 show ?thesis
    by (auto simp: alwaysBlocked_def Let_def cidr4_eqs cidr6_eqs prefixContains_v4 div_eq_interval range_defs)
next
  case (IPv6 n z)
  have "uint n < 2 ^ 128" using uint_lt2p [of n] by simp
  with IPv6 assms mapped_unmapped [of a] show ?thesis
    by (auto simp: alwaysBlocked_def Let_def cidr4_eqs cidr6_eqs prefixContains_v6 div_eq_interval range_defs
        uint_less_one)
qed

text \<open>No range contains a zoned address.\<close>

lemma zoned_unblocked:
  assumes "hasZone (unmap a)"
  shows "\<not> isLoopback a" "\<not> alwaysBlocked a" "\<not> isPrivate a"
  using assms by (simp_all add: isLoopback_def alwaysBlocked_def isPrivate_def Let_def prefixContains_zoned)

section \<open>What the filter lets through\<close>

text \<open>
  The specification of a dialable address, on the intervals: not reserved; loopback only under
  the test switch; inside \<^verbatim>\<open>allowed_ips\<close> when there are any, and not private when there are none.
\<close>

definition permitted :: "ssrf_options \<Rightarrow> ip_prefix list \<Rightarrow> ip_addr \<Rightarrow> bool" where
  "permitted opts nets a \<longleftrightarrow>
     (if addrWithin loopback4 loopback6 (unmap a) then allowLoopback opts
      else \<not> addrWithin reserved4 reserved6 (unmap a) \<and>
           (if nets = [] then \<not> addrWithin private4 private6 (unmap a)
            else list_ex (\<lambda>n. prefixContains n a) nets))"

lemma ipInAny_iff: "ipInAny a nets = list_ex (\<lambda>n. prefixContains n a) nets"
  by (induction nets) auto

lemma keepAddr_permitted: "\<not> hasZone (unmap a) \<Longrightarrow> keepAddr opts nets a = permitted opts nets a"
  by (simp add: keepAddr_def permitted_def isLoopback_iff alwaysBlocked_iff isPrivate_iff ipInAny_iff)

lemma keepAddr_zoned: "hasZone (unmap a) \<Longrightarrow> keepAddr opts nets a = (nets = [])"
proof -
  assume z: "hasZone (unmap a)"
  then have "hasZone a" by (rule unmap_no_zone)
  then have "\<not> ipInAny a nets" by (simp add: ipInAny_iff list_ex_iff prefixContains_zoned)
  then show ?thesis using zoned_unblocked [OF z] by (simp add: keepAddr_def)
qed

lemma ResolveAndFilter_Inr:
  "ResolveAndFilter dr host opts = Inr out \<longleftrightarrow>
     (\<exists>addrs nets. resolveAddrs dr host opts = Inr addrs \<and> parseAllowNets (AllowedIPs opts) = Inr nets \<and>
        out = filter (keepAddr opts nets) addrs \<and> out \<noteq> [])"
proof (cases "resolveAddrs dr host opts"; cases "parseAllowNets (AllowedIPs opts)")
  fix addrs nets
  assume "resolveAddrs dr host opts = Inr addrs" "parseAllowNets (AllowedIPs opts) = Inr nets"
  then show ?thesis by (cases "addrs = []") (auto simp: ResolveAndFilter_def Let_def)
qed (simp_all add: ResolveAndFilter_def)

lemma addrFromSlice_no_zone: "addrFromSlice bs = Some a \<Longrightarrow> \<not> hasZone (unmap a)"
proof
  assume "addrFromSlice bs = Some a" "hasZone (unmap a)"
  moreover from this(2) have "hasZone a" by (rule unmap_no_zone)
  ultimately show False
    unfolding addrFromSlice_def by (metis hasZone.simps option.distinct(1) option.inject)
qed

lemma resolved_name_no_zone:
  assumes "resolveAddrs dr host opts = Inr addrs" "parseAddr host = None" "a \<in> set addrs"
  shows "\<not> hasZone (unmap a)"
proof (cases "lookupIP dr host opts")
  case (Inr ips)
  then have "addrs = map unmap (List.map_filter addrFromSlice ips)"
    using assms(1,2) by (simp add: resolveAddrs_def)
  then obtain bs b where "addrFromSlice bs = Some b" "a = unmap b"
    using assms(3) by (auto simp: map_filter_def)
  then show ?thesis using addrFromSlice_no_zone by simp
qed (use assms(1,2) in \<open>simp add: resolveAddrs_def\<close>)

lemma dialDirect_targets:
  "t \<in> set (snd (dialDirect w p e addrs)) \<Longrightarrow> \<exists>a \<in> set addrs. t = DialTCP (joinHostPort (addrString a) p)"
proof (induction addrs arbitrary: e)
  case (Cons a addrs)
  then show ?case
    by (cases "tcpDial w (joinHostPort (addrString a) p)") (auto simp: Let_def split_beta)
qed simp

section \<open>The interface of the dial\<close>

text \<open>
  What \<^verbatim>\<open>DialSSRF\<close> needs of its two helpers: the filter returns acceptable addresses only, and
  never none; the bypass list selects among them.
\<close>

locale address_selection =
  fixes resolve :: "'h \<Rightarrow> 'o \<Rightarrow> 'e + 'a list"
    and acceptable :: "'h \<Rightarrow> 'o \<Rightarrow> 'a \<Rightarrow> bool"
    and bypass :: "'h \<Rightarrow> 'p \<Rightarrow> 'r \<Rightarrow> 'a list \<Rightarrow> 'a list"
  assumes resolve_acceptable: "resolve h opts = Inr as \<Longrightarrow> a \<in> set as \<Longrightarrow> acceptable h opts a"
    and resolve_nonempty: "resolve h opts = Inr as \<Longrightarrow> as \<noteq> []"
    and bypass_subset: "set (bypass h p r as) \<subseteq> set as"
begin

definition chosen :: "'h \<Rightarrow> 'p \<Rightarrow> 'r \<Rightarrow> 'a list \<Rightarrow> 'a list" where
  "chosen h p r as = (if bypass h p r as \<noteq> [] then bypass h p r as else as)"

lemma chosen_acceptable:
  "resolve h opts = Inr as \<Longrightarrow> a \<in> set (chosen h p r as) \<Longrightarrow> acceptable h opts a"
  using bypass_subset resolve_acceptable by (fastforce simp: chosen_def split: if_splits)

lemma chosen_nonempty: "resolve h opts = Inr as \<Longrightarrow> chosen h p r as \<noteq> []"
  using resolve_nonempty by (auto simp: chosen_def)

lemma first_acceptable: "resolve h opts = Inr as \<Longrightarrow> acceptable h opts (hd as)"
  using resolve_acceptable resolve_nonempty by fastforce

end

text \<open>Acceptable for a host: permitted, unless the address came from a literal with a zone.\<close>

definition acceptableFor ::
    "(string \<Rightarrow> string + string list) \<Rightarrow> string \<Rightarrow> ssrf_options \<Rightarrow> ip_addr \<Rightarrow> bool" where
  "acceptableFor dr host opts a \<longleftrightarrow>
     (\<exists>addrs nets. resolveAddrs dr host opts = Inr addrs \<and> a \<in> set addrs \<and>
        parseAllowNets (AllowedIPs opts) = Inr nets \<and>
        (if hasZone (unmap a) then nets = [] \<and> parseAddr host = Some a else permitted opts nets a))"

lemma filtered_acceptable:
  assumes "ResolveAndFilter dr host opts = Inr as" "a \<in> set as"
  shows "acceptableFor dr host opts a"
proof -
  obtain addrs nets where r: "resolveAddrs dr host opts = Inr addrs"
    and n: "parseAllowNets (AllowedIPs opts) = Inr nets" and as: "as = filter (keepAddr opts nets) addrs"
    using assms(1) unfolding ResolveAndFilter_Inr by blast
  then have a: "a \<in> set addrs" "keepAddr opts nets a" using assms(2) by auto
  show ?thesis
  proof (cases "hasZone (unmap a)")
    case True
    then have "parseAddr host \<noteq> None" using resolved_name_no_zone [OF r _ a(1)] by blast
    then have "parseAddr host = Some a" using r a(1) by (auto simp: resolveAddrs_def)
    then show ?thesis using r n a True keepAddr_zoned [OF True] by (auto simp: acceptableFor_def)
  next
    case False
    then show ?thesis using r n a keepAddr_permitted [OF False] by (auto simp: acceptableFor_def)
  qed
qed

interpretation ssrf_addrs: address_selection "ResolveAndFilter dr" "acceptableFor dr" noProxyAddresses
  by unfold_locales
    (auto simp: filtered_acceptable ResolveAndFilter_Inr noProxyAddresses_def dest: subsetD [OF selectDirect_subset, rotated])

lemma scanProxyKeys_direct:
  "scanProxyKeys ge pu host p as keys = (None, b) \<Longrightarrow> b = [] \<or> (\<exists>q raw. b = noProxyAddresses host q raw as)"
  by (induction keys) (auto simp: Let_def split: if_splits option.splits)

text \<open>The list that a direct dial walks is the one the interface calls chosen.\<close>

lemma direct_list_acceptable:
  assumes "ResolveAndFilter dr host opts = Inr as" "upstreamProxyURL ge pu host p as = (None, b)"
    and "a \<in> set (if b \<noteq> [] then b else as)"
  shows "a \<in> set as \<and> acceptableFor dr host opts a"
proof (cases "b = []")
  case True
  then show ?thesis using assms ssrf_addrs.resolve_acceptable by simp
next
  case False
  then obtain q raw where b: "b = noProxyAddresses host q raw as"
    using scanProxyKeys_direct assms(2) unfolding upstreamProxyURL_def by blast
  then have "a \<in> set (ssrf_addrs.chosen host q raw as)"
    using False assms(3) by (simp add: ssrf_addrs.chosen_def)
  then show ?thesis
    using ssrf_addrs.chosen_acceptable [OF assms(1)] ssrf_addrs.bypass_subset [of host q raw as] b False assms(3)
    by auto
qed

lemma dialDirect_conn:
  "fst (dialDirect w p err addrs) = Inr conn \<Longrightarrow> \<exists>a \<in> set addrs. conn = PlainConn (joinHostPort (addrString a) p)"
proof (induction addrs arbitrary: err)
  case (Cons a addrs)
  show ?case
  proof (cases "tcpDial w (joinHostPort (addrString a) p)")
    case (Some err')
    then have "fst (dialDirect w p err' addrs) = Inr conn"
      using Cons.prems by (simp split: prod.splits)
    from Cons.IH [OF this] show ?thesis by auto
  qed (use Cons.prems in \<open>simp add: Let_def\<close>)
qed simp

text \<open>What a dial through the upstream proxy \<open>u\<close> may do: reach the proxy, and ask it for \<open>target\<close> and nothing else.\<close>

fun proxyEvent :: "proxy_url \<Rightarrow> string \<Rightarrow> dial_event \<Rightarrow> bool" where
  "proxyEvent u target (DialTCP a) \<longleftrightarrow> a = upstreamProxyAddr u"
| "proxyEvent u target (TLSHandshake name roots) \<longleftrightarrow> name = urlHostname u \<and> equalFold (urlScheme u) ''https''"
| "proxyEvent u target (WriteConnect t auth) \<longleftrightarrow> t = target"
| "proxyEvent u target CloseConn \<longleftrightarrow> True"

fun throughProxy :: "proxy_url \<Rightarrow> dial_conn \<Rightarrow> bool" where
  "throughProxy u (PlainConn a) \<longleftrightarrow> a = upstreamProxyAddr u \<and> \<not> equalFold (urlScheme u) ''https''"
| "throughProxy u (TLSConn a) \<longleftrightarrow> a = upstreamProxyAddr u \<and> equalFold (urlScheme u) ''https''"
| "throughProxy u (BufConn c) \<longleftrightarrow> throughProxy u c"

lemma dialViaHTTPProxy_events: "ev \<in> set (snd (dialViaHTTPProxy w u target)) \<Longrightarrow> proxyEvent u target ev"
  by (auto simp: dialViaHTTPProxy_def connectThrough_def finishProxyDial_def failClosing_def Let_def
      split: option.splits sum.splits if_splits)

lemma dialViaHTTPProxy_conn:
  "fst (dialViaHTTPProxy w u target) = Inr conn \<Longrightarrow>
   throughProxy u conn \<and> (\<exists>auth. WriteConnect target auth \<in> set (snd (dialViaHTTPProxy w u target)))"
  by (auto simp: dialViaHTTPProxy_def connectThrough_def finishProxyDial_def failClosing_def Let_def
      split: option.splits sum.splits if_splits)

text \<open>The target that a proxy is asked for: the first address, or the name when the operator wants that.\<close>

definition proxyTarget :: "dial_world \<Rightarrow> string \<Rightarrow> string \<Rightarrow> ip_addr list \<Rightarrow> string" where
  "proxyTarget w host p as = joinHostPort (if connectByHostname w then host else addrString (hd as)) p"

text \<open>
  A permitted connection, with what was done on the network for it. Without an upstream proxy it is to an
  acceptable address of the host, and only such addresses were dialled. With one it is a connection to that
  proxy, over TLS if its URL says so, on which a CONNECT was written for the first acceptable address, or
  for the name when the operator wants that and no addresses are listed, and for no other target.
\<close>

definition permittedConn :: "dial_world \<Rightarrow> string \<Rightarrow> string \<Rightarrow> ssrf_options \<Rightarrow> dial_conn \<Rightarrow> dial_event list \<Rightarrow> bool" where
  "permittedConn w host p opts conn evs \<longleftrightarrow>
     (\<exists>as. ResolveAndFilter (defaultResolver w) host opts = Inr as \<and>
     (case upstreamProxyURL (getenv w) (parseURL w) host p as of
        (None, bypass) \<Rightarrow>
          (\<exists>a. acceptableFor (defaultResolver w) host opts a \<and> conn = PlainConn (joinHostPort (addrString a) p)) \<and>
          (\<forall>ev \<in> set evs. \<exists>a. acceptableFor (defaultResolver w) host opts a \<and> ev = DialTCP (joinHostPort (addrString a) p))
      | (Some u, _) \<Rightarrow>
          acceptableFor (defaultResolver w) host opts (hd as) \<and> (connectByHostname w \<longrightarrow> AllowedIPs opts = []) \<and>
          throughProxy u conn \<and> (\<exists>auth. WriteConnect (proxyTarget w host p as) auth \<in> set evs) \<and>
          (\<forall>ev \<in> set evs. proxyEvent u (proxyTarget w host p as) ev)))"

text \<open>How \<^const>\<open>DialSSRF\<close> comes to its result.\<close>

lemma DialSSRF_direct:
  assumes "ResolveAndFilter (defaultResolver w) host opts = Inr as" "upstreamProxyURL (getenv w) (parseURL w) host p as = (None, b)"
  shows "DialSSRF w host p opts = dialDirect w p ''ssrf: dial failed'' (if b \<noteq> [] then b else as)"
  using assms by (simp add: DialSSRF_def)

lemma DialSSRF_proxied:
  assumes "ResolveAndFilter (defaultResolver w) host opts = Inr as" "upstreamProxyURL (getenv w) (parseURL w) host p as = (Some u, b)"
    and "DialSSRF w host p opts = (r, evs)" "evs \<noteq> [] \<or> (\<exists>conn. r = Inr conn)"
  shows "dialViaHTTPProxy w u (proxyTarget w host p as) = (r, evs) \<and> (connectByHostname w \<longrightarrow> AllowedIPs opts = [])"
  using assms by (cases "connectByHostname w"; cases "AllowedIPs opts") (auto simp: DialSSRF_def proxyTarget_def)

lemma DialSSRF_conn:
  assumes "DialSSRF w host p opts = (Inr conn, evs)"
  shows "permittedConn w host p opts conn evs"
proof (cases "ResolveAndFilter (defaultResolver w) host opts")
  case (Inr as)
  obtain px b where u: "upstreamProxyURL (getenv w) (parseURL w) host p as = (px, b)"
    by fastforce
  show ?thesis
  proof (cases px)
    case None
    let ?addrs = "if b \<noteq> [] then b else as"
    have dial: "dialDirect w p ''ssrf: dial failed'' ?addrs = (Inr conn, evs)"
      using assms DialSSRF_direct [OF Inr] u None by simp
    then obtain a where a: "a \<in> set ?addrs" "conn = PlainConn (joinHostPort (addrString a) p)"
      using dialDirect_conn [of w p _ ?addrs conn] by (metis fst_conv)
    have accept: "acceptableFor (defaultResolver w) host opts c" if "c \<in> set ?addrs" for c
      using direct_list_acceptable [OF Inr _ that] u None by blast
    have "\<exists>c. acceptableFor (defaultResolver w) host opts c \<and> ev = DialTCP (joinHostPort (addrString c) p)" if "ev \<in> set evs" for ev
      using dialDirect_targets [of ev w p "''ssrf: dial failed''" ?addrs] that dial accept by auto
    with a accept Inr u None show ?thesis by (auto simp: permittedConn_def)
  next
    case (Some pu)
    have d: "dialViaHTTPProxy w pu (proxyTarget w host p as) = (Inr conn, evs)" "connectByHostname w \<longrightarrow> AllowedIPs opts = []"
      using DialSSRF_proxied [OF Inr _ assms] u Some by auto
    then show ?thesis
      using dialViaHTTPProxy_conn [of w pu "proxyTarget w host p as"] dialViaHTTPProxy_events [of _ w pu "proxyTarget w host p as"]
        ssrf_addrs.first_acceptable [OF Inr] Inr u Some
      by (auto simp: permittedConn_def)
  qed
qed (use assms in \<open>simp add: DialSSRF_def\<close>)

section \<open>Properties\<close>

text \<open>
  C9: on zone-free resolved addresses, \<^verbatim>\<open>ResolveAndFilter\<close> returns exactly the addresses of the interval
  specification, in order, and fails when there are none: loopback, link-local, unspecified, CGNAT,
  benchmark and multicast ranges are never returned, and private ones only inside \<^verbatim>\<open>allowed_ips\<close>.\<close>

theorem ResolveAndFilter_refines:
  assumes "resolveAddrs dr host opts = Inr addrs" "parseAllowNets (AllowedIPs opts) = Inr nets"
    and "list_all (\<lambda>a. \<not> hasZone a) addrs"
  shows "ResolveAndFilter dr host opts =
     (if addrs = [] then Inl (SsrfNoAddresses host)
      else if filter (permitted opts nets) addrs = [] then Inl (SsrfBlockedAll host)
      else Inr (filter (permitted opts nets) addrs))"
proof -
  have "filter (keepAddr opts nets) addrs = filter (permitted opts nets) addrs"
    by (rule filter_cong [OF refl]) (use assms(3) unmap_no_zone keepAddr_permitted in \<open>metis list_all_iff\<close>)
  then show ?thesis using assms(1,2) by (simp add: ResolveAndFilter_def Let_def)
qed

definition witnessOpts :: ssrf_options where
  "witnessOpts = \<lparr>AllowedIPs = [], allowLoopback = False,
     LookupIPAddr = Some (\<lambda>h. Inr [[CHR 0x0A, CHR 0x00, CHR 0x00, CHR 0x01], [CHR 0x08, CHR 0x08, CHR 0x08, CHR 0x08]])\<rparr>"

theorem ResolveAndFilter_refines_witness:
  "ResolveAndFilter (\<lambda>h. Inl ''none'') ''example.com'' witnessOpts = Inr [IPv4 0x08080808]"
proof -
  have "resolveAddrs (\<lambda>h. Inl ''none'') ''example.com'' witnessOpts = Inr [IPv4 0x0a000001, IPv4 0x08080808]"
    "parseAllowNets (AllowedIPs witnessOpts) = Inr []"
    "filter (permitted witnessOpts []) [IPv4 0x0a000001, IPv4 0x08080808] = [IPv4 0x08080808]"
    by code_simp+
  then show ?thesis
    using ResolveAndFilter_refines [of "\<lambda>h. Inl ''none''" "''example.com''" witnessOpts] by simp
qed

text \<open>
  A literal IPv6 host with a zone passes the filter whatever its range when there are no
  \<^verbatim>\<open>allowed_ips\<close>: a prefix contains no zoned address, so no blocked range applies to it.\<close>

lemma zoned_literal_passes:
  assumes "parseAddr host = Some a" "hasZone (unmap a)" "AllowedIPs opts = []"
  shows "ResolveAndFilter dr host opts = Inr [a]"
  using assms by (simp add: ResolveAndFilter_def resolveAddrs_def keepAddr_zoned Let_def)

lemma zoned_literal_passes_witness:
  "ResolveAndFilter (\<lambda>h. Inl ''none'') ''fe80::1%eth0'' witnessOpts =
     Inr [IPv6 0xfe800000000000000000000000000001 ''eth0'']"
proof -
  have "parseAddr ''fe80::1%eth0'' = Some (IPv6 0xfe800000000000000000000000000001 ''eth0'')"
    "hasZone (unmap (IPv6 0xfe800000000000000000000000000001 ''eth0''))"
    "AllowedIPs witnessOpts = []"
    by code_simp+
  then show ?thesis by (rule zoned_literal_passes)
qed

text \<open>
  C10: without an upstream proxy every TCP dial of \<^verbatim>\<open>DialSSRF\<close> goes to an address that the filter of the
  same call accepted. Through a proxy the only TCP dial is to the proxy, the only TLS handshake is for its
  name and only when its URL says https, and every CONNECT that is written names the first accepted
  address, or the host name when the operator asked for it and there are no \<^verbatim>\<open>allowed_ips\<close>.\<close>

theorem DialSSRF_events:
  assumes "ev \<in> set (snd (DialSSRF w host p opts))"
  shows "\<exists>as. ResolveAndFilter (defaultResolver w) host opts = Inr as \<and>
     (case upstreamProxyURL (getenv w) (parseURL w) host p as of
        (None, bypass) \<Rightarrow>
          \<exists>a \<in> set as. acceptableFor (defaultResolver w) host opts a \<and> ev = DialTCP (joinHostPort (addrString a) p)
      | (Some u, _) \<Rightarrow>
          (ev = DialTCP (upstreamProxyAddr u) \<or>
           (\<exists>roots. ev = TLSHandshake (urlHostname u) roots \<and> equalFold (urlScheme u) ''https'') \<or>
           (\<exists>auth. ev = WriteConnect (joinHostPort (if connectByHostname w then host else addrString (hd as)) p) auth) \<or>
           ev = CloseConn) \<and>
          (connectByHostname w \<longrightarrow> AllowedIPs opts = []) \<and>
          acceptableFor (defaultResolver w) host opts (hd as))"
proof (cases "ResolveAndFilter (defaultResolver w) host opts")
  case (Inr as)
  note first = ssrf_addrs.first_acceptable [OF Inr]
  obtain px b where u: "upstreamProxyURL (getenv w) (parseURL w) host p as = (px, b)"
    by fastforce
  show ?thesis
  proof (cases px)
    case None
    then have "ev \<in> set (snd (dialDirect w p ''ssrf: dial failed'' (if b \<noteq> [] then b else as)))"
      using assms DialSSRF_direct [OF Inr] u by simp
    then obtain a where a: "a \<in> set (if b \<noteq> [] then b else as)" "ev = DialTCP (joinHostPort (addrString a) p)"
      using dialDirect_targets by blast
    from direct_list_acceptable [OF Inr _ a(1)] u None a(2) Inr show ?thesis by auto
  next
    case (Some pu)
    obtain r evs where d: "DialSSRF w host p opts = (r, evs)" by fastforce
    have "ev \<in> set (snd (dialViaHTTPProxy w pu (proxyTarget w host p as)))" "connectByHostname w \<longrightarrow> AllowedIPs opts = []"
      using DialSSRF_proxied [OF Inr _ d] u Some assms d by (cases evs; auto)+
    then have "proxyEvent pu (proxyTarget w host p as) ev" "connectByHostname w \<longrightarrow> AllowedIPs opts = []"
      using dialViaHTTPProxy_events by blast+
    then show ?thesis using first Inr u Some by (cases ev) (auto simp: proxyTarget_def)
  qed
qed (use assms in \<open>simp add: DialSSRF_def\<close>)

text \<open>A world with an HTTPS upstream proxy that answers 200.\<close>

definition witnessWorld :: dial_world where
  "witnessWorld =
     \<lparr>getenv = (\<lambda>k. if k = ''HTTPS_PROXY'' then ''https://corp:8443'' else if k = ''NO_PROXY'' then ''.internal'' else []),
      readFile = (\<lambda>f. None),
      parseURL = (\<lambda>s. Some \<lparr>urlHost = ''corp:8443'', urlScheme = ''https'', urlUser = Some (''u'', ''p'')\<rparr>),
      defaultResolver = (\<lambda>h. Inl ''none''), tcpDial = (\<lambda>a. None), setDeadlineOk = True, ctxErr = None,
      appendCertsFromPEM = (\<lambda>b. False), handshakeOk = (\<lambda>h r. True), writeErr = None, readResponse = Inr 200,
      stopCancelOk = True, ctxErrLate = None, clearDeadlineOk = True, buffered = 0\<rparr>"

theorem DialSSRF_events_witness:
  "acceptableFor (defaultResolver witnessWorld) ''example.com'' witnessOpts (IPv4 0x08080808)"
proof -
  have ev: "WriteConnect ''8.8.8.8:443'' (Some ''Basic dTpw'') \<in>
      set (snd (DialSSRF witnessWorld ''example.com'' ''443'' witnessOpts))"
    and r: "ResolveAndFilter (defaultResolver witnessWorld) ''example.com'' witnessOpts = Inr [IPv4 0x08080808]"
    and u: "fst (upstreamProxyURL (getenv witnessWorld) (parseURL witnessWorld) ''example.com'' ''443'' [IPv4 0x08080808]) \<noteq> None"
    by code_simp+
  then show ?thesis using DialSSRF_events [OF ev] r u by (auto split: prod.splits option.splits)
qed

text \<open>
  \<^verbatim>\<open>dialViaHTTPProxy\<close> never leaks the connection it opened: every error after the dial closes it as
  the last thing it does, and a returned connection has not been closed, has sent exactly one
  CONNECT request, for the target, and over TLS when the proxy URL says https.\<close>

lemma dialViaHTTPProxy_closes:
  assumes "tcpDial w (upstreamProxyAddr u) = None"
  shows "case dialViaHTTPProxy w u target of
     (Inl err, evs) \<Rightarrow> \<exists>pre. evs = pre @ [CloseConn] \<and> CloseConn \<notin> set pre
   | (Inr conn, evs) \<Rightarrow>
       CloseConn \<notin> set evs \<and>
       (\<exists>auth. [ev \<leftarrow> evs. \<exists>t au. ev = WriteConnect t au] = [WriteConnect target auth]) \<and>
       (equalFold (urlScheme u) ''https'' \<longrightarrow> (\<exists>roots. evs ! 1 = TLSHandshake (urlHostname u) roots))"
  using assms
  by (auto simp: dialViaHTTPProxy_def connectThrough_def finishProxyDial_def failClosing_def Let_def
      split: option.split sum.split prod.split)

lemma dialViaHTTPProxy_closes_witness:
  "CloseConn \<notin> set (snd (dialViaHTTPProxy witnessWorld
      \<lparr>urlHost = ''corp'', urlScheme = ''https'', urlUser = None\<rparr> ''8.8.8.8:443''))"
proof -
  let ?u = "\<lparr>urlHost = ''corp'', urlScheme = ''https'', urlUser = None\<rparr>"
  have "tcpDial witnessWorld (upstreamProxyAddr ?u) = None"
    and "fst (dialViaHTTPProxy witnessWorld ?u ''8.8.8.8:443'') = Inr (TLSConn ''corp:443'')"
    by (simp add: witnessWorld_def) code_simp
  then show ?thesis using dialViaHTTPProxy_closes [of witnessWorld ?u "''8.8.8.8:443''"]
    by (auto split: prod.splits)
qed

end
