(* ===== verification/WS_Frame.thy ===== *)
theory WS_Frame
  imports Go_Prelude
begin

text \<open>
  The WebSocket codec of \<^verbatim>\<open>proxy/wsframe.go\<close>: reading and writing one frame, and the buffer that puts the
  fragments of a message together. Bytes are \<^typ>\<open>8 word\<close>, a reader is the list of the bytes it still
  has, a writer is a function that takes the bytes and a state of its own and may fail.
\<close>

section \<open>Model\<close>

type_synonym byte = "8 word"

definition wsOpcodeContinuation :: byte where "wsOpcodeContinuation = 0x0"
definition wsOpcodeText :: byte where "wsOpcodeText = 0x1"
definition wsOpcodeBinary :: byte where "wsOpcodeBinary = 0x2"
definition wsOpcodeClose :: byte where "wsOpcodeClose = 0x8"
definition wsOpcodePing :: byte where "wsOpcodePing = 0x9"
definition wsOpcodePong :: byte where "wsOpcodePong = 0xA"
definition maxWSMessageBytes :: int where "maxWSMessageBytes = 4 * 2 ^ 20"
definition maxWSFrameBytes :: int where "maxWSFrameBytes = 16 * 2 ^ 20"

lemmas wsOpcode_defs = wsOpcodeContinuation_def wsOpcodeText_def wsOpcodeBinary_def wsOpcodeClose_def
  wsOpcodePing_def wsOpcodePong_def

record wsFrame =
  Opcode :: byte
  Payload :: "byte list"
  Fin :: bool

record wsFragmentBuffer =
  bufOpcode :: byte
  bufPayload :: "byte list"

datatype ws_error =
    WSEOF
  | WSUnexpectedEOF
  | WSFrameTooLarge
  | WSInvalidControl
  | WSNewDataBeforeEnd
  | WSMessageTooLarge
  | WSContinuationWithoutData

subsection \<open>The fragment buffer\<close>

text \<open>
  The result: an error, no frame yet, or a logical frame; and the buffer afterwards, on the error
  paths too.
\<close>

definition accept :: "wsFragmentBuffer \<Rightarrow> wsFrame \<Rightarrow> (ws_error + wsFrame option) \<times> wsFragmentBuffer" where
  "accept b frame =
     (if Opcode frame = wsOpcodePing \<or> Opcode frame = wsOpcodePong \<or> Opcode frame = wsOpcodeClose then
        (if \<not> Fin frame \<or> length (Payload frame) > 125 then (Inl WSInvalidControl, b)
         else (Inr (Some frame), b))
      else if Opcode frame = wsOpcodeText \<or> Opcode frame = wsOpcodeBinary then
        (if bufOpcode b \<noteq> 0 then (Inl WSNewDataBeforeEnd, b)
         else if Fin frame then
           (if int (length (Payload frame)) > maxWSMessageBytes then (Inl WSMessageTooLarge, b)
            else (Inr (Some frame), b))
         else
           (let b' = b\<lparr>bufOpcode := Opcode frame, bufPayload := Payload frame\<rparr> in
            if int (length (bufPayload b')) > maxWSMessageBytes then (Inl WSMessageTooLarge, b')
            else (Inr None, b')))
      else if Opcode frame = wsOpcodeContinuation then
        (if bufOpcode b = 0 then (Inl WSContinuationWithoutData, b)
         else if int (length (bufPayload b)) + int (length (Payload frame)) > maxWSMessageBytes
           then (Inl WSMessageTooLarge, b)
         else
           (let b' = b\<lparr>bufPayload := bufPayload b @ Payload frame\<rparr> in
            if \<not> Fin frame then (Inr None, b')
            else (Inr (Some \<lparr>Opcode = bufOpcode b', Payload = bufPayload b', Fin = True\<rparr>),
                  b'\<lparr>bufOpcode := 0, bufPayload := []\<rparr>)))
      else (Inr (Some frame), b))"

subsection \<open>Reading\<close>

text \<open>\<^verbatim>\<open>io.ReadFull\<close>.\<close>

definition readFull :: "nat \<Rightarrow> byte list \<Rightarrow> ws_error + (byte list \<times> byte list)" where
  "readFull n r =
     (if n \<le> length r then Inr (take n r, drop n r)
      else if r = [] then Inl WSEOF else Inl WSUnexpectedEOF)"

text \<open>\<^verbatim>\<open>binary.BigEndian.Uint16\<close> and \<^verbatim>\<open>Uint64\<close>, as a 64-bit value.\<close>

definition beUint :: "byte list \<Rightarrow> 64 word" where
  "beUint bs = foldl (\<lambda>acc b. push_bit 8 acc OR ucast b) 0 bs"

definition readLength :: "byte \<Rightarrow> byte list \<Rightarrow> ws_error + (64 word \<times> byte list)" where
  "readLength hdr1 r =
     (let n = hdr1 AND 0x7f in
      if n = 126 then bindR (readFull 2 r) (\<lambda>(ext, r'). Inr (beUint ext, r'))
      else if n = 127 then
        bindR (readFull 8 r) (\<lambda>(ext, r').
          if uint (beUint ext) > maxWSFrameBytes then Inl WSFrameTooLarge else Inr (beUint ext, r'))
      else Inr (ucast n, r))"

text \<open>\<^verbatim>\<open>payload[i] ^= mask[i%4]\<close> for every index.\<close>

definition maskBytes :: "byte list \<Rightarrow> byte list \<Rightarrow> byte list" where
  "maskBytes mkey bs = map (\<lambda>i. bs ! i XOR mkey ! (i mod 4)) [0..<length bs]"

definition readWSFrame :: "byte list \<Rightarrow> ws_error + (wsFrame \<times> byte list)" where
  "readWSFrame r =
     bindR (readFull 2 r) (\<lambda>(hdr, r1).
       (let masked = (hdr ! 1) AND 0x80 \<noteq> 0 in
        bindR (readLength (hdr ! 1) r1) (\<lambda>(len, r2).
        bindR (if masked then readFull 4 r2 else Inr ([0, 0, 0, 0], r2)) (\<lambda>(mkey, r3).
        bindR (if len > 0 then readFull (unat len) r3 else Inr ([], r3)) (\<lambda>(payload, r4).
          Inr (\<lparr>Opcode = (hdr ! 0) AND 0x0f,
                Payload = (if masked then maskBytes mkey payload else payload),
                Fin = (hdr ! 0) AND 0x80 \<noteq> 0\<rparr>, r4))))))"

subsection \<open>Writing\<close>

text \<open>\<^verbatim>\<open>binary.BigEndian.PutUint64\<close>.\<close>

definition putUint64 :: "64 word \<Rightarrow> byte list" where
  "putUint64 v = map (\<lambda>k. ucast (drop_bit k v)) [56, 48, 40, 32, 24, 16, 8, 0]"

definition lengthHeader :: "nat \<Rightarrow> byte \<Rightarrow> byte list" where
  "lengthHeader n maskBit =
     (if n < 126 then [of_nat n OR maskBit]
      else if int n \<le> 65535 then [126 OR maskBit, of_nat (n div 256), of_nat n]
      else (127 OR maskBit) # putUint64 (of_nat n))"

text \<open>The header and the payload as written; \<open>key\<close> is the random mask, if masking is asked for.\<close>

definition encodeWSFrame :: "byte \<Rightarrow> byte list \<Rightarrow> byte list option \<Rightarrow> byte list \<times> byte list" where
  "encodeWSFrame opcode payload key =
     ((0x80 OR (opcode AND 0x0f))
        # lengthHeader (length payload) (if key \<noteq> None then 0x80 else 0) @ (case key of Some k \<Rightarrow> k | None \<Rightarrow> []),
      case key of Some k \<Rightarrow> maskBytes k payload | None \<Rightarrow> payload)"

definition writeWSFrame ::
    "(byte list \<Rightarrow> 'w \<Rightarrow> string option \<times> 'w) \<Rightarrow> byte \<Rightarrow> byte list \<Rightarrow> byte list option \<Rightarrow> 'w \<Rightarrow> string option \<times> 'w" where
  "writeWSFrame write opcode payload key w =
     (case encodeWSFrame opcode payload key of
        (hdr, body) \<Rightarrow>
          (case write hdr w of
             (Some err, w') \<Rightarrow> (Some err, w')
           | (None, w') \<Rightarrow> if length payload > 0 then write body w' else (None, w')))"

section \<open>The codec round trip\<close>

lemma maskBytes_length [simp]: "length (maskBytes k bs) = length bs"
  by (simp add: maskBytes_def)

lemma maskBytes_Nil [simp]: "maskBytes k [] = []"
  by (simp add: maskBytes_def)

lemma maskBytes_involution [simp]: "maskBytes k (maskBytes k bs) = bs"
  by (rule nth_equalityI) (simp_all add: maskBytes_def xor.assoc)

lemma readFull_append: "length xs = n \<Longrightarrow> readFull n (xs @ ys) = Inr (xs, ys)"
  by (simp add: readFull_def)

lemma length_putUint64 [simp]: "length (putUint64 v) = 8"
  by (simp add: putUint64_def)

text \<open>One byte more of a big-endian value.\<close>

lemma be_step: "push_bit 8 (drop_bit (k + 8) v) OR ucast (ucast (drop_bit k v) :: byte) = drop_bit k v"
  for v :: "64 word"
proof (rule bit_word_eqI)
  fix i assume "i < LENGTH(64)"
  show "bit (push_bit 8 (drop_bit (k + 8) v) OR ucast (ucast (drop_bit k v) :: byte)) i = bit (drop_bit k v) i"
    by (cases "i < 8") (use \<open>i < _\<close> in \<open>auto simp: bit_simps add.commute add.left_commute dest: bit_imp_le_length\<close>)
qed

lemma beUint_putUint64 [simp]: "beUint (putUint64 v) = v"
proof -
  have "drop_bit 64 v = 0" by (rule bit_word_eqI) (auto simp: bit_simps dest: bit_imp_le_length)
  then show ?thesis
    using be_step [of 56 v] be_step [of 48 v] be_step [of 40 v] be_step [of 32 v]
      be_step [of 24 v] be_step [of 16 v] be_step [of 8 v] be_step [of 0 v]
    by (simp add: beUint_def putUint64_def)
qed

lemma ucast_of_nat64: "ucast (of_nat m :: 64 word) = (of_nat m :: byte)"
proof -
  have "take_bit 8 (take_bit 64 (int m)) = take_bit 8 (int m)" by simp
  then show ?thesis by (transfer) simp
qed

lemma beUint_2:
  assumes "n < 2 ^ 16"
  shows "beUint [of_nat (n div 256), of_nat n] = of_nat n"
proof -
  let ?v = "of_nat n :: 64 word"
  have v: "uint ?v = int n" using assms by (simp add: uint_nat unat_of_nat)
  have "uint (drop_bit 16 ?v) = 0" using assms v by (simp add: uint_drop_bit)
  then have z: "drop_bit 16 ?v = 0" by (simp add: uint_0_iff)
  have "uint (drop_bit 8 ?v) = int (n div 256)" using v by (simp add: uint_drop_bit zdiv_int)
  then have d: "drop_bit 8 ?v = of_nat (n div 256)" by (metis of_int_of_nat_eq word_of_int_uint)
  have "ucast (drop_bit 8 ?v) = (of_nat (n div 256) :: byte)" "ucast ?v = (of_nat n :: byte)"
    unfolding d by (rule ucast_of_nat64)+
  then show ?thesis using be_step [of 8 ?v] be_step [of 0 ?v] z by (simp add: beUint_def)
qed

lemma seven_bits:
  assumes "n < 128"
  shows "(of_nat n :: byte) AND 0x7f = of_nat n"
proof -
  have "take_bit 7 (of_nat n :: byte) = of_nat n"
    using assms by (intro word_unat_eq_iff [THEN iffD2]) (simp add: unsigned_take_bit_eq unat_of_nat take_bit_nat_eq_self)
  then show ?thesis by (simp add: take_bit_eq_mask mask_eq_exp_minus_1)
qed

lemma length_byte_bits:
  assumes "n < 128" "m = 0 \<or> m = (0x80 :: byte)"
  shows "(of_nat n OR m) AND 0x7f = of_nat n" "(of_nat n OR m) AND 0x80 = m"
proof -
  have z: "(of_nat n :: byte) AND 0x80 = 0"
  proof -
    have "(of_nat n :: byte) AND 0x80 = of_nat n AND (0x7f AND 0x80)"
      using seven_bits [OF assms(1)] by (metis and.assoc)
    then show ?thesis by simp
  qed
  from assms(2) show "(of_nat n OR m) AND 0x7f = of_nat n" "(of_nat n OR m) AND 0x80 = m"
    by (auto simp: bit.conj_disj_distrib2 seven_bits [OF assms(1)] z)
qed

lemma header_bits:
  "(0x80 OR (op AND 0x0f)) AND (0x0f :: byte) = op AND 0x0f"
  "(0x80 OR (op AND 0x0f)) AND (0x80 :: byte) = 0x80"
  by (simp_all add: and.assoc bit.conj_disj_distrib2)

lemma readLength_lengthHeader:
  assumes "m = 0 \<or> m = 0x80" "int n \<le> maxWSFrameBytes"
  obtains h ext where "lengthHeader n m = h # ext" "h AND 0x80 = m"
    "\<And>r. readLength h (ext @ r) = Inr (of_nat n, r)"
proof -
  consider "n < 126" | "\<not> n < 126" "n < 2 ^ 16" | "\<not> n < 2 ^ 16" by blast
  then show thesis
  proof cases
    case 1
    have "n \<noteq> 126" "n \<noteq> 127" using 1 by auto
    then have "(of_nat n :: byte) \<noteq> 126" "(of_nat n :: byte) \<noteq> 127"
      using 1 by (auto simp: word_unat_eq_iff unat_of_nat)
    moreover have "ucast (of_nat n :: byte) = (of_nat n :: 64 word)"
      using 1 by (simp add: unsigned_of_nat take_bit_nat_eq_self)
    ultimately show thesis
      using 1 assms(1) length_byte_bits [of n m]
      by (intro that [of "of_nat n OR m" "[]"]) (auto simp: lengthHeader_def readLength_def Let_def)
  next
    case 2
    then show thesis
      using assms(1) length_byte_bits [of 126 m] beUint_2 [of n]
      by (intro that [of "126 OR m" "[of_nat (n div 256), of_nat n]"])
        (auto simp: lengthHeader_def readLength_def Let_def readFull_def)
  next
    case 3
    then have v: "uint (of_nat n :: 64 word) = int n"
      using assms(2) by (simp add: uint_nat unat_of_nat maxWSFrameBytes_def)
    show thesis
      using 3 assms length_byte_bits [of 127 m] v
      by (intro that [of "127 OR m" "putUint64 (of_nat n)"])
        (auto simp: lengthHeader_def readLength_def Let_def readFull_append)
  qed
qed

lemma readWSFrame_encodeWSFrame:
  assumes "int (length payload) \<le> maxWSFrameBytes" "case key of Some k \<Rightarrow> length k = 4 | None \<Rightarrow> True"
  shows "readWSFrame (fst (encodeWSFrame op payload key) @ snd (encodeWSFrame op payload key) @ rest) =
     Inr (\<lparr>Opcode = op AND 0x0f, Payload = payload, Fin = True\<rparr>, rest)"
proof -
  let ?m = "if key \<noteq> None then 0x80 else 0 :: byte"
  obtain h ext where h: "lengthHeader (length payload) ?m = h # ext" "h AND 0x80 = ?m"
    "\<And>r. readLength h (ext @ r) = Inr (of_nat (length payload), r)"
  proof (rule readLength_lengthHeader [of ?m "length payload"])
    show "?m = 0 \<or> ?m = 0x80" by simp
  qed (use assms(1) in blast)+
  have len: "unat (of_nat (length payload) :: 64 word) = length payload"
    using assms(1) by (simp add: unat_of_nat maxWSFrameBytes_def)
  then have pos: "(of_nat (length payload) :: 64 word) > 0 \<longleftrightarrow> payload \<noteq> []"
    by (metis length_greater_0_conv unat_gt_0 word_neq_0_conv)
  have rd: "readFull 2 (a # h # r) = Inr ([a, h], r)" for a r by (simp add: readFull_def)
  show ?thesis
  proof (cases key)
    case None
    then show ?thesis using h header_bits
      by (simp add: encodeWSFrame_def readWSFrame_def rd pos len readFull_append Let_def)
  next
    case (Some k)
    then show ?thesis using h header_bits assms(2)
      by (simp add: encodeWSFrame_def readWSFrame_def rd pos len readFull_append Let_def)
  qed
qed

text \<open>
  C15: a frame written by \<^verbatim>\<open>writeWSFrame\<close>, masked or not, is read back by \<^verbatim>\<open>readWSFrame\<close> as a final frame with
  the low four bits of the opcode and the same payload, and the reader is left at the next byte.\<close>

theorem read_written_frame:
  assumes "int (length payload) \<le> maxWSFrameBytes" "case key of Some k \<Rightarrow> length k = 4 | None \<Rightarrow> True"
  shows "readWSFrame (fst (encodeWSFrame op payload key) @ snd (encodeWSFrame op payload key) @ rest) =
     Inr (\<lparr>Opcode = op AND 0x0f, Payload = payload, Fin = True\<rparr>, rest)"
  using assms by (rule readWSFrame_encodeWSFrame)

theorem read_written_frame_witness:
  "readWSFrame (fst (encodeWSFrame 1 [104, 105] (Some [1, 2, 3, 4])) @
      snd (encodeWSFrame 1 [104, 105] (Some [1, 2, 3, 4])) @ [9]) =
     Inr (\<lparr>Opcode = 1, Payload = [104, 105], Fin = True\<rparr>, [9])"
  using read_written_frame [of "[104, 105]" "Some [1, 2, 3, 4]" 1 "[9]"] by (simp add: maxWSFrameBytes_def)

section \<open>Reassembly\<close>

definition emptyBuffer :: wsFragmentBuffer where
  "emptyBuffer = \<lparr>bufOpcode = 0, bufPayload = []\<rparr>"

text \<open>The buffer between frames: either idle or holding a text or binary message within the limit.\<close>

definition bufferInv :: "wsFragmentBuffer \<Rightarrow> bool" where
  "bufferInv b \<longleftrightarrow>
     int (length (bufPayload b)) \<le> maxWSMessageBytes \<and>
     (if bufOpcode b = 0 then bufPayload b = [] else bufOpcode b = wsOpcodeText \<or> bufOpcode b = wsOpcodeBinary)"

definition isControl :: "wsFrame \<Rightarrow> bool" where
  "isControl f \<longleftrightarrow> Opcode f = wsOpcodePing \<or> Opcode f = wsOpcodePong \<or> Opcode f = wsOpcodeClose"

definition isData :: "wsFrame \<Rightarrow> bool" where
  "isData f \<longleftrightarrow> Opcode f = wsOpcodeText \<or> Opcode f = wsOpcodeBinary"

definition validControl :: "wsFrame \<Rightarrow> bool" where
  "validControl f \<longleftrightarrow> isControl f \<and> Fin f \<and> length (Payload f) \<le> 125"

lemma emptyBuffer_inv [simp]: "bufferInv emptyBuffer"
  by (simp add: bufferInv_def emptyBuffer_def maxWSMessageBytes_def)

text \<open>
  As long as no error is reported the buffer stays well formed, and what it hands on is never a
  continuation frame: a text or binary message is final and at most 4 MiB, a control frame is
  final and at most 125 bytes.\<close>

lemma accept_preserves:
  assumes "bufferInv b" "accept b f = (Inr out, b')"
  shows "bufferInv b' \<and>
     (case out of None \<Rightarrow> True
      | Some m \<Rightarrow> Opcode m \<noteq> wsOpcodeContinuation \<and>
          (isData m \<longrightarrow> Fin m \<and> int (length (Payload m)) \<le> maxWSMessageBytes) \<and>
          (isControl m \<longrightarrow> validControl m))"
proof -
  have op: "(1 :: byte) \<noteq> 0" "(2 :: byte) \<noteq> 0" by simp_all
  show ?thesis
    using assms
    by (auto simp: accept_def bufferInv_def isData_def isControl_def validControl_def wsOpcode_defs Let_def
        maxWSMessageBytes_def split: if_splits)
qed

lemma accept_preserves_witness:
  "bufferInv (snd (accept emptyBuffer \<lparr>Opcode = 1, Payload = [104], Fin = False\<rparr>))"
proof -
  have "accept emptyBuffer \<lparr>Opcode = 1, Payload = [104], Fin = False\<rparr> = (Inr None, \<lparr>bufOpcode = 1, bufPayload = [104]\<rparr>)"
    by code_simp
  from accept_preserves [OF emptyBuffer_inv this] show ?thesis
    using \<open>accept emptyBuffer _ = _\<close> by simp
qed

text \<open>The client loop over a sequence of frames: the logical frames up to the first error.\<close>

fun acceptAll :: "wsFragmentBuffer \<Rightarrow> wsFrame list \<Rightarrow> (ws_error + wsFrame list) \<times> wsFragmentBuffer" where
  "acceptAll b [] = (Inr [], b)"
| "acceptAll b (f # fs) =
     (case accept b f of
        (Inl e, b') \<Rightarrow> (Inl e, b')
      | (Inr out, b') \<Rightarrow>
          (case acceptAll b' fs of
             (r, b'') \<Rightarrow> (mapR (\<lambda>ms. case out of None \<Rightarrow> ms | Some m \<Rightarrow> m # ms) r, b'')))"

definition contFrame :: "byte list \<Rightarrow> bool \<Rightarrow> wsFrame" where
  "contFrame p fin = \<lparr>Opcode = wsOpcodeContinuation, Payload = p, Fin = fin\<rparr>"

lemma acceptAll_append:
  "acceptAll b (fs @ gs) =
     (case acceptAll b fs of
        (Inl e, b') \<Rightarrow> (Inl e, b')
      | (Inr ms, b') \<Rightarrow> (case acceptAll b' gs of (r, b'') \<Rightarrow> (mapR (\<lambda>ns. ms @ ns) r, b'')))"
proof (induction fs arbitrary: b)
  case Nil
  then show ?case by (auto simp: mapR_def split: prod.splits sum.splits)
next
  case (Cons f fs)
  show ?case by (auto simp: Cons.IH mapR_def split: prod.splits sum.splits option.splits)
qed

lemma acceptAll_controls: "list_all validControl cs \<Longrightarrow> acceptAll b cs = (Inr cs, b)"
  by (induction cs) (auto simp: validControl_def isControl_def accept_def wsOpcode_defs)

lemma accept_continuation:
  assumes "bufOpcode b \<noteq> 0" "int (length (bufPayload b) + length p) \<le> maxWSMessageBytes"
  shows "accept b (contFrame p False) = (Inr None, b\<lparr>bufPayload := bufPayload b @ p\<rparr>)"
    "accept b (contFrame p True) =
       (Inr (Some \<lparr>Opcode = bufOpcode b, Payload = bufPayload b @ p, Fin = True\<rparr>), emptyBuffer)"
  using assms by (simp_all add: accept_def contFrame_def wsOpcode_defs emptyBuffer_def)

lemma acceptAll_middle:
  assumes "bufOpcode b \<noteq> 0" "list_all (\<lambda>(cs, p). list_all validControl cs) mids"
    and "int (length (bufPayload b) + length (concat (map snd mids))) \<le> maxWSMessageBytes"
  shows "acceptAll b (concat (map (\<lambda>(cs, p). cs @ [contFrame p False]) mids)) =
     (Inr (concat (map fst mids)), b\<lparr>bufPayload := bufPayload b @ concat (map snd mids)\<rparr>)"
  using assms
proof (induction mids arbitrary: b)
  case (Cons m mids)
  obtain cs p where m: "m = (cs, p)" by fastforce
  let ?b = "b\<lparr>bufPayload := bufPayload b @ p\<rparr>"
  have "acceptAll ?b (concat (map (\<lambda>(cs, p). cs @ [contFrame p False]) mids)) =
      (Inr (concat (map fst mids)), ?b\<lparr>bufPayload := bufPayload ?b @ concat (map snd mids)\<rparr>)"
    using Cons.prems m by (intro Cons.IH) auto
  moreover have "accept b (contFrame p False) = (Inr None, ?b)"
    using Cons.prems m by (intro accept_continuation) auto
  ultimately show ?case using m Cons.prems(2) by (simp add: acceptAll_append acceptAll_controls)
qed simp

text \<open>
  C14: a message sent in any number of fragments, with any valid control frames between them, comes
  out as the control frames in their order followed by one final frame with the message's opcode
  and the concatenation of the fragments, and leaves the buffer empty.\<close>

theorem reassembly:
  assumes "op = wsOpcodeText \<or> op = wsOpcodeBinary"
    and "list_all (\<lambda>(cs, p). list_all validControl cs) mids" "list_all validControl cs'"
    and "int (length (p0 @ concat (map snd mids) @ p1)) \<le> maxWSMessageBytes"
  shows "acceptAll emptyBuffer
      (\<lparr>Opcode = op, Payload = p0, Fin = False\<rparr> #
       concat (map (\<lambda>(cs, p). cs @ [contFrame p False]) mids) @ cs' @ [contFrame p1 True]) =
     (Inr (concat (map fst mids) @ cs' @
        [\<lparr>Opcode = op, Payload = p0 @ concat (map snd mids) @ p1, Fin = True\<rparr>]), emptyBuffer)"
proof -
  let ?b = "\<lparr>bufOpcode = op, bufPayload = p0\<rparr>"
  let ?c = "\<lparr>bufOpcode = op, bufPayload = p0 @ concat (map snd mids)\<rparr>"
  have op: "op \<noteq> 0" "\<not> (op = wsOpcodePing \<or> op = wsOpcodePong \<or> op = wsOpcodeClose)"
    using assms(1) by (auto simp: wsOpcode_defs)
  have "accept emptyBuffer \<lparr>Opcode = op, Payload = p0, Fin = False\<rparr> = (Inr None, ?b)"
    using assms(1,4) op by (auto simp: accept_def emptyBuffer_def Let_def)
  moreover have "acceptAll ?b (concat (map (\<lambda>(cs, p). cs @ [contFrame p False]) mids)) =
      (Inr (concat (map fst mids)), ?c)"
    using acceptAll_middle [of ?b mids] assms(2,4) op by simp
  moreover have "accept ?c (contFrame p1 True) =
      (Inr (Some \<lparr>Opcode = op, Payload = p0 @ concat (map snd mids) @ p1, Fin = True\<rparr>), emptyBuffer)"
    using accept_continuation(2) [of ?c p1] assms(4) op by simp
  ultimately show ?thesis using assms(3) by (simp add: acceptAll_append acceptAll_controls)
qed

theorem reassembly_witness:
  "acceptAll emptyBuffer
      [\<lparr>Opcode = 1, Payload = [104], Fin = False\<rparr>, \<lparr>Opcode = 9, Payload = [], Fin = True\<rparr>,
       \<lparr>Opcode = 0, Payload = [101], Fin = False\<rparr>, \<lparr>Opcode = 0, Payload = [121], Fin = True\<rparr>] =
     (Inr [\<lparr>Opcode = 9, Payload = [], Fin = True\<rparr>, \<lparr>Opcode = 1, Payload = [104, 101, 121], Fin = True\<rparr>],
      emptyBuffer)"
  using reassembly [of 1 "[([\<lparr>Opcode = 9, Payload = [], Fin = True\<rparr>], [101])]" "[]" "[104]" "[121]"]
  by (simp add: wsOpcode_defs validControl_def isControl_def contFrame_def maxWSMessageBytes_def)

end
