(* ===== verification/Secrets.thy ===== *)
theory Secrets
  imports Go_Http Netip "HOL-Library.List_Lexorder" "HOL-Library.Char_ord"
begin

text \<open>
  Credential placeholders, \<^verbatim>\<open>proxy/secrets.go\<close>: the store, the keys a request uses, the binding of keys to
  an endpoint, and the rewriting of texts, headers, paths, queries and bodies. The placeholder
  grammar belongs to package \<^verbatim>\<open>env\<close> of another module; it is the record \<open>env_pkg\<close>, with what the
  code relies on as \<open>env_contract\<close>. A loop over placeholders is a partial function: it returns only
  if the package makes progress.
\<close>

section \<open>Model\<close>

record env_pkg =
  ContainsPlaceholder :: "string \<Rightarrow> bool"
  IndexPlaceholder :: "string \<Rightarrow> (nat \<times> nat) option"
  ParsePlaceholder :: "string \<Rightarrow> string option"
  PlaceholderPrefix :: string
  IsPassthrough :: "string \<Rightarrow> bool"

type_synonym secret_store = "string \<rightharpoonup> string"

datatype secret_error =
    CredentialEndpointMismatch string
  | UnresolvedPlaceholder string
  | BasicAuthDecode
  | HeaderUnresolved
  | QueryInvalid
  | FormName
  | FormNamePlaceholder
  | FormValue
  | BodyRead
  | BodyClose
  | BodyTooLarge
  | BodyNotTextual
  | BodyNotUTF8
  | InHeader string secret_error
  | InQuery string secret_error
  | InBody secret_error

text \<open>
  The messages, as they appear in deny reasons; what the library adds to one of its own errors is left
  out. A key consists of letters, digits and underscores, so that quoting it only adds the quotes.
\<close>

fun secretErrorMsg :: "env_pkg \<Rightarrow> secret_error \<Rightarrow> string" where
  "secretErrorMsg env (CredentialEndpointMismatch k) =
     ''credential_endpoint_mismatch: key '' @ [CHR 0x22] @ k @ [CHR 0x22] @ '' not bound to this endpoint''"
| "secretErrorMsg env (UnresolvedPlaceholder k) =
     ''unresolved placeholder'' @ (if k = [] then [] else CHR '' '' # PlaceholderPrefix env @ k)"
| "secretErrorMsg env BasicAuthDecode = ''basic auth decode''"
| "secretErrorMsg env HeaderUnresolved = ''unresolved placeholder in header''"
| "secretErrorMsg env QueryInvalid = ''query''"
| "secretErrorMsg env FormName = ''invalid form field name''"
| "secretErrorMsg env FormNamePlaceholder = ''credential placeholders in form field names are unsupported''"
| "secretErrorMsg env FormValue = ''invalid form field value''"
| "secretErrorMsg env BodyRead = ''request body credential rewrite''"
| "secretErrorMsg env BodyClose = ''request body credential rewrite''"
| "secretErrorMsg env BodyTooLarge = ''request body credential rewrite exceeds 262144 bytes''"
| "secretErrorMsg env BodyNotTextual = ''request body credential rewrite requires a supported textual content type''"
| "secretErrorMsg env BodyNotUTF8 = ''request body credential rewrite requires valid UTF-8''"
| "secretErrorMsg env (InHeader k err) = ''header '' @ k @ '': '' @ secretErrorMsg env err"
| "secretErrorMsg env (InQuery k err) = ''query '' @ k @ '': '' @ secretErrorMsg env err"
| "secretErrorMsg env (InBody err) = ''request body credential rewrite: '' @ secretErrorMsg env err"

definition FilterSecrets :: "secret_store \<Rightarrow> string list \<Rightarrow> secret_store" where
  "FilterSecrets secrets allowed =
     (if allowed = [] then Map.empty
      else foldl (\<lambda>out k. case secrets k of Some v \<Rightarrow> out(k \<mapsto> v) | None \<Rightarrow> out) Map.empty allowed)"

subsection \<open>The keys of a text\<close>

definition isKeyByte :: "char \<Rightarrow> bool" where
  "isKeyByte c \<longleftrightarrow> isUpperAlpha c \<or> isLowerAlpha c \<or> isDigit c \<or> c = CHR ''_''"

partial_function (option) keysLoop :: "env_pkg \<Rightarrow> string \<Rightarrow> string list \<Rightarrow> string list option" where
  "keysLoop env rest out =
     (case IndexPlaceholder env rest of
        None \<Rightarrow> Some out
      | Some (i, prefixLen) \<Rightarrow>
          (let rest' = drop i rest in
           if prefixLen > length rest' then Some out
           else
             (let key = takeWhile isKeyByte (drop prefixLen rest') in
              keysLoop env (drop (prefixLen + length key) rest') (if key \<noteq> [] then out @ [key] else out))))"

definition placeholderKeysInString :: "env_pkg \<Rightarrow> string \<Rightarrow> string list option" where
  "placeholderKeysInString env s = (if \<not> ContainsPlaceholder env s then Some [] else keysLoop env s [])"

subsection \<open>Requests\<close>

record req_body =
  bodyData :: string
  bodyReadErr :: bool
  bodyCloseErr :: bool

record http_request =
  reqMethod :: string
  reqURL :: "http_url option"
  reqHeader :: http_header
  reqBody :: "req_body option"
  reqContentLength :: int
  reqTransferEncoding :: "string list"

definition basicPayload :: "string \<Rightarrow> string option" where
  "basicPayload v =
     (let trimmed = trimSpace v in
      if hasPrefix (toLower trimmed) ''basic '' then Some (trimSpace (drop 6 trimmed)) else None)"

text \<open>The strings that \<^verbatim>\<open>PlaceholderKeysInRequest\<close> scans, in order.\<close>

definition headerTexts :: "string \<Rightarrow> string list" where
  "headerTexts v =
     v # (case basicPayload v of
            None \<Rightarrow> []
          | Some enc \<Rightarrow> (case base64Decode enc of Some raw \<Rightarrow> [raw] | None \<Rightarrow> []))"

definition scannedTexts :: "http_request \<Rightarrow> string list" where
  "scannedTexts req =
     (case reqURL req of
        None \<Rightarrow> []
      | Some u \<Rightarrow> escapedPath u # (case pathUnescape (escapedPath u) of Some d \<Rightarrow> [d] | None \<Rightarrow> []) @ [RawQuery u])
     @ concat (map (\<lambda>kv. concat (map headerTexts (snd kv))) (reqHeader req))"

definition addUnseen :: "string list \<Rightarrow> string list \<Rightarrow> string list" where
  "addUnseen out ks = foldl (\<lambda>out k. if k \<in> set out then out else out @ [k]) out ks"

fun collectKeys :: "env_pkg \<Rightarrow> string list \<Rightarrow> string list \<Rightarrow> string list option" where
  "collectKeys env [] out = Some out"
| "collectKeys env (s # ss) out =
     (case placeholderKeysInString env s of
        None \<Rightarrow> None
      | Some ks \<Rightarrow> collectKeys env ss (addUnseen out ks))"

definition PlaceholderKeysInRequest :: "env_pkg \<Rightarrow> http_request \<Rightarrow> string list option" where
  "PlaceholderKeysInRequest env req = collectKeys env (scannedTexts req) []"

subsection \<open>Binding\<close>

fun checkUsed :: "string set \<Rightarrow> string list \<Rightarrow> secret_error + unit" where
  "checkUsed bound [] = Inr ()"
| "checkUsed bound (k # ks) =
     (let k' = trimSpace k in
      if k' = [] then checkUsed bound ks
      else if k' \<notin> bound then Inl (CredentialEndpointMismatch k')
      else checkUsed bound ks)"

definition SecretsForEndpoint :: "secret_store \<Rightarrow> string list \<Rightarrow> string list \<Rightarrow> secret_error + secret_store" where
  "SecretsForEndpoint secrets boundKeys usedKeys =
     (let bound = set (filter (\<lambda>k. k \<noteq> []) (map trimSpace boundKeys)) in
      bindR (checkUsed bound usedKeys) (\<lambda>_. Inr (FilterSecrets secrets boundKeys)))"

definition controlPlaneKeys :: "string list" where
  "controlPlaneKeys = [''CAUTEUM_SANDBOX_TOKEN'', ''CAUTEUM_GATEWAY_TOKEN'']"

definition loadEntry :: "env_pkg \<Rightarrow> secret_store \<Rightarrow> string \<Rightarrow> secret_store" where
  "loadEntry env out entry =
     (case cutByte entry (CHR ''='') of
        (k, v, ok) \<Rightarrow>
          if \<not> ok \<or> k = [] \<or> v = [] then out
          else if IsPassthrough env k then out
          else if k \<in> set controlPlaneKeys then out
          else out(k \<mapsto> v))"

definition LoadSecretsFromEnviron :: "env_pkg \<Rightarrow> string list \<Rightarrow> secret_store" where
  "LoadSecretsFromEnviron env environ = foldl (loadEntry env) Map.empty environ"

subsection \<open>Rewriting\<close>

partial_function (option) rewriteLoop ::
    "env_pkg \<Rightarrow> secret_store \<Rightarrow> string \<Rightarrow> string \<Rightarrow> (secret_error + string) option" where
  "rewriteLoop env secrets rest b =
     (case IndexPlaceholder env rest of
        None \<Rightarrow> Some (Inr (b @ rest))
      | Some (i, prefixLen) \<Rightarrow>
          (let b' = b @ take i rest; rest' = drop i rest in
           if prefixLen > length rest' then Some (Inl (UnresolvedPlaceholder []))
           else
             (let key = takeWhile isKeyByte (drop prefixLen rest') in
              if key = [] then Some (Inl (UnresolvedPlaceholder []))
              else (case secrets key of
                      None \<Rightarrow> Some (Inl (UnresolvedPlaceholder key))
                    | Some secret \<Rightarrow>
                        if secret = [] then Some (Inl (UnresolvedPlaceholder key))
                        else rewriteLoop env secrets (drop (prefixLen + length key) rest') (b' @ secret)))))"

definition rewriteText :: "env_pkg \<Rightarrow> string \<Rightarrow> secret_store \<Rightarrow> (secret_error + string) option" where
  "rewriteText env text secrets =
     (if \<not> ContainsPlaceholder env text then Some (Inr text) else rewriteLoop env secrets text [])"

definition RewriteText :: "env_pkg \<Rightarrow> string \<Rightarrow> secret_store \<Rightarrow> (secret_error + string) option" where
  "RewriteText env text secrets = rewriteText env text secrets"

definition resolveExact :: "env_pkg \<Rightarrow> string \<Rightarrow> secret_store \<Rightarrow> string option" where
  "resolveExact env token secrets =
     (case ParsePlaceholder env token of
        None \<Rightarrow> None
      | Some key \<Rightarrow> (case secrets key of Some secret \<Rightarrow> if secret \<noteq> [] then Some secret else None | None \<Rightarrow> None))"

definition indexSpaceTab :: "string \<Rightarrow> nat option" where
  "indexSpaceTab s =
     (let i = length (takeWhile (\<lambda>c. c \<noteq> CHR '' '' \<and> c \<noteq> CHR 0x09) s) in if i < length s then Some i else None)"

definition rewriteBasic :: "env_pkg \<Rightarrow> string \<Rightarrow> string \<Rightarrow> secret_store \<Rightarrow> (secret_error + string) option" where
  "rewriteBasic env value enc secrets =
     (case base64Decode enc of
        None \<Rightarrow> Some (if ContainsPlaceholder env (trimSpace value) then Inl BasicAuthDecode else Inr value)
      | Some decoded \<Rightarrow>
          if ContainsPlaceholder env decoded then
            map_option (mapR (\<lambda>rewritten. ''Basic '' @ base64Encode rewritten)) (rewriteText env decoded secrets)
          else Some (Inr value))"

definition rewriteHeaderValue :: "env_pkg \<Rightarrow> string \<Rightarrow> secret_store \<Rightarrow> (secret_error + string) option" where
  "rewriteHeaderValue env value secrets =
     (let trimmed = trimSpace value in
      case basicPayload value of
        Some enc \<Rightarrow> rewriteBasic env value enc secrets
      | None \<Rightarrow>
          if \<not> ContainsPlaceholder env trimmed then Some (Inr value)
          else (case resolveExact env trimmed secrets of
            Some secret \<Rightarrow> Some (Inr secret)
          | None \<Rightarrow>
              (case indexSpaceTab trimmed of
                 Some i \<Rightarrow>
                   if i > 0 then
                     (let prefix = take i trimmed; cand = trimSpace (drop i trimmed) in
                      case resolveExact env cand secrets of
                        Some secret \<Rightarrow> Some (Inr (prefix @ '' '' @ secret))
                      | None \<Rightarrow>
                          if ContainsPlaceholder env cand then Some (Inl HeaderUnresolved)
                          else rewriteText env trimmed secrets)
                   else rewriteText env trimmed secrets
               | None \<Rightarrow> rewriteText env trimmed secrets)))"

definition rewritePath :: "env_pkg \<Rightarrow> string \<Rightarrow> secret_store \<Rightarrow> (secret_error + string) option" where
  "rewritePath env path secrets =
     (if path = [] \<or> \<not> ContainsPlaceholder env path then
        (case pathUnescape path of
           None \<Rightarrow> Some (Inr path)
         | Some decoded \<Rightarrow>
             if \<not> ContainsPlaceholder env decoded then Some (Inr path) else rewriteText env decoded secrets)
      else rewriteText env (case pathUnescape path of Some decoded \<Rightarrow> decoded | None \<Rightarrow> path) secrets)"

text \<open>
  \<^verbatim>\<open>url.ParseQuery\<close>: the values by key, or \<^const>\<open>None\<close> if any pair has a semicolon or a bad escape;
  \<^verbatim>\<open>Values.Encode\<close> sorts the keys.
\<close>

fun parseQueryPairs :: "(string \<times> string list) list \<Rightarrow> string list \<Rightarrow> (string \<times> string list) list option" where
  "parseQueryPairs acc [] = Some acc"
| "parseQueryPairs acc (pair # pairs) =
     (if CHR '';'' \<in> set pair then None
      else if pair = [] then parseQueryPairs acc pairs
      else (case cutByte pair (CHR ''='') of
        (key, value, _) \<Rightarrow>
          (case (queryUnescape key, queryUnescape value) of
             (Some k, Some v) \<Rightarrow>
               parseQueryPairs (hdrPut k ((case map_of acc k of None \<Rightarrow> [] | Some vs \<Rightarrow> vs) @ [v]) acc) pairs
           | _ \<Rightarrow> None)))"

definition parseQueryValues :: "string \<Rightarrow> (string \<times> string list) list option" where
  "parseQueryValues raw = parseQueryPairs [] (splitByte (CHR ''&'') raw)"

definition encodeValues :: "(string \<times> string list) list \<Rightarrow> string" where
  "encodeValues q =
     join (concat (map (\<lambda>(k, vs). map (\<lambda>v. queryEscape k @ ''='' @ queryEscape v) vs) (sort_key fst q))) ''&''"

definition rewriteQuery :: "env_pkg \<Rightarrow> string \<Rightarrow> secret_store \<Rightarrow> (secret_error + string) option" where
  "rewriteQuery env raw secrets =
     (if raw = [] \<or> \<not> ContainsPlaceholder env raw then Some (Inr raw)
      else (case parseQueryValues raw of
        None \<Rightarrow> Some (Inl QueryInvalid)
      | Some q \<Rightarrow>
          bindOR (traverseOR (\<lambda>(k, vs). map_option (mapLR (InQuery k) (Pair k)) (traverseOR (\<lambda>v. rewriteText env v secrets) vs)) q)
            (\<lambda>q'. Some (Inr (if q' = q then raw else encodeValues q')))))"

definition rewriteFormField :: "env_pkg \<Rightarrow> secret_store \<Rightarrow> string \<Rightarrow> (secret_error + string) option" where
  "rewriteFormField env secrets field =
     (case cutByte field (CHR ''='') of
        (key, value, hasValue) \<Rightarrow>
          (case queryUnescape key of
             None \<Rightarrow> Some (Inl FormName)
           | Some decodedKey \<Rightarrow>
               if ContainsPlaceholder env decodedKey then Some (Inl FormNamePlaceholder)
               else if \<not> hasValue then Some (Inr field)
               else (case queryUnescape value of
                 None \<Rightarrow> Some (Inl FormValue)
               | Some decodedValue \<Rightarrow>
                   if \<not> ContainsPlaceholder env decodedValue then Some (Inr field)
                   else map_option (mapR (\<lambda>v. key @ ''='' @ queryEscape v)) (rewriteText env decodedValue secrets))))"

definition rewriteFormBody :: "env_pkg \<Rightarrow> string \<Rightarrow> secret_store \<Rightarrow> (secret_error + string) option" where
  "rewriteFormBody env body secrets =
     bindOR (traverseOR (rewriteFormField env secrets) (splitByte (CHR ''&'') body))
       (\<lambda>fields. Some (Inr (join fields ''&'')))"

definition maxCredentialRewriteBodyBytes :: int where
  "maxCredentialRewriteBodyBytes = 256 * 2 ^ 10"

definition withBody :: "http_request \<Rightarrow> string \<Rightarrow> http_request" where
  "withBody req body =
     req\<lparr>reqBody := Some \<lparr>bodyData = body, bodyReadErr = False, bodyCloseErr = False\<rparr>,
         reqContentLength := int (length body)\<rparr>"

definition setRewrittenBody :: "http_request \<Rightarrow> string \<Rightarrow> http_request" where
  "setRewrittenBody req body =
     (let req' = withBody req body in
      req'\<lparr>reqHeader := hdrSet (hdrDel (reqHeader req') ''Transfer-Encoding'') ''Content-Length'' (itoa (int (length body)))\<rparr>)"

text \<open>
  \<open>mediaTypeOf\<close> is the first result of \<^verbatim>\<open>mime.ParseMediaType\<close>. The limited read sees the read error of
  the body only when the body ends before the limit.
\<close>

definition rewriteRequestBody ::
    "env_pkg \<Rightarrow> (string \<Rightarrow> string) \<Rightarrow> http_request \<Rightarrow> secret_store \<Rightarrow> (secret_error + http_request) option" where
  "rewriteRequestBody env mediaTypeOf req secrets =
     (case reqBody req of
        None \<Rightarrow> Some (Inr req)
      | Some rb \<Rightarrow>
          (let body = bodyData rb; tooLong = int (length body) > maxCredentialRewriteBodyBytes in
           if bodyReadErr rb \<and> \<not> tooLong then Some (Inl BodyRead)
           else if bodyCloseErr rb then Some (Inl BodyClose)
           else if tooLong then Some (Inl BodyTooLarge)
           else
             (let mediaType = toLower (mediaTypeOf (hdrGet (reqHeader req) ''Content-Type''));
                  textual = hasPrefix mediaType ''text/'' \<or> mediaType = ''application/json'' \<or>
                            mediaType = ''application/x-www-form-urlencoded'' in
              if \<not> textual then
                (if ContainsPlaceholder env body then Some (Inl BodyNotTextual) else Some (Inr (withBody req body)))
              else if \<not> validUTF8 body then
                (if ContainsPlaceholder env body then Some (Inl BodyNotUTF8) else Some (Inr (withBody req body)))
              else
                map_option (mapLR InBody (setRewrittenBody req))
                  (if mediaType = ''application/x-www-form-urlencoded'' then rewriteFormBody env body secrets
                   else rewriteText env body secrets))))"

definition rewriteURL :: "env_pkg \<Rightarrow> http_url \<Rightarrow> secret_store \<Rightarrow> (secret_error + http_url) option" where
  "rewriteURL env u secrets =
     (let marker = [encodedSlash];
          protectedPath = replaceAll (replaceAll (escapedPath u) ''%2F'' marker) ''%2f'' marker in
      bindOR (rewritePath env protectedPath secrets) (\<lambda>path.
      bindOR (rewriteQuery env (RawQuery u) secrets) (\<lambda>rawQuery.
        (let u' = (if path \<noteq> protectedPath then
                     (if contains path marker then
                        u\<lparr>Path := replaceAll path marker ''/'', RawPath := replaceAll path marker ''%2F''\<rparr>
                      else u\<lparr>Path := path, RawPath := []\<rparr>)
                   else u) in
         Some (Inr (u'\<lparr>RawQuery := rawQuery\<rparr>))))))"

definition rewriteHeaders :: "env_pkg \<Rightarrow> http_header \<Rightarrow> secret_store \<Rightarrow> (secret_error + http_header) option" where
  "rewriteHeaders env h secrets =
     traverseOR (\<lambda>(k, vs). map_option (mapLR (InHeader k) (Pair k)) (traverseOR (\<lambda>v. rewriteHeaderValue env v secrets) vs)) h"

definition RewriteHTTPRequestWithOptions ::
    "env_pkg \<Rightarrow> (string \<Rightarrow> string) \<Rightarrow> http_request \<Rightarrow> secret_store \<Rightarrow> bool \<Rightarrow> (secret_error + http_request) option" where
  "RewriteHTTPRequestWithOptions env mediaTypeOf req secrets rewriteBody =
     bindOR (case reqURL req of
               None \<Rightarrow> Some (Inr None)
             | Some u \<Rightarrow> map_option (mapR Some) (rewriteURL env u secrets)) (\<lambda>url.
     bindOR (rewriteHeaders env (reqHeader req) secrets) (\<lambda>header.
       (let req' = req\<lparr>reqURL := url, reqHeader := header\<rparr> in
        if rewriteBody then rewriteRequestBody env mediaTypeOf req' secrets else Some (Inr req'))))"

definition RewriteHTTPRequest ::
    "env_pkg \<Rightarrow> (string \<Rightarrow> string) \<Rightarrow> http_request \<Rightarrow> secret_store \<Rightarrow> (secret_error + http_request) option" where
  "RewriteHTTPRequest env mediaTypeOf req secrets = RewriteHTTPRequestWithOptions env mediaTypeOf req secrets False"

declare keysLoop.simps [code] rewriteLoop.simps [code]

section \<open>Contract of the placeholder package\<close>

text \<open>
  \<^verbatim>\<open>IndexPlaceholder\<close> finds a marker exactly when \<^verbatim>\<open>ContainsPlaceholder\<close> says there is one, and reports a
  non-empty prefix inside the string.
\<close>

definition env_contract :: "env_pkg \<Rightarrow> bool" where
  "env_contract env \<longleftrightarrow>
     (\<forall>s. IndexPlaceholder env s = None \<longleftrightarrow> \<not> ContainsPlaceholder env s) \<and>
     (\<forall>s i n. IndexPlaceholder env s = Some (i, n) \<longrightarrow> 0 < n \<and> i + n \<le> length s)"

lemma env_index:
  assumes "env_contract env" "IndexPlaceholder env s = Some (i, n)"
  shows "0 < n" "i + n \<le> length s"
  using assms unfolding env_contract_def by blast+

lemma env_contains:
  assumes "env_contract env"
  shows "IndexPlaceholder env s = None \<longleftrightarrow> \<not> ContainsPlaceholder env s"
  using assms unfolding env_contract_def by blast

text \<open>One marker of a text: the literal before it, the prefix, the key; and what replaces it.\<close>

type_synonym marker = "string \<times> string \<times> string"

definition markerText :: "marker \<Rightarrow> string" where
  "markerText m = fst m @ fst (snd m) @ snd (snd m)"

definition markerKey :: "marker \<Rightarrow> string" where
  "markerKey m = snd (snd m)"

definition markerSecret :: "secret_store \<Rightarrow> marker \<Rightarrow> string" where
  "markerSecret secrets m = fst m @ the (secrets (markerKey m))"

lemma marker_bounds:
  assumes "i + n \<le> length rest"
  shows "(length (drop i rest) < n) = False" "drop n (drop i rest) = drop (i + n) rest"
    "drop (n + k) (drop i rest) = drop (i + n + k) rest"
  using assms by (auto simp: add.commute add.left_commute)

lemma keysLoop_step:
  assumes "env_contract env" "IndexPlaceholder env rest = Some (i, n)"
    and "key = takeWhile isKeyByte (drop (i + n) rest)"
  shows "keysLoop env rest out =
      keysLoop env (drop (i + n + length key) rest) (if key \<noteq> [] then out @ [key] else out)"
  using marker_bounds [OF env_index(2) [OF assms(1,2)]] assms(2,3)
  by (subst keysLoop.simps) (simp add: Let_def del: drop_drop length_drop)

lemma rest_split:
  assumes "i + n \<le> length rest" "key = takeWhile isKeyByte (drop (i + n) rest)"
  shows "rest = markerText (take i rest, take n (drop i rest), key) @ drop (i + n + length key) rest"
proof -
  have "take (length key) (drop (i + n) rest) = key"
    unfolding assms(2) by (rule takeWhile_eq_take [symmetric])
  then have "drop (i + n) rest = key @ drop (i + n + length key) rest"
    by (metis append_take_drop_id add.commute drop_drop)
  moreover have "rest = take i rest @ take n (drop i rest) @ drop (i + n) rest"
    by (metis append_take_drop_id add.commute drop_drop)
  ultimately show ?thesis by (simp add: markerText_def)
qed

lemma keysLoop_returns:
  assumes "env_contract env"
  shows "\<exists>ks. keysLoop env rest out = Some ks"
proof (induction "length rest" arbitrary: rest out rule: less_induct)
  case less
  show ?case
  proof (cases "IndexPlaceholder env rest")
    case None
    then show ?thesis by (subst keysLoop.simps) simp
  next
    case (Some ix)
    obtain i n where ix: "ix = (i, n)" by fastforce
    note step = keysLoop_step [OF assms, of rest i n _ out, OF _ refl]
    have "length (drop (i + n + k) rest) < length rest" for k
      using env_index [OF assms, of rest i n] Some ix by auto
    then show ?thesis using step less.hyps Some ix by simp
  qed
qed

lemma rewriteLoop_step:
  assumes "env_contract env" "IndexPlaceholder env rest = Some (i, n)"
    and "key = takeWhile isKeyByte (drop (i + n) rest)"
  shows "rewriteLoop env secrets rest b =
      (if key = [] then Some (Inl (UnresolvedPlaceholder []))
       else case secrets key of
              None \<Rightarrow> Some (Inl (UnresolvedPlaceholder key))
            | Some secret \<Rightarrow>
                if secret = [] then Some (Inl (UnresolvedPlaceholder key))
                else rewriteLoop env secrets (drop (i + n + length key) rest) (b @ take i rest @ secret))"
  using marker_bounds [OF env_index(2) [OF assms(1,2)]] assms(2,3)
  by (subst rewriteLoop.simps) (simp add: Let_def del: drop_drop length_drop split: option.split)

lemma rewriteLoop_returns:
  assumes "env_contract env"
  shows "\<exists>r. rewriteLoop env secrets rest b = Some r"
proof (induction "length rest" arbitrary: rest b rule: less_induct)
  case less
  show ?case
  proof (cases "IndexPlaceholder env rest")
    case None
    then show ?thesis by (subst rewriteLoop.simps) simp
  next
    case (Some ix)
    obtain i n where ix: "ix = (i, n)" by fastforce
    have "length (drop (i + n + k) rest) < length rest" for k
      using env_index [OF assms, of rest i n] Some ix by auto
    then show ?thesis
      using rewriteLoop_step [OF assms _ refl, of rest i n secrets b] less.hyps Some ix
      by (auto split: option.split)
  qed
qed

lemma rewriteLoop_markers:
  assumes "env_contract env" "rewriteLoop env secrets rest b = Some (Inr out)"
  shows "\<exists>ms final. rest = concat (map markerText ms) @ final \<and>
     out = b @ concat (map (markerSecret secrets) ms) @ final \<and>
     keysLoop env rest ks = Some (ks @ map markerKey ms) \<and>
     list_all (\<lambda>m. \<exists>v. v \<noteq> [] \<and> secrets (markerKey m) = Some v) ms"
  using assms(2)
proof (induction "length rest" arbitrary: rest b ks rule: less_induct)
  case less
  show ?case
  proof (cases "IndexPlaceholder env rest")
    case None
    then have "out = b @ rest" using less.prems by (simp add: rewriteLoop.simps)
    moreover have "keysLoop env rest ks = Some ks" using None by (simp add: keysLoop.simps)
    ultimately show ?thesis by (intro exI [of _ "[]"] exI [of _ rest]) simp
  next
    case (Some ix)
    obtain i n where ix: "IndexPlaceholder env rest = Some (i, n)" using Some by (cases ix) auto
    define key where "key = takeWhile isKeyByte (drop (i + n) rest)"
    let ?rest = "drop (i + n + length key) rest"
    let ?m = "(take i rest, take n (drop i rest), key)"
    note bounds = env_index [OF assms(1) ix]
    obtain v where key: "key \<noteq> []" and v: "secrets key = Some v" "v \<noteq> []"
      and rec: "rewriteLoop env secrets ?rest (b @ take i rest @ v) = Some (Inr out)"
      using rewriteLoop_step [OF assms(1) ix key_def] less.prems by (auto split: if_splits option.splits)
    have "length ?rest < length rest" using bounds by auto
    from less.hyps [OF this rec, of "ks @ [key]"] obtain ms final where ms:
      "?rest = concat (map markerText ms) @ final"
      "out = (b @ take i rest @ v) @ concat (map (markerSecret secrets) ms) @ final"
      "keysLoop env ?rest (ks @ [key]) = Some ((ks @ [key]) @ map markerKey ms)"
      "list_all (\<lambda>m. \<exists>v. v \<noteq> [] \<and> secrets (markerKey m) = Some v) ms"
      by blast
    have "keysLoop env rest ks = keysLoop env ?rest (ks @ [key])"
      using keysLoop_step [OF assms(1) ix key_def] key by simp
    moreover have "rest = markerText ?m @ ?rest" by (rule rest_split [OF bounds(2) key_def])
    ultimately show ?thesis using ms v
      by (intro exI [of _ "?m # ms"] exI [of _ final]) (simp add: markerKey_def markerSecret_def)
  qed
qed

section \<open>Everything returns\<close>

lemma rewriteText_returns: "env_contract env \<Longrightarrow> \<exists>r. rewriteText env text secrets = Some r"
  by (simp add: rewriteText_def rewriteLoop_returns)

lemma map_option_returns: "\<exists>r. m = Some r \<Longrightarrow> \<exists>r. map_option f m = Some r"
  by auto

lemma rewriteHeaderValue_returns: "env_contract env \<Longrightarrow> \<exists>r. rewriteHeaderValue env v secrets = Some r"
  using rewriteText_returns [of env]
  by (simp add: rewriteHeaderValue_def rewriteBasic_def Let_def split: option.split)

lemma rewriteHeaders_returns: "env_contract env \<Longrightarrow> \<exists>r. rewriteHeaders env h secrets = Some r"
  unfolding rewriteHeaders_def
  by (rule traverseOR_returns)
    (auto simp: split_beta intro!: map_option_returns traverseOR_returns rewriteHeaderValue_returns)

lemma rewritePath_returns: "env_contract env \<Longrightarrow> \<exists>r. rewritePath env p secrets = Some r"
  using rewriteText_returns [of env] by (simp add: rewritePath_def split: option.split)

lemma rewriteQuery_returns: "env_contract env \<Longrightarrow> \<exists>r. rewriteQuery env raw secrets = Some r"
  unfolding rewriteQuery_def
  by (auto simp: split_beta split: option.split
      intro!: bindOR_returns traverseOR_returns map_option_returns rewriteText_returns)

lemma rewriteURL_returns: "env_contract env \<Longrightarrow> \<exists>r. rewriteURL env u secrets = Some r"
  unfolding rewriteURL_def Let_def by (intro bindOR_returns rewritePath_returns rewriteQuery_returns) auto

lemma rewriteFormBody_returns: "env_contract env \<Longrightarrow> \<exists>r. rewriteFormBody env body secrets = Some r"
  unfolding rewriteFormBody_def
  using rewriteText_returns [of env]
  by (intro bindOR_returns traverseOR_returns)
    (auto simp: rewriteFormField_def split_beta split: option.split)

lemma rewriteRequestBody_returns: "env_contract env \<Longrightarrow> \<exists>r. rewriteRequestBody env mt req secrets = Some r"
  by (auto simp: rewriteRequestBody_def Let_def split: option.split
      intro!: bindOR_returns rewriteText_returns rewriteFormBody_returns)

lemma collectKeys_returns: "env_contract env \<Longrightarrow> \<exists>ks. collectKeys env ss out = Some ks"
proof (induction ss arbitrary: out)
  case (Cons s ss)
  obtain ks where "placeholderKeysInString env s = Some ks"
    using keysLoop_returns [OF Cons.prems, of s "[]"]
    by (cases "ContainsPlaceholder env s") (auto simp: placeholderKeysInString_def)
  then show ?case using Cons by simp
qed simp

section \<open>The store\<close>

lemma foldl_filter_store:
  "foldl (\<lambda>out k. case secrets k of Some v \<Rightarrow> out(k \<mapsto> v) | None \<Rightarrow> out) m ks k =
     (if k \<in> set ks \<and> secrets k \<noteq> None then secrets k else m k)"
proof (induction ks arbitrary: m)
  case (Cons k' ks)
  then show ?case by (cases "secrets k'") auto
qed simp

lemma FilterSecrets_eq: "FilterSecrets secrets allowed = secrets |` set allowed"
  by (rule ext) (auto simp: FilterSecrets_def foldl_filter_store restrict_map_def)

lemma checkUsed_Inr: "checkUsed bound ks = Inr () \<longleftrightarrow> (\<forall>k \<in> set ks. trimSpace k \<noteq> [] \<longrightarrow> trimSpace k \<in> bound)"
  by (induction ks) (auto simp: Let_def)

lemma SecretsForEndpoint_Inr:
  "SecretsForEndpoint secrets boundKeys usedKeys = Inr st \<longleftrightarrow>
     st = secrets |` set boundKeys \<and> (\<forall>k \<in> set usedKeys. trimSpace k \<noteq> [] \<longrightarrow> trimSpace k \<in> trimSpace ` set boundKeys)"
  by (auto simp: SecretsForEndpoint_def Let_def FilterSecrets_eq checkUsed_Inr)

lemma loadEntry_keys:
  "loadEntry env out entry k = Some v \<Longrightarrow> out k \<noteq> Some v \<Longrightarrow>
     \<not> IsPassthrough env k \<and> k \<notin> set controlPlaneKeys \<and> v \<noteq> [] \<and> entry = k @ ''='' @ v"
  by (cases "cutByte entry (CHR ''='')")
    (auto simp: loadEntry_def dest: cutByte_spec split: if_splits)

lemma foldl_load_keys:
  assumes "foldl (loadEntry env) m environ k = Some v"
  shows "m k = Some v \<or>
     (\<not> IsPassthrough env k \<and> k \<notin> set controlPlaneKeys \<and> v \<noteq> [] \<and> k @ ''='' @ v \<in> set environ)"
  using assms
proof (induction environ arbitrary: m)
  case (Cons e es)
  then show ?case using loadEntry_keys [of env m e k v] by fastforce
qed simp

section \<open>Form bodies\<close>

definition fieldName :: "string \<Rightarrow> string" where
  "fieldName f = fst (cutByte f (CHR ''=''))"

definition fieldValue :: "string \<Rightarrow> string" where
  "fieldValue f = fst (snd (cutByte f (CHR ''='')))"

text \<open>A field after the rewriting: the same, or with the same name and the rewritten value.\<close>

definition fieldRewritten :: "env_pkg \<Rightarrow> secret_store \<Rightarrow> string \<Rightarrow> string \<Rightarrow> bool" where
  "fieldRewritten env secrets f f' \<longleftrightarrow>
     f' = f \<or>
     (fieldName f' = fieldName f \<and>
      (\<exists>d v. queryUnescape (fieldValue f) = Some d \<and> rewriteText env d secrets = Some (Inr v) \<and>
             queryUnescape (fieldValue f') = Some v))"

lemma cutByte_no_sep: "t \<notin> set (fst (cutByte s t))"
  using cutByte_spec [of s t] by (cases "cutByte s t") auto

lemma rewriteFormField_shape:
  assumes "rewriteFormField env secrets f = Some (Inr f')"
  shows "fieldRewritten env secrets f f'" "CHR ''&'' \<notin> set f \<Longrightarrow> CHR ''&'' \<notin> set f'"
proof -
  obtain key val has where cut: "cutByte f (CHR ''='') = (key, val, has)" by (metis prod_cases3)
  then have key: "CHR ''='' \<notin> set key" "set key \<subseteq> set f"
    using cutByte_spec [OF cut] by (auto split: if_splits)
  from assms cut consider "f' = f" | d v where "queryUnescape val = Some d" "rewriteText env d secrets = Some (Inr v)"
      "f' = key @ ''='' @ queryEscape v"
    by (auto simp: rewriteFormField_def split: option.splits if_splits)
  then have "fieldRewritten env secrets f f' \<and> (CHR ''&'' \<notin> set f \<longrightarrow> CHR ''&'' \<notin> set f')"
  proof cases
    case 2
    then show ?thesis using cut key
      by (auto simp: fieldRewritten_def fieldName_def fieldValue_def cutByte_append)
  qed (simp add: fieldRewritten_def)
  then show "fieldRewritten env secrets f f'" "CHR ''&'' \<notin> set f \<Longrightarrow> CHR ''&'' \<notin> set f'" by blast+
qed

section \<open>A concrete placeholder package\<close>

text \<open>
  An instance of the contract with one marker prefix, used to show that the hypotheses can hold.
\<close>

definition sampleMarker :: string where
  "sampleMarker = ''cauteum:resolve:env:''"

definition sampleEnv :: env_pkg where
  "sampleEnv =
     \<lparr>ContainsPlaceholder = (\<lambda>s. contains s sampleMarker),
      IndexPlaceholder = (\<lambda>s. map_option (\<lambda>i. (i, length sampleMarker)) (index s sampleMarker)),
      ParsePlaceholder = (\<lambda>s. if hasPrefix s sampleMarker then Some (drop (length sampleMarker) s) else None),
      PlaceholderPrefix = ''cauteum:resolve:env:'', IsPassthrough = (\<lambda>k. k = ''PATH'')\<rparr>"

lemma index_bound: "index s p = Some i \<Longrightarrow> i + length p \<le> length s"
proof (induction s arbitrary: i)
  case (Cons c cs)
  show ?case
  proof (cases "hasPrefix (c # cs) p")
    case True
    then have "length (take (length p) (c # cs)) = length p" by (simp add: hasPrefix_def)
    then show ?thesis using True Cons.prems by simp
  qed (use Cons in auto)
qed (auto split: if_splits)

lemma sampleEnv_contract: "env_contract sampleEnv"
proof -
  have "0 < length sampleMarker" by (simp add: sampleMarker_def)
  then show ?thesis by (auto simp: env_contract_def sampleEnv_def contains_def dest: index_bound)
qed

section \<open>Properties\<close>

text \<open>
  C17: a rewritten text is the original with each marker replaced by the secret of its key, all
  else unchanged; every key that is substituted is one that the scan of the same text reports to
  the endpoint binding, and no empty or missing secret is ever substituted.\<close>

theorem rewriteText_substitutes:
  assumes "env_contract env" "rewriteText env text secrets = Some (Inr out)"
  shows "\<exists>ms final. text = concat (map markerText ms) @ final \<and>
     out = concat (map (markerSecret secrets) ms) @ final \<and>
     placeholderKeysInString env text = Some (map markerKey ms) \<and>
     list_all (\<lambda>m. \<exists>v. v \<noteq> [] \<and> secrets (markerKey m) = Some v) ms"
proof (cases "ContainsPlaceholder env text")
  case True
  then have "rewriteLoop env secrets text [] = Some (Inr out)" using assms(2) by (simp add: rewriteText_def)
  from rewriteLoop_markers [OF assms(1) this, of "[]"] show ?thesis
    using True by (simp add: placeholderKeysInString_def)
next
  case False
  then show ?thesis using assms(2)
    by (intro exI [of _ "[]"] exI [of _ "text"]) (simp add: rewriteText_def placeholderKeysInString_def)
qed

definition sampleStore :: secret_store where
  "sampleStore = [''KEY'' \<mapsto> ''s3cret'', ''OTHER'' \<mapsto> ''x'']"

lemma sample_rewrite: "rewriteText sampleEnv ''a cauteum:resolve:env:KEY b'' sampleStore = Some (Inr ''a s3cret b'')"
  by code_simp

theorem rewriteText_substitutes_witness:
  "\<exists>ms final. ''a cauteum:resolve:env:KEY b'' = concat (map markerText ms) @ final \<and>
     ''a s3cret b'' = concat (map (markerSecret sampleStore) ms) @ final \<and>
     placeholderKeysInString sampleEnv ''a cauteum:resolve:env:KEY b'' = Some (map markerKey ms) \<and>
     list_all (\<lambda>m. \<exists>v. v \<noteq> [] \<and> sampleStore (markerKey m) = Some v) ms"
  by (rule rewriteText_substitutes [OF sampleEnv_contract sample_rewrite])

text \<open>
  C8: the store handed to the rewriting holds only secrets whose key the endpoint binds, a request
  that mentions an unbound key is refused, and the store depends on no other secret.\<close>

theorem endpoint_binding:
  assumes "SecretsForEndpoint secrets boundKeys usedKeys = Inr st"
  shows "dom st \<subseteq> set boundKeys \<and> st \<subseteq>\<^sub>m secrets \<and>
     list_all (\<lambda>k. trimSpace k = [] \<or> trimSpace k \<in> set (map trimSpace boundKeys)) usedKeys \<and>
     (list_all (\<lambda>k. other k = secrets k) boundKeys \<longrightarrow> SecretsForEndpoint other boundKeys usedKeys = Inr st)"
proof -
  from assms have st: "st = secrets |` set boundKeys"
    and used: "\<forall>k \<in> set usedKeys. trimSpace k \<noteq> [] \<longrightarrow> trimSpace k \<in> trimSpace ` set boundKeys"
    unfolding SecretsForEndpoint_Inr by blast+
  have "list_all (\<lambda>k. other k = secrets k) boundKeys \<Longrightarrow> other |` set boundKeys = secrets |` set boundKeys"
    by (rule ext) (auto simp: restrict_map_def list_all_iff)
  then show ?thesis using st used
    unfolding SecretsForEndpoint_Inr by (auto simp: list_all_iff map_le_def restrict_map_def split: if_splits)
qed

theorem endpoint_binding_witness:
  "\<exists>st. SecretsForEndpoint sampleStore [''KEY''] [''KEY''] = Inr st \<and> dom st \<subseteq> set [''KEY'']"
proof -
  have "SecretsForEndpoint sampleStore [''KEY''] [''KEY''] = Inr (sampleStore |` set [''KEY''])"
    unfolding SecretsForEndpoint_Inr by simp
  with endpoint_binding [OF this] show ?thesis by blast
qed

text \<open>
  The store built from the environment never holds a control-plane token or a passthrough
  variable, and each of its entries is a non-empty assignment of the environment.\<close>

lemma LoadSecrets_excludes:
  assumes "LoadSecretsFromEnviron env environ k = Some v"
  shows "k \<notin> set controlPlaneKeys \<and> \<not> IsPassthrough env k \<and> v \<noteq> [] \<and> k @ ''='' @ v \<in> set environ"
  using foldl_load_keys [of env Map.empty environ k v] assms by (simp add: LoadSecretsFromEnviron_def)

lemma LoadSecrets_excludes_witness:
  "''KEY=v'' \<in> set [''CAUTEUM_GATEWAY_TOKEN=t'', ''PATH=/bin'', ''KEY=v'']"
proof -
  have "LoadSecretsFromEnviron sampleEnv [''CAUTEUM_GATEWAY_TOKEN=t'', ''PATH=/bin'', ''KEY=v''] ''KEY'' = Some ''v''"
    by code_simp
  from LoadSecrets_excludes [OF this] show ?thesis by simp
qed

text \<open>
  With a placeholder package that makes progress, the scan and the rewriting of a whole
  request always return, with a rewritten request or an error.\<close>

lemma rewriting_returns:
  assumes "env_contract env"
  shows "(\<exists>ks. PlaceholderKeysInRequest env req = Some ks) \<and>
     (\<exists>r. RewriteHTTPRequestWithOptions env mt req secrets rewriteBody = Some r)"
proof
  show "\<exists>ks. PlaceholderKeysInRequest env req = Some ks"
    using collectKeys_returns [OF assms] by (simp add: PlaceholderKeysInRequest_def)
  show "\<exists>r. RewriteHTTPRequestWithOptions env mt req secrets rewriteBody = Some r"
    unfolding RewriteHTTPRequestWithOptions_def Let_def
    by (intro bindOR_returns rewriteHeaders_returns [OF assms])
      (use assms rewriteURL_returns rewriteRequestBody_returns in \<open>auto split: option.split intro!: map_option_returns\<close>)
qed

lemma rewriting_returns_witness:
  "\<exists>ks. PlaceholderKeysInRequest sampleEnv
      \<lparr>reqMethod = ''GET'', reqURL = None, reqHeader = [(''Authorization'', [''Bearer x''])], reqBody = None,
       reqContentLength = 0, reqTransferEncoding = []\<rparr> = Some ks"
  using rewriting_returns [OF sampleEnv_contract] by blast

text \<open>
  C18: a secret cannot change the structure of a form body: the rewritten body has the same fields
  in the same order with the same names, and each changed value decodes to the rewritten one.\<close>

theorem rewriteFormBody_fields:
  assumes "rewriteFormBody env body secrets = Some (Inr out)"
  shows "list_all2 (fieldRewritten env secrets) (splitByte (CHR ''&'') body) (splitByte (CHR ''&'') out)"
proof -
  from assms obtain fields where
    t: "traverseOR (rewriteFormField env secrets) (splitByte (CHR ''&'') body) = Some (Inr fields)"
    and out: "out = join fields ''&''"
    by (auto simp: rewriteFormBody_def)
  note all2 = traverseOR_list_all2 [OF t]
  have "CHR ''&'' \<notin> set f'" if "f' \<in> set fields" for f'
  proof -
    from list_all2_in_set2 [OF all2 that]
    obtain f where "f \<in> set (splitByte (CHR ''&'') body)" "rewriteFormField env secrets f = Some (Inr f')"
      by blast
    then show ?thesis using rewriteFormField_shape(2) splitByte_no_sep by blast
  qed
  moreover have "fields \<noteq> []" using all2 by (cases fields) auto
  ultimately have "splitByte (CHR ''&'') out = fields" unfolding out by (intro splitByte_join) auto
  then show ?thesis using list_all2_mono [OF all2 rewriteFormField_shape(1)] by simp
qed

theorem rewriteFormBody_fields_witness:
  "list_all2 (fieldRewritten sampleEnv [''KEY'' \<mapsto> ''a&b=c''])
     (splitByte (CHR ''&'') ''x=1&y=cauteum:resolve:env:KEY'') (splitByte (CHR ''&'') ''x=1&y=a%26b%3Dc'')"
proof -
  have "rewriteFormBody sampleEnv ''x=1&y=cauteum:resolve:env:KEY'' [''KEY'' \<mapsto> ''a&b=c''] = Some (Inr ''x=1&y=a%26b%3Dc'')"
    by code_simp
  then show ?thesis by (rule rewriteFormBody_fields)
qed

end
