(* ===== verification/Mitm_CA.thy ===== *)
theory Mitm_CA
  imports Netip "HOL-Library.Multiset"
begin

text \<open>
  The leaf certificate cache of the interception CA, \<^verbatim>\<open>proxy/mitm.go\<close>. \<^verbatim>\<open>Leaf\<close> runs in two critical sections
  with the key generation between them, so it is modelled as two atomic operations and a step
  relation that interleaves any number of goroutines. List elements and calls are references, as
  the code keeps pointers to them. Time is in seconds; the cryptography is an argument that either
  fails or signs the template.
\<close>

section \<open>Model\<close>

definition maxCachedLeafs :: nat where "maxCachedLeafs = 256"
definition leafTTL :: int where "leafTTL = 24 * 3600"
definition leafRenewBefore :: int where "leafRenewBefore = 3600"

record certificate =
  CommonName :: string
  NotBefore :: int
  NotAfter :: int
  DNSNames :: "string list"
  IPAddresses :: "ip_addr list"

record tls_cert =
  Leaf :: "certificate option"

record cached_leaf =
  clHost :: string
  clCert :: tls_cert

record mitm_ca =
  leafs :: "string \<rightharpoonup> nat"
  lru :: "(nat \<times> cached_leaf) list"
  inFlight :: "string \<rightharpoonup> nat"
  calls :: "nat \<rightharpoonup> (string + tls_cert) option"
  nextRef :: nat

text \<open>The cache of a new CA.\<close>

definition emptyLeafCache :: mitm_ca where
  "emptyLeafCache = \<lparr>leafs = Map.empty, lru = [], inFlight = Map.empty, calls = Map.empty, nextRef = 0\<rparr>"

text \<open>\<^verbatim>\<open>net.ParseIP\<close> accepts no zone.\<close>

definition parseIP :: "string \<Rightarrow> ip_addr option" where
  "parseIP s = (case parseAddr s of Some a \<Rightarrow> if hasZone a then None else Some a | None \<Rightarrow> None)"

definition leafTemplate :: "string \<Rightarrow> int \<Rightarrow> certificate" where
  "leafTemplate hostname now =
     (let tmpl = \<lparr>CommonName = hostname, NotBefore = now - 3600, NotAfter = now + leafTTL,
                  DNSNames = [hostname], IPAddresses = []\<rparr> in
      case parseIP hostname of
        Some ip \<Rightarrow> tmpl\<lparr>IPAddresses := [ip], DNSNames := []\<rparr>
      | None \<Rightarrow> tmpl)"

definition generateLeaf :: "string option \<Rightarrow> string \<Rightarrow> int \<Rightarrow> string + tls_cert" where
  "generateLeaf cryptoErr hostname now =
     (case cryptoErr of Some err \<Rightarrow> Inl err | None \<Rightarrow> Inr \<lparr>Leaf = Some (leafTemplate hostname now)\<rparr>)"

definition removeElement :: "nat \<Rightarrow> (nat \<times> cached_leaf) list \<Rightarrow> (nat \<times> cached_leaf) list" where
  "removeElement e xs = filter (\<lambda>x. fst x \<noteq> e) xs"

definition moveToFront :: "nat \<Rightarrow> (nat \<times> cached_leaf) list \<Rightarrow> (nat \<times> cached_leaf) list" where
  "moveToFront e xs = filter (\<lambda>x. fst x = e) xs @ removeElement e xs"

datatype leaf_outcome = Hit tls_cert | Await nat | Produce nat

definition leafMiss :: "mitm_ca \<Rightarrow> string \<Rightarrow> leaf_outcome \<times> mitm_ca" where
  "leafMiss ca host =
     (case inFlight ca host of
        Some call \<Rightarrow> (Await call, ca)
      | None \<Rightarrow>
          (let call = nextRef ca in
           (Produce call, ca\<lparr>inFlight := (inFlight ca)(host \<mapsto> call), calls := (calls ca)(call \<mapsto> None), nextRef := Suc call\<rparr>)))"

definition fresh :: "tls_cert \<Rightarrow> int \<Rightarrow> bool" where
  "fresh leaf now = (case Leaf leaf of Some x \<Rightarrow> NotAfter x - now > leafRenewBefore | None \<Rightarrow> False)"

text \<open>The first critical section of \<^verbatim>\<open>Leaf\<close>.\<close>

definition leafEnter :: "mitm_ca \<Rightarrow> string \<Rightarrow> int \<Rightarrow> leaf_outcome \<times> mitm_ca" where
  "leafEnter ca host now =
     (case leafs ca host of
        None \<Rightarrow> leafMiss ca host
      | Some element \<Rightarrow>
          (case map_of (lru ca) element of
             Some cl \<Rightarrow>
               if fresh (clCert cl) now then (Hit (clCert cl), ca\<lparr>lru := moveToFront element (lru ca)\<rparr>)
               else leafMiss (ca\<lparr>lru := removeElement element (lru ca), leafs := (leafs ca)(host := None)\<rparr>) host
           | None \<Rightarrow> leafMiss (ca\<lparr>leafs := (leafs ca)(host := None)\<rparr>) host))"

definition evictOldest :: "mitm_ca \<Rightarrow> mitm_ca" where
  "evictOldest ca =
     (if length (lru ca) \<ge> maxCachedLeafs then
        (let oldest = last (lru ca) in
         ca\<lparr>lru := butlast (lru ca), leafs := (leafs ca)(clHost (snd oldest) := None)\<rparr>)
      else ca)"

definition storeLeaf :: "mitm_ca \<Rightarrow> string \<Rightarrow> tls_cert \<Rightarrow> mitm_ca" where
  "storeLeaf ca host leaf =
     (let ca' = evictOldest ca; element = nextRef ca' in
      ca'\<lparr>leafs := (leafs ca')(host \<mapsto> element),
          lru := (element, \<lparr>clHost = host, clCert = leaf\<rparr>) # lru ca', nextRef := Suc element\<rparr>)"

text \<open>The second critical section: it publishes the result and wakes the goroutines that wait.\<close>

definition leafFinish :: "mitm_ca \<Rightarrow> string \<Rightarrow> nat \<Rightarrow> string + tls_cert \<Rightarrow> mitm_ca" where
  "leafFinish ca host call r =
     (let ca' = (case r of Inr leaf \<Rightarrow> storeLeaf ca host leaf | Inl err \<Rightarrow> ca) in
      ca'\<lparr>calls := (calls ca')(call \<mapsto> Some r), inFlight := (inFlight ca')(host := None)\<rparr>)"

definition leafHost :: "string \<Rightarrow> string + string" where
  "leafHost hostname =
     (let host = toLower (trimSpace hostname) in if host = [] then Inl ''mitm: empty hostname'' else Inr host)"

text \<open>
  The authority itself: its self-signed template, and the steps of the cryptography, each with its
  error. Key usages are the bits of \<^verbatim>\<open>crypto/x509\<close>: certificate and revocation list signing.
\<close>

definition certificateAuthorityLifetime :: int where
  "certificateAuthorityLifetime = 10 * 365 * 24 * 3600"

record ca_template =
  caOrganization :: "string list"
  caCommonName :: string
  caNotBefore :: int
  caNotAfter :: int
  caKeyUsage :: int
  caIsCA :: bool
  caMaxPathLenZero :: bool

definition caTemplate :: "int \<Rightarrow> ca_template" where
  "caTemplate now =
     \<lparr>caOrganization = [''cauteum''], caCommonName = ''cauteum Sandbox Proxy CA'', caNotBefore = now - 3600,
      caNotAfter = now + certificateAuthorityLifetime, caKeyUsage = 2 ^ 5 + 2 ^ 6, caIsCA = True, caMaxPathLenZero = True\<rparr>"

record ca_crypto =
  ccKey :: "string option"
  ccSerial :: "string option"
  ccCreate :: "ca_template \<Rightarrow> string + string"
  ccParse :: "string \<Rightarrow> string option"
  ccEncodePEM :: "string \<Rightarrow> string \<Rightarrow> string"
  ccMarshalKey :: "string + string"
  ccKeyPair :: "string \<Rightarrow> string \<Rightarrow> string option"

record mitm_authority =
  authTemplate :: ca_template
  authPEM :: string
  authCache :: mitm_ca

definition GenerateMitmCA :: "ca_crypto \<Rightarrow> int \<Rightarrow> string + mitm_authority" where
  "GenerateMitmCA cc now =
     (case ccKey cc of Some err \<Rightarrow> Inl err | None \<Rightarrow>
     (case ccSerial cc of Some err \<Rightarrow> Inl err | None \<Rightarrow>
     (case ccCreate cc (caTemplate now) of Inl err \<Rightarrow> Inl err | Inr der \<Rightarrow>
     (case ccParse cc der of Some err \<Rightarrow> Inl err | None \<Rightarrow>
     (case ccMarshalKey cc of Inl err \<Rightarrow> Inl err | Inr keyDER \<Rightarrow>
        (let certPEM = ccEncodePEM cc ''CERTIFICATE'' der; keyPEM = ccEncodePEM cc ''EC PRIVATE KEY'' keyDER in
         case ccKeyPair cc certPEM keyPEM of
           Some err \<Rightarrow> Inl err
         | None \<Rightarrow> Inr \<lparr>authTemplate = caTemplate now, authPEM = certPEM, authCache = emptyLeafCache\<rparr>))))))"

text \<open>The receiver may be nil. A write gives its error and what was written.\<close>

definition CertPEM :: "mitm_authority option \<Rightarrow> string" where
  "CertPEM c = (case c of None \<Rightarrow> [] | Some a \<Rightarrow> authPEM a)"

definition WritePEM :: "(string \<Rightarrow> string option) \<Rightarrow> mitm_authority option \<Rightarrow> string option" where
  "WritePEM writeFile c = (case c of None \<Rightarrow> Some ''mitm: nil ca'' | Some a \<Rightarrow> writeFile (authPEM a))"

definition RootPool :: "mitm_authority \<Rightarrow> ca_template list" where
  "RootPool c = [authTemplate c]"

text \<open>\<^verbatim>\<open>WriteBundle\<close>: the bytes that are written, from the first readable system bundle and the CA.\<close>

definition systemCAPaths :: "string list" where
  "systemCAPaths = [''/etc/ssl/certs/ca-certificates.crt'', ''/etc/pki/tls/certs/ca-bundle.crt'',
     ''/etc/ssl/ca-bundle.pem'', ''/etc/ssl/cert.pem'']"

fun systemBundle :: "(string \<Rightarrow> string option) \<Rightarrow> string list \<Rightarrow> string" where
  "systemBundle readFile [] = []"
| "systemBundle readFile (p # ps) =
     (case readFile p of
        None \<Rightarrow> systemBundle readFile ps
      | Some b \<Rightarrow> if b \<noteq> [] \<and> last b \<noteq> CHR 0x0A then b @ [CHR 0x0A] else b)"

definition WriteBundle :: "(string \<Rightarrow> string option) \<Rightarrow> (string \<Rightarrow> string option) \<Rightarrow> mitm_authority option \<Rightarrow> string option" where
  "WriteBundle readFile writeFile c =
     (case c of None \<Rightarrow> Some ''mitm: nil ca'' | Some a \<Rightarrow> writeFile (systemBundle readFile systemCAPaths @ authPEM a))"

record tls_config =
  Certificates :: "tls_cert list"
  ServerName :: string
  NextProtos :: "string list"
  MinVersion :: int

definition serverConfigFor :: "tls_cert \<Rightarrow> tls_config" where
  "serverConfigFor leaf = \<lparr>Certificates = [leaf], ServerName = [], NextProtos = [''http/1.1''], MinVersion = 0x0303\<rparr>"

text \<open>\<^verbatim>\<open>ServerTLSConfig\<close> wraps the result of \<^verbatim>\<open>Leaf\<close>.\<close>

definition ServerTLSConfig :: "string + tls_cert \<Rightarrow> string + tls_config" where
  "ServerTLSConfig leafResult = mapR serverConfigFor leafResult"

definition ClientTLSConfig :: "string \<Rightarrow> tls_config" where
  "ClientTLSConfig serverName = \<lparr>Certificates = [], ServerName = serverName, NextProtos = [''http/1.1''], MinVersion = 0x0303\<rparr>"

subsection \<open>Goroutines\<close>

datatype leaf_pc =
    Idle
  | Generating string nat
  | Waiting string nat
  | Returned string "string + tls_cert"

record leaf_system =
  theCA :: mitm_ca
  pcs :: "nat \<Rightarrow> leaf_pc"

inductive leaf_step :: "leaf_system \<Rightarrow> leaf_system \<Rightarrow> bool" where
  hit: "pcs s t = Idle \<Longrightarrow> leafHost hostname = Inr host \<Longrightarrow> leafEnter (theCA s) host now = (Hit leaf, ca') \<Longrightarrow>
    leaf_step s (s\<lparr>theCA := ca', pcs := (pcs s)(t := Returned host (Inr leaf))\<rparr>)"
| wait: "pcs s t = Idle \<Longrightarrow> leafHost hostname = Inr host \<Longrightarrow> leafEnter (theCA s) host now = (Await call, ca') \<Longrightarrow>
    leaf_step s (s\<lparr>theCA := ca', pcs := (pcs s)(t := Waiting host call)\<rparr>)"
| produce: "pcs s t = Idle \<Longrightarrow> leafHost hostname = Inr host \<Longrightarrow> leafEnter (theCA s) host now = (Produce call, ca') \<Longrightarrow>
    leaf_step s (s\<lparr>theCA := ca', pcs := (pcs s)(t := Generating host call)\<rparr>)"
| finish: "pcs s t = Generating host call \<Longrightarrow> r = generateLeaf cryptoErr host now \<Longrightarrow>
    leaf_step s (s\<lparr>theCA := leafFinish (theCA s) host call r, pcs := (pcs s)(t := Returned host r)\<rparr>)"
| wake: "pcs s t = Waiting host call \<Longrightarrow> calls (theCA s) call = Some (Some r) \<Longrightarrow>
    leaf_step s (s\<lparr>pcs := (pcs s)(t := Returned host r)\<rparr>)"
| again: "pcs s t = Returned host r \<Longrightarrow> leaf_step s (s\<lparr>pcs := (pcs s)(t := Idle)\<rparr>)"

definition leaf_init :: leaf_system where
  "leaf_init = \<lparr>theCA = emptyLeafCache, pcs = (\<lambda>_. Idle)\<rparr>"

abbreviation leaf_reachable :: "leaf_system \<Rightarrow> bool" where
  "leaf_reachable \<equiv> reached ((=) leaf_init) leaf_step"

inductive_cases leaf_stepE: "leaf_step s s'"

section \<open>Lifetimes\<close>

text \<open>A leaf is within the lifetime of its authority unless it is issued in the last day of it.\<close>

lemma leaf_within_authority:
  assumes "GenerateMitmCA cc start = Inr a" "start \<le> now" "now + leafTTL \<le> start + certificateAuthorityLifetime"
  shows "caNotBefore (authTemplate a) \<le> NotBefore (leafTemplate host now) \<and> NotAfter (leafTemplate host now) \<le> caNotAfter (authTemplate a)"
  using assms by (auto simp: GenerateMitmCA_def caTemplate_def leafTemplate_def Let_def split: option.splits sum.splits)

section \<open>The cache invariant\<close>

definition certFor :: "string \<Rightarrow> tls_cert \<Rightarrow> bool" where
  "certFor host leaf \<longleftrightarrow> (\<exists>now. Leaf leaf = Some (leafTemplate host now))"

text \<open>The map and the list agree: they hold the same elements, one per host.\<close>

definition lruInv :: "mitm_ca \<Rightarrow> bool" where
  "lruInv ca \<longleftrightarrow>
     distinct (map fst (lru ca)) \<and> distinct (map (\<lambda>x. clHost (snd x)) (lru ca)) \<and>
     (\<forall>h e. leafs ca h = Some e \<longleftrightarrow> (\<exists>cl. (e, cl) \<in> set (lru ca) \<and> clHost cl = h)) \<and>
     (\<forall>(e, cl) \<in> set (lru ca). e < nextRef ca \<and> certFor (clHost cl) (clCert cl))"

text \<open>A host in flight is not cached, and its call is open and belongs to it alone.\<close>

definition flightInv :: "mitm_ca \<Rightarrow> bool" where
  "flightInv ca \<longleftrightarrow>
     (\<forall>h c. inFlight ca h = Some c \<longrightarrow> leafs ca h = None \<and> calls ca c = Some None) \<and>
     (\<forall>h h' c. inFlight ca h = Some c \<longrightarrow> inFlight ca h' = Some c \<longrightarrow> h = h') \<and>
     (\<forall>c \<in> dom (calls ca). c < nextRef ca)"

lemma mset_moveToFront: "mset (moveToFront e xs) = mset xs"
  by (simp add: moveToFront_def removeElement_def)

lemma moveToFront_facts:
  "set (moveToFront e xs) = set xs" "length (moveToFront e xs) = length xs"
  "distinct (map f (moveToFront e xs)) = distinct (map f xs)"
proof -
  note m = mset_moveToFront [of e xs]
  show "set (moveToFront e xs) = set xs" by (rule mset_eq_setD [OF m])
  show "length (moveToFront e xs) = length xs" by (rule mset_eq_length [OF m])
  have "mset (map f (moveToFront e xs)) = mset (map f xs)" using m by simp
  then show "distinct (map f (moveToFront e xs)) = distinct (map f xs)" by (rule mset_eq_imp_distinct_iff)
qed

lemma lruInv_same:
  assumes "lruInv ca" "set xs = set (lru ca)" "distinct (map fst xs)" "distinct (map (\<lambda>x. clHost (snd x)) xs)"
  shows "lruInv (ca\<lparr>lru := xs\<rparr>)"
  using assms by (simp add: lruInv_def)

text \<open>Removing one element from the list and its host from the map.\<close>

lemma lruInv_remove:
  assumes inv: "lruInv ca" and sub: "set xs = set (lru ca) - {(e, cl)}" and el: "(e, cl) \<in> set (lru ca)"
    and d: "distinct (map fst xs)" "distinct (map (\<lambda>x. clHost (snd x)) xs)"
  shows "lruInv (ca\<lparr>lru := xs, leafs := (leafs ca)(clHost cl := None)\<rparr>)"
proof -
  have map: "leafs ca h = Some e' \<longleftrightarrow> (\<exists>cl'. (e', cl') \<in> set (lru ca) \<and> clHost cl' = h)" for h e'
    using inv unfolding lruInv_def by blast
  have inj: "inj_on (\<lambda>x. clHost (snd x)) (set (lru ca))" using inv unfolding lruInv_def distinct_map by blast
  have one: "clHost cl' = clHost cl \<Longrightarrow> (e', cl') \<in> set (lru ca) \<Longrightarrow> (e', cl') = (e, cl)" for e' cl'
    using inj_onD [OF inj _ _ el, of "(e', cl')"] by simp
  have "((leafs ca)(clHost cl := None)) h = Some e' \<longleftrightarrow> (\<exists>cl'. (e', cl') \<in> set xs \<and> clHost cl' = h)" for h e'
    using map [of h e'] one sub by (cases "h = clHost cl") fastforce+
  then show ?thesis using inv d sub unfolding lruInv_def by auto
qed

lemma lruInv_evict: "lruInv ca \<Longrightarrow> lruInv (evictOldest ca)"
proof (cases "length (lru ca) \<ge> maxCachedLeafs")
  case True
  assume inv: "lruInv ca"
  from True have "lru ca \<noteq> []" by (auto simp: maxCachedLeafs_def)
  then obtain xs e cl where xs: "lru ca = xs @ [(e, cl)]" by (metis rev_exhaust surj_pair)
  have dist: "distinct (map fst (lru ca))" "distinct (map (\<lambda>x. clHost (snd x)) (lru ca))"
    using inv unfolding lruInv_def by blast+
  then have "(e, cl) \<notin> set xs" unfolding xs by (auto simp: image_iff)
  then have "lruInv (ca\<lparr>lru := xs, leafs := (leafs ca)(clHost cl := None)\<rparr>)"
    using dist xs by (intro lruInv_remove [OF inv, of _ e]) auto
  then show ?thesis using True xs by (simp add: evictOldest_def Let_def)
qed (simp add: evictOldest_def)

lemma evict_facts:
  "inFlight (evictOldest ca) = inFlight ca" "calls (evictOldest ca) = calls ca" "nextRef (evictOldest ca) = nextRef ca"
  "leafs ca h = None \<Longrightarrow> leafs (evictOldest ca) h = None"
  "length (lru ca) \<le> maxCachedLeafs \<Longrightarrow> length (lru (evictOldest ca)) < maxCachedLeafs"
  by (auto simp: evictOldest_def Let_def maxCachedLeafs_def)

lemma lruInv_push:
  assumes "lruInv ca" "leafs ca host = None" "certFor host leaf"
  shows "lruInv (ca\<lparr>leafs := (leafs ca)(host \<mapsto> nextRef ca),
          lru := (nextRef ca, \<lparr>clHost = host, clCert = leaf\<rparr>) # lru ca, nextRef := Suc (nextRef ca)\<rparr>)"
proof -
  have m: "leafs ca h = Some e \<longleftrightarrow> (\<exists>cl. (e, cl) \<in> set (lru ca) \<and> clHost cl = h)" for h e
    using assms(1) unfolding lruInv_def by blast
  have old: "e < nextRef ca \<and> clHost cl \<noteq> host" if "(e, cl) \<in> set (lru ca)" for e cl
  proof
    show "e < nextRef ca" using assms(1) that unfolding lruInv_def by blast
    show "clHost cl \<noteq> host" using m [of host e] assms(2) that by auto
  qed
  then have new: "nextRef ca \<notin> fst ` set (lru ca)" "host \<notin> (\<lambda>x. clHost (snd x)) ` set (lru ca)" by force+
  have "((leafs ca)(host \<mapsto> nextRef ca)) h = Some e \<longleftrightarrow>
      (\<exists>cl. (e, cl) \<in> set ((nextRef ca, \<lparr>clHost = host, clCert = leaf\<rparr>) # lru ca) \<and> clHost cl = h)" for h e
    using m [of h e] old by (cases "h = host") auto
  then show ?thesis using assms(1,3) old new unfolding lruInv_def by (simp add: split_beta less_Suc_eq)
qed

definition caInv :: "mitm_ca \<Rightarrow> bool" where
  "caInv ca \<longleftrightarrow> lruInv ca \<and> flightInv ca \<and> length (lru ca) \<le> maxCachedLeafs"

definition resultFor :: "string \<Rightarrow> string + tls_cert \<Rightarrow> bool" where
  "resultFor host r = (case r of Inr leaf \<Rightarrow> certFor host leaf | Inl err \<Rightarrow> True)"

lemma generateLeaf_resultFor: "resultFor host (generateLeaf err host now)"
  by (auto simp: resultFor_def generateLeaf_def certFor_def split: option.split)

lemma lruInv_bookkeeping:
  "lruInv ca \<Longrightarrow> nextRef ca \<le> n \<Longrightarrow> lruInv (ca\<lparr>inFlight := f, calls := c, nextRef := n\<rparr>)"
  by (fastforce simp: lruInv_def)

text \<open>What the first critical section guarantees, by outcome.\<close>

definition enterOk :: "mitm_ca \<Rightarrow> string \<Rightarrow> int \<Rightarrow> leaf_outcome \<Rightarrow> mitm_ca \<Rightarrow> bool" where
  "enterOk ca host now out ca' =
     (case out of
        Hit leaf \<Rightarrow> certFor host leaf \<and> fresh leaf now \<and> inFlight ca' = inFlight ca \<and> calls ca' = calls ca
      | Await c \<Rightarrow> inFlight ca host = Some c \<and> inFlight ca' = inFlight ca \<and> calls ca' = calls ca
      | Produce c \<Rightarrow> inFlight ca host = None \<and> c \<notin> dom (calls ca) \<and>
          inFlight ca' = (inFlight ca)(host \<mapsto> c) \<and> calls ca' = (calls ca)(c \<mapsto> None))"

lemma flightInv_produce:
  assumes "flightInv ca" "leafs ca host = None" "inFlight ca host = None" "c = nextRef ca"
  shows "flightInv (ca\<lparr>inFlight := (inFlight ca)(host \<mapsto> c), calls := (calls ca)(c \<mapsto> None), nextRef := Suc c\<rparr>)"
proof -
  have dom: "\<And>c'. c' \<in> dom (calls ca) \<Longrightarrow> c' < c"
    and open_calls: "\<And>h c'. inFlight ca h = Some c' \<Longrightarrow> leafs ca h = None \<and> calls ca c' = Some None"
    and inj: "\<And>h h' c'. inFlight ca h = Some c' \<Longrightarrow> inFlight ca h' = Some c' \<Longrightarrow> h = h'"
    using assms(1,4) unfolding flightInv_def by blast+
  have "c' \<noteq> c" if "inFlight ca h = Some c'" for h c'
    using dom [of c'] open_calls [OF that] by auto
  then show ?thesis
    unfolding flightInv_def using assms(2,3) open_calls inj dom by (auto simp: less_Suc_eq split: if_splits)
qed

lemma leafMiss_ok:
  assumes "caInv ca" "leafs ca host = None" "leafMiss ca host = (out, ca')"
  shows "caInv ca' \<and> enterOk ca host now out ca'"
proof (cases "inFlight ca host")
  case None
  have "nextRef ca \<notin> dom (calls ca)" using assms(1) unfolding caInv_def flightInv_def by blast
  then show ?thesis
    using assms None flightInv_produce [OF _ assms(2) None refl] lruInv_bookkeeping [of ca "Suc (nextRef ca)"]
    by (auto simp: leafMiss_def enterOk_def caInv_def Let_def)
qed (use assms in \<open>auto simp: leafMiss_def enterOk_def\<close>)

lemma flightInv_leafs:
  "flightInv ca \<Longrightarrow> (\<And>h. leafs ca h = None \<Longrightarrow> m h = None) \<Longrightarrow> flightInv (ca\<lparr>lru := xs, leafs := m\<rparr>)"
  by (simp add: flightInv_def)

lemma leafEnter_ok:
  assumes inv: "caInv ca" and enter: "leafEnter ca host now = (out, ca')"
  shows "caInv ca' \<and> enterOk ca host now out ca'"
proof (cases "leafs ca host")
  case None
  then show ?thesis using leafMiss_ok [OF inv None] enter by (simp add: leafEnter_def)
next
  case (Some e)
  then obtain cl where cl: "(e, cl) \<in> set (lru ca)" "clHost cl = host"
    using inv unfolding caInv_def lruInv_def by blast
  have dist: "distinct (map fst (lru ca))" "distinct (map (\<lambda>x. clHost (snd x)) (lru ca))"
    and cert: "certFor host (clCert cl)"
    using inv cl unfolding caInv_def lruInv_def by blast+
  then have look: "map_of (lru ca) e = Some cl" using cl(1) by simp
  show ?thesis
  proof (cases "fresh (clCert cl) now")
    case True
    then have out: "out = Hit (clCert cl)" "ca' = ca\<lparr>lru := moveToFront e (lru ca)\<rparr>"
      using enter Some look by (auto simp: leafEnter_def)
    have "lruInv ca'" unfolding out
      using inv dist by (intro lruInv_same) (auto simp: caInv_def moveToFront_facts)
    moreover have "flightInv ca'" "length (lru ca') \<le> maxCachedLeafs"
      using inv unfolding out caInv_def flightInv_def by (simp_all add: moveToFront_facts)
    ultimately show ?thesis using out True cert by (simp add: caInv_def enterOk_def)
  next
    case False
    let ?ca = "ca\<lparr>lru := removeElement e (lru ca), leafs := (leafs ca)(host := None)\<rparr>"
    have uniq: "fst x = e \<longleftrightarrow> x = (e, cl)" if "x \<in> set (lru ca)" for x
      using that cl(1) dist(1) by (metis eq_key_imp_eq_value prod.collapse fst_conv)
    have "set (removeElement e (lru ca)) = set (lru ca) - {(e, cl)}"
      unfolding removeElement_def set_filter using uniq by blast
    then have "lruInv ?ca"
      using lruInv_remove [of ca "removeElement e (lru ca)" e cl] inv cl dist
      by (simp add: caInv_def removeElement_def distinct_map_filter)
    moreover have "length (removeElement e (lru ca)) \<le> length (lru ca)"
      by (simp add: removeElement_def)
    moreover have "flightInv ?ca" using inv by (intro flightInv_leafs) (auto simp: caInv_def)
    ultimately have "caInv ?ca" using inv by (simp add: caInv_def)
    moreover have "leafMiss ?ca host = (out, ca')" using enter Some look False by (simp add: leafEnter_def)
    ultimately have "caInv ca' \<and> enterOk ?ca host now out ca'" by (intro leafMiss_ok) simp_all
    then show ?thesis by (auto simp: enterOk_def split: leaf_outcome.splits)
  qed
qed

lemma storeLeaf_ok:
  assumes "caInv ca" "leafs ca host = None" "certFor host leaf"
  shows "lruInv (storeLeaf ca host leaf)" "length (lru (storeLeaf ca host leaf)) \<le> maxCachedLeafs"
    "inFlight (storeLeaf ca host leaf) = inFlight ca" "calls (storeLeaf ca host leaf) = calls ca"
    "nextRef (storeLeaf ca host leaf) = Suc (nextRef ca)"
    "h \<noteq> host \<Longrightarrow> leafs ca h = None \<Longrightarrow> leafs (storeLeaf ca host leaf) h = None"
proof -
  have "lruInv (evictOldest ca)" "leafs (evictOldest ca) host = None"
    using assms lruInv_evict evict_facts(4) unfolding caInv_def by blast+
  from lruInv_push [OF this assms(3)] show "lruInv (storeLeaf ca host leaf)" by (simp add: storeLeaf_def Let_def)
  have "length (lru ca) \<le> maxCachedLeafs" using assms(1) by (simp add: caInv_def)
  from evict_facts(5) [OF this] show "length (lru (storeLeaf ca host leaf)) \<le> maxCachedLeafs"
    by (simp add: storeLeaf_def Let_def)
qed (simp_all add: storeLeaf_def Let_def evict_facts)

lemma leafFinish_ok:
  assumes inv: "caInv ca" and fl: "inFlight ca host = Some c" and r: "resultFor host r"
  shows "caInv (leafFinish ca host c r)"
    "inFlight (leafFinish ca host c r) = (inFlight ca)(host := None)"
    "calls (leafFinish ca host c r) = (calls ca)(c \<mapsto> Some r)"
proof -
  define ca1 where "ca1 = (case r of Inr leaf \<Rightarrow> storeLeaf ca host leaf | Inl err \<Rightarrow> ca)"
  have uncached: "leafs ca host = None" using inv fl unfolding caInv_def flightInv_def by blast
  have ca1: "lruInv ca1" "length (lru ca1) \<le> maxCachedLeafs" "inFlight ca1 = inFlight ca" "calls ca1 = calls ca"
    "nextRef ca \<le> nextRef ca1" "\<And>h. h \<noteq> host \<Longrightarrow> leafs ca h = None \<Longrightarrow> leafs ca1 h = None"
    using storeLeaf_ok [OF inv uncached] inv r by (auto simp: ca1_def resultFor_def caInv_def split: sum.splits)
  have fin: "leafFinish ca host c r = ca1\<lparr>calls := (calls ca)(c \<mapsto> Some r), inFlight := (inFlight ca)(host := None)\<rparr>"
    using ca1(3,4) by (simp add: leafFinish_def ca1_def Let_def)
  have open_calls: "\<And>h c'. inFlight ca h = Some c' \<Longrightarrow> leafs ca h = None \<and> calls ca c' = Some None"
    and inj: "\<And>h h' c'. inFlight ca h = Some c' \<Longrightarrow> inFlight ca h' = Some c' \<Longrightarrow> h = h'"
    and dom: "\<And>c'. c' \<in> dom (calls ca) \<Longrightarrow> c' < nextRef ca"
    using inv unfolding caInv_def flightInv_def by blast+
  have "flightInv (leafFinish ca host c r)"
    unfolding flightInv_def fin
  proof (intro conjI allI impI ballI)
    fix h c' assume "inFlight (ca1\<lparr>calls := (calls ca)(c \<mapsto> Some r), inFlight := (inFlight ca)(host := None)\<rparr>) h = Some c'"
    then have h: "h \<noteq> host" "inFlight ca h = Some c'" by (auto split: if_splits)
    then have "c' \<noteq> c" using inj [OF h(2)] fl by blast
    then show "leafs (ca1\<lparr>calls := (calls ca)(c \<mapsto> Some r), inFlight := (inFlight ca)(host := None)\<rparr>) h = None"
      "calls (ca1\<lparr>calls := (calls ca)(c \<mapsto> Some r), inFlight := (inFlight ca)(host := None)\<rparr>) c' = Some None"
      using h open_calls ca1(6) by auto
  next
    fix c' assume "c' \<in> dom (calls (ca1\<lparr>calls := (calls ca)(c \<mapsto> Some r), inFlight := (inFlight ca)(host := None)\<rparr>))"
    then show "c' < nextRef (ca1\<lparr>calls := (calls ca)(c \<mapsto> Some r), inFlight := (inFlight ca)(host := None)\<rparr>)"
      using dom [of c'] dom [OF domI, of c] open_calls [OF fl] ca1(5)
      by (cases "c' = c") auto
  qed (auto dest: inj split: if_splits)
  then show "caInv (leafFinish ca host c r)" using ca1 by (simp add: caInv_def fin lruInv_def)
  show "inFlight (leafFinish ca host c r) = (inFlight ca)(host := None)"
    "calls (leafFinish ca host c r) = (calls ca)(c \<mapsto> Some r)" by (simp_all add: fin)
qed

section \<open>The system invariant\<close>

definition pcInv :: "mitm_ca \<Rightarrow> (nat \<Rightarrow> leaf_pc) \<Rightarrow> bool" where
  "pcInv ca p \<longleftrightarrow>
     (\<forall>h c. inFlight ca h = Some c \<longleftrightarrow> (\<exists>t. p t = Generating h c)) \<and>
     (\<forall>t t' h c c'. p t = Generating h c \<longrightarrow> p t' = Generating h c' \<longrightarrow> t = t') \<and>
     (\<forall>t h c. p t = Waiting h c \<longrightarrow>
        inFlight ca h = Some c \<or> (\<exists>r. calls ca c = Some (Some r) \<and> resultFor h r)) \<and>
     (\<forall>t h r. p t = Returned h r \<longrightarrow> resultFor h r)"

definition sysInv :: "leaf_system \<Rightarrow> bool" where
  "sysInv s \<longleftrightarrow> caInv (theCA s) \<and> pcInv (theCA s) (pcs s)"

lemma pcInvI:
  assumes "\<And>h c. inFlight ca h = Some c \<Longrightarrow> \<exists>t. p t = Generating h c"
    and "\<And>t h c. p t = Generating h c \<Longrightarrow> inFlight ca h = Some c"
    and "\<And>t t' h c c'. p t = Generating h c \<Longrightarrow> p t' = Generating h c' \<Longrightarrow> t = t'"
    and "\<And>t h c. p t = Waiting h c \<Longrightarrow> inFlight ca h = Some c \<or> (\<exists>r. calls ca c = Some (Some r) \<and> resultFor h r)"
    and "\<And>t h r. p t = Returned h r \<Longrightarrow> resultFor h r"
  shows "pcInv ca p"
  using assms unfolding pcInv_def by blast

lemma pcInvD:
  assumes "pcInv ca p"
  shows "inFlight ca h = Some c \<Longrightarrow> \<exists>t. p t = Generating h c"
    and "p t = Generating h c \<Longrightarrow> inFlight ca h = Some c"
    and "p t = Generating h c \<Longrightarrow> p t' = Generating h c' \<Longrightarrow> t = t'"
    and "p t = Waiting h c \<Longrightarrow> inFlight ca h = Some c \<or> (\<exists>r. calls ca c = Some (Some r) \<and> resultFor h r)"
    and "p t = Returned h r \<Longrightarrow> resultFor h r"
  using assms unfolding pcInv_def by blast+

text \<open>A goroutine that is not generating moves to a state that is not generating.\<close>

lemma pcInv_quiet:
  assumes inv: "pcInv ca p" and ca': "inFlight ca' = inFlight ca" "calls ca' = calls ca"
    and p: "\<And>h c. p t \<noteq> Generating h c" and q: "\<And>h c. q \<noteq> Generating h c"
    and w: "\<And>h c. q = Waiting h c \<Longrightarrow> inFlight ca h = Some c" and r: "\<And>h r. q = Returned h r \<Longrightarrow> resultFor h r"
  shows "pcInv ca' (p(t := q))"
proof (rule pcInvI)
  fix h c assume "inFlight ca' h = Some c"
  then obtain t' where "p t' = Generating h c" using pcInvD(1) [OF inv] ca'(1) by auto
  then show "\<exists>t'. (p(t := q)) t' = Generating h c" using p by (intro exI [of _ t']) auto
next
  fix t' h c assume "(p(t := q)) t' = Generating h c"
  then show "inFlight ca' h = Some c" using pcInvD(2) [OF inv, of t' h c] ca'(1) q [of h c] by (cases "t' = t") auto
next
  fix t1 t2 h c c' assume "(p(t := q)) t1 = Generating h c" "(p(t := q)) t2 = Generating h c'"
  then show "t1 = t2" using pcInvD(3) [OF inv, of t1 h c t2 c'] q by (cases "t1 = t"; cases "t2 = t") auto
next
  fix t' h c assume "(p(t := q)) t' = Waiting h c"
  then show "inFlight ca' h = Some c \<or> (\<exists>r. calls ca' c = Some (Some r) \<and> resultFor h r)"
    using pcInvD(4) [OF inv] w ca' by (cases "t' = t") auto
next
  fix t' h x assume "(p(t := q)) t' = Returned h x"
  then show "resultFor h x" using pcInvD(5) [OF inv] r by (cases "t' = t") auto
qed

lemma pcInv_produce:
  assumes inv: "pcInv ca p" and idle: "p t = Idle" and new: "inFlight ca h = None" "c \<notin> dom (calls ca)"
    and ca': "inFlight ca' = (inFlight ca)(h \<mapsto> c)" "calls ca' = (calls ca)(c \<mapsto> None)"
  shows "pcInv ca' (p(t := Generating h c))"
proof -
  have gen: "p t' \<noteq> Generating h c'" for t' c' using pcInvD(2) [OF inv] new(1) by fastforce
  show ?thesis
  proof (rule pcInvI)
    fix h' c' assume fl: "inFlight ca' h' = Some c'"
    show "\<exists>t'. (p(t := Generating h c)) t' = Generating h' c'"
    proof (cases "h' = h")
      case False
      then obtain t' where "p t' = Generating h' c'" using pcInvD(1) [OF inv] fl ca'(1) by auto
      then show ?thesis using idle by (intro exI [of _ t']) auto
    qed (use fl ca'(1) in auto)
  next
    fix t' h' c' assume "(p(t := Generating h c)) t' = Generating h' c'"
    then show "inFlight ca' h' = Some c'"
      using pcInvD(2) [OF inv, of t' h' c'] gen [of t' c'] ca'(1) by (cases "t' = t"; cases "h' = h") auto
  next
    fix t1 t2 h' c1 c2
    assume "(p(t := Generating h c)) t1 = Generating h' c1" "(p(t := Generating h c)) t2 = Generating h' c2"
    then show "t1 = t2" using pcInvD(3) [OF inv, of t1 h' c1 t2 c2] gen by (cases "t1 = t"; cases "t2 = t") auto
  next
    fix t' h' c' assume "(p(t := Generating h c)) t' = Waiting h' c'"
    then have "inFlight ca h' = Some c' \<or> (\<exists>r. calls ca c' = Some (Some r) \<and> resultFor h' r)"
      using pcInvD(4) [OF inv, of t' h' c'] by (cases "t' = t") auto
    then show "inFlight ca' h' = Some c' \<or> (\<exists>r. calls ca' c' = Some (Some r) \<and> resultFor h' r)"
      using new ca' by (cases "h' = h"; cases "c' = c") auto
  next
    fix t' h' x assume "(p(t := Generating h c)) t' = Returned h' x"
    then show "resultFor h' x" using pcInvD(5) [OF inv, of t' h' x] by (cases "t' = t") auto
  qed
qed

lemma pcInv_finish:
  assumes inv: "pcInv ca p" and pt: "p t = Generating h c" and r: "resultFor h r" and fi: "flightInv ca"
    and ca': "inFlight ca' = (inFlight ca)(h := None)" "calls ca' = (calls ca)(c \<mapsto> Some r)"
  shows "pcInv ca' (p(t := Returned h r))"
proof -
  have fl: "inFlight ca h = Some c" by (rule pcInvD(2) [OF inv pt])
  have only: "p t' = Generating h c' \<Longrightarrow> t' = t" for t' c' using pcInvD(3) [OF inv pt] by blast
  have opened: "calls ca c = Some None" using fi fl unfolding flightInv_def by blast
  show ?thesis
  proof (rule pcInvI)
    fix h' c' assume "inFlight ca' h' = Some c'"
    then have h': "h' \<noteq> h" "inFlight ca h' = Some c'" using ca'(1) by (auto split: if_splits)
    then obtain t' where "p t' = Generating h' c'" using pcInvD(1) [OF inv] by blast
    then show "\<exists>t'. (p(t := Returned h r)) t' = Generating h' c'" using h'(1) pt by (intro exI [of _ t']) auto
  next
    fix t' h' c' assume g: "(p(t := Returned h r)) t' = Generating h' c'"
    have t': "t' \<noteq> t" using g by (cases "t' = t") simp_all
    then have "p t' = Generating h' c'" using g by simp
    moreover from this have "h' \<noteq> h" using only t' by blast
    ultimately show "inFlight ca' h' = Some c'" using pcInvD(2) [OF inv] ca'(1) by simp
  next
    fix t1 t2 h' c1 c2
    assume "(p(t := Returned h r)) t1 = Generating h' c1" "(p(t := Returned h r)) t2 = Generating h' c2"
    then show "t1 = t2" using pcInvD(3) [OF inv, of t1 h' c1 t2 c2] by (cases "t1 = t"; cases "t2 = t") auto
  next
    fix t' h' c' assume "(p(t := Returned h r)) t' = Waiting h' c'"
    then have "inFlight ca h' = Some c' \<or> (\<exists>r. calls ca c' = Some (Some r) \<and> resultFor h' r)"
      using pcInvD(4) [OF inv, of t' h' c'] by (cases "t' = t") auto
    then show "inFlight ca' h' = Some c' \<or> (\<exists>r. calls ca' c' = Some (Some r) \<and> resultFor h' r)"
      using fl r opened ca' by (cases "h' = h"; cases "c' = c") auto
  next
    fix t' h' x assume "(p(t := Returned h r)) t' = Returned h' x"
    then show "resultFor h' x" using pcInvD(5) [OF inv, of t' h' x] r by (cases "t' = t") auto
  qed
qed

lemma sysInv_init: "sysInv leaf_init"
  by (simp add: sysInv_def leaf_init_def emptyLeafCache_def caInv_def lruInv_def flightInv_def pcInv_def)

lemma sysInv_step: "leaf_step s s' \<Longrightarrow> sysInv s \<Longrightarrow> sysInv s'"
proof (induction rule: leaf_step.induct)
  case (hit s t hostname host now leaf ca')
  then have "caInv ca' \<and> enterOk (theCA s) host now (Hit leaf) ca'" by (intro leafEnter_ok) (auto simp: sysInv_def)
  then show ?case using hit unfolding sysInv_def
    by (auto simp: enterOk_def resultFor_def intro!: pcInv_quiet [of "theCA s"])
next
  case (wait s t hostname host now call ca')
  then have "caInv ca' \<and> enterOk (theCA s) host now (Await call) ca'" by (intro leafEnter_ok) (auto simp: sysInv_def)
  then show ?case using wait unfolding sysInv_def
    by (auto simp: enterOk_def intro!: pcInv_quiet [of "theCA s"])
next
  case (produce s t hostname host now call ca')
  then have "caInv ca' \<and> enterOk (theCA s) host now (Produce call) ca'" by (intro leafEnter_ok) (auto simp: sysInv_def)
  then show ?case using produce unfolding sysInv_def
    by (auto simp: enterOk_def intro!: pcInv_produce [of "theCA s"])
next
  case (finish s t host call r cryptoErr now)
  then have inv: "caInv (theCA s)" "pcInv (theCA s) (pcs s)" and r: "resultFor host r"
    using generateLeaf_resultFor by (auto simp: sysInv_def)
  then have "inFlight (theCA s) host = Some call" using finish(1) unfolding pcInv_def by blast
  note fin = leafFinish_ok [OF inv(1) this r]
  have "flightInv (theCA s)" using inv(1) by (simp add: caInv_def)
  from pcInv_finish [OF inv(2) finish(1) r this fin(2,3)] fin(1) show ?case by (simp add: sysInv_def)
next
  case (wake s t host call r)
  have "inFlight (theCA s) host \<noteq> Some call"
    using wake unfolding sysInv_def caInv_def flightInv_def by force
  then have "resultFor host r"
    using pcInvD(4) [of "theCA s" "pcs s" t host call] wake by (auto simp: sysInv_def)
  then show ?case using wake unfolding sysInv_def
    by (auto intro!: pcInv_quiet [of "theCA s"])
next
  case (again s t host r)
  then show ?case unfolding sysInv_def by (auto intro!: pcInv_quiet [of "theCA s"])
qed

interpretation leaf: invariant_system "(=) leaf_init" leaf_step sysInv
  by unfold_locales (auto intro: sysInv_init sysInv_step)

section \<open>Properties\<close>

text \<open>
  C19: under every interleaving of goroutines the cache holds at most 256 leaves, one per host, the
  map and the list agree, no host is generated twice at the same time, and every goroutine that
  has returned has an error or a certificate issued for the host it asked for.\<close>

theorem leaf_cache_invariant:
  assumes "leaf_reachable s"
  shows "length (lru (theCA s)) \<le> maxCachedLeafs \<and> distinct (map (\<lambda>x. clHost (snd x)) (lru (theCA s))) \<and>
     dom (leafs (theCA s)) = set (map (\<lambda>x. clHost (snd x)) (lru (theCA s))) \<and>
     (\<forall>t t' h c c'. pcs s t = Generating h c \<longrightarrow> pcs s t' = Generating h c' \<longrightarrow> t = t') \<and>
     (\<forall>t h leaf. pcs s t = Returned h (Inr leaf) \<longrightarrow> certFor h leaf)"
proof -
  have ca: "lruInv (theCA s)" "length (lru (theCA s)) \<le> maxCachedLeafs" and p: "pcInv (theCA s) (pcs s)"
    using leaf.holds [OF assms] by (auto simp: sysInv_def caInv_def)
  have m: "leafs (theCA s) h = Some e \<longleftrightarrow> (\<exists>cl. (e, cl) \<in> set (lru (theCA s)) \<and> clHost cl = h)" for h e
    using ca(1) unfolding lruInv_def by blast
  have "dom (leafs (theCA s)) = set (map (\<lambda>x. clHost (snd x)) (lru (theCA s)))"
    unfolding dom_def by (auto simp: m image_iff) (force, blast)
  then show ?thesis using ca pcInvD(3,5) [OF p] unfolding lruInv_def resultFor_def by fastforce
qed

definition oneGenerating :: leaf_system where
  "oneGenerating = leaf_init
     \<lparr>theCA := snd (leafEnter emptyLeafCache ''a.example'' 0), pcs := (\<lambda>_. Idle)(1 := Generating ''a.example'' 0)\<rparr>"

lemma oneGenerating_reachable: "leaf_reachable oneGenerating"
proof -
  have host: "leafHost ''a.example'' = Inr ''a.example''" by code_simp
  have "leaf_step leaf_init (leaf_init\<lparr>theCA := snd (leafEnter emptyLeafCache ''a.example'' 0),
      pcs := (pcs leaf_init)(1 := Generating ''a.example'' 0)\<rparr>)"
    by (rule leaf_step.produce [OF _ host, of _ _ 0])
      (simp_all add: leaf_init_def leafEnter_def leafMiss_def emptyLeafCache_def Let_def)
  moreover have "leaf_reachable leaf_init" by (rule reached.start) (rule refl)
  ultimately show ?thesis using reached.move
    by (simp add: oneGenerating_def leaf_init_def)
qed

theorem leaf_cache_invariant_witness:
  "length (lru (theCA oneGenerating)) \<le> maxCachedLeafs \<and> pcs oneGenerating 1 = Generating ''a.example'' 0"
  using leaf_cache_invariant [OF oneGenerating_reachable] by (simp add: oneGenerating_def)

text \<open>
  C20: no waiting goroutine is stranded: its call is finished, so that it can return, or some
  goroutine is still generating the certificate for it.\<close>

theorem leaf_waiter_progress:
  assumes "leaf_reachable s" "pcs s t = Waiting h c"
  shows "(\<exists>r. leaf_step s (s\<lparr>pcs := (pcs s)(t := Returned h r)\<rparr>)) \<or> (\<exists>t'. pcs s t' = Generating h c)"
proof -
  have p: "pcInv (theCA s) (pcs s)" using leaf.holds [OF assms(1)] by (simp add: sysInv_def)
  from pcInvD(4) [OF p assms(2)] show ?thesis
    using pcInvD(1) [OF p] leaf_step.wake [OF assms(2)] by blast
qed

definition oneWaiting :: leaf_system where
  "oneWaiting = oneGenerating\<lparr>pcs := (pcs oneGenerating)(2 := Waiting ''a.example'' 0)\<rparr>"

theorem leaf_waiter_progress_witness:
  "\<exists>t'. pcs oneWaiting t' = Generating ''a.example'' 0"
proof -
  have host: "leafHost ''a.example'' = Inr ''a.example''" by code_simp
  have "leaf_step oneGenerating (oneGenerating\<lparr>theCA := theCA oneGenerating, pcs := (pcs oneGenerating)(2 := Waiting ''a.example'' 0)\<rparr>)"
    by (rule leaf_step.wait [OF _ host, of _ _ 0])
      (simp_all add: oneGenerating_def leaf_init_def leafEnter_def leafMiss_def emptyLeafCache_def Let_def)
  then have "leaf_reachable oneWaiting"
    using reached.move [OF oneGenerating_reachable] by (simp add: oneWaiting_def)
  from leaf_waiter_progress [OF this, of 2 "''a.example''" 0] show ?thesis
    by (auto simp: oneWaiting_def oneGenerating_def intro: exI [of _ 1])
qed

end
