(* ===== verification/Server_Policy.thy ===== *)
theory Server_Policy
  imports Netip
begin

text \<open>
  The policy state of the server: \<^verbatim>\<open>Apply\<close>, \<^verbatim>\<open>trackTunnel\<close> and the CONNECT admission of \<^verbatim>\<open>proxy/proxy.go\<close> and
  \<^verbatim>\<open>proxy/terminate.go\<close>, and the policy file watcher of \<^verbatim>\<open>proxy/watch.go\<close>. The policy engine, the policy
  parser and the hash are code of other modules: a document is a type variable, and the operations
  on it are arguments.
\<close>

section \<open>The server's policy state\<close>

record audit_event =
  Action :: string
  Host :: string
  Port :: int
  Method :: string
  AuditPath :: string
  Binary :: string
  Allow :: bool
  Reason :: string

definition auditOf :: "string \<Rightarrow> string \<Rightarrow> bool \<Rightarrow> audit_event" where
  "auditOf action reason allow =
     \<lparr>Action = action, Host = [], Port = 0, Method = [], AuditPath = [], Binary = [], Allow = allow, Reason = reason\<rparr>"

text \<open>Connections are numbers; \<open>closedConns\<close> collects the ones on which \<^verbatim>\<open>Close\<close> was called.\<close>

record ('e, 'd) policy_server =
  eng :: "'e option"
  doc :: 'd
  policyGen :: int
  activeTunnels :: "nat set"
  closedConns :: "nat set"
  auditLog :: "audit_event list"

record ('e, 'd) policy_api =
  engApply :: "'d \<Rightarrow> 'e \<Rightarrow> string option \<times> 'e"
  tlsWarnings :: "'d \<Rightarrow> string list"
  parsePolicy :: "string \<Rightarrow> string + 'd"
  denyAll :: 'd
  sha256 :: "string \<Rightarrow> string"

definition logAuditEvent :: "audit_event \<Rightarrow> ('e, 'd) policy_server \<Rightarrow> ('e, 'd) policy_server" where
  "logAuditEvent ev s = s\<lparr>auditLog := auditLog s @ [ev]\<rparr>"

definition Apply ::
    "('e, 'd) policy_api \<Rightarrow> 'd \<Rightarrow> ('e, 'd) policy_server \<Rightarrow> string option \<times> ('e, 'd) policy_server" where
  "Apply api d s =
     (case eng s of
        None \<Rightarrow> (Some ''proxy: not implemented'', s)
      | Some e \<Rightarrow>
          (case engApply api d e of
             (Some err, e') \<Rightarrow> (Some err, s\<lparr>eng := Some e'\<rparr>)
           | (None, e') \<Rightarrow>
               (None,
                s\<lparr>eng := Some e', doc := d, policyGen := policyGen s + 1,
                  activeTunnels := {}, closedConns := closedConns s \<union> activeTunnels s,
                  auditLog := auditLog s @ map (\<lambda>w. auditOf ''audit'' w True) (tlsWarnings api d)\<rparr>)))"

definition trackTunnel :: "nat \<Rightarrow> int \<Rightarrow> ('e, 'd) policy_server \<Rightarrow> bool \<times> ('e, 'd) policy_server" where
  "trackTunnel conn generation s =
     (if policyGen s \<noteq> generation then (False, s)
      else (True, s\<lparr>activeTunnels := insert conn (activeTunnels s)\<rparr>))"

definition releaseTunnel :: "nat \<Rightarrow> ('e, 'd) policy_server \<Rightarrow> ('e, 'd) policy_server" where
  "releaseTunnel conn s = s\<lparr>activeTunnels := activeTunnels s - {conn}\<rparr>"

definition closeConn :: "nat \<Rightarrow> ('e, 'd) policy_server \<Rightarrow> ('e, 'd) policy_server" where
  "closeConn conn s = s\<lparr>closedConns := insert conn (closedConns s)\<rparr>"

definition CurrentDocument :: "('e, 'd) policy_server \<Rightarrow> 'd" where
  "CurrentDocument s = doc s"

section \<open>The policy watcher\<close>

definition revisionPrefix :: string where
  "revisionPrefix = ''# cauteum-policy-revision:''"

fun revisionOfLines :: "string list \<Rightarrow> int" where
  "revisionOfLines [] = 0"
| "revisionOfLines (l # ls) =
     (let line = trimSpace l in
      if \<not> hasPrefix line revisionPrefix then revisionOfLines ls
      else (case parseUint (trimSpace (trimPrefix line revisionPrefix)) 32 of
              Some v \<Rightarrow> v
            | None \<Rightarrow> revisionOfLines ls))"

definition policyRevision :: "string \<Rightarrow> int" where
  "policyRevision raw = revisionOfLines (splitByte (CHR 0x0A) raw)"

definition failClosedPolicy ::
    "('e, 'd) policy_api \<Rightarrow> string \<Rightarrow> ('e, 'd) policy_server \<Rightarrow> ('e, 'd) policy_server" where
  "failClosedPolicy api reason s =
     (case Apply api (denyAll api) s of
        (Some err, s') \<Rightarrow> logAuditEvent (auditOf ''error'' (reason @ ''; deny-all apply failed: '' @ err) False) s'
      | (None, s') \<Rightarrow> logAuditEvent (auditOf ''error'' (reason @ ''; active policy cleared (default deny)'') False) s')"

text \<open>\<open>reporter\<close> is the gateway callback, which may fail; there may be none.\<close>

definition reportPolicyStatus ::
    "('e, 'd) policy_api \<Rightarrow> (int \<Rightarrow> string \<Rightarrow> string option) option \<Rightarrow> int \<Rightarrow> string option
      \<Rightarrow> ('e, 'd) policy_server \<Rightarrow> string option \<times> ('e, 'd) policy_server" where
  "reportPolicyStatus api reporter revision loadErr s =
     (case reporter of
        None \<Rightarrow> (None, s)
      | Some report \<Rightarrow>
          if revision = 0 then (None, s)
          else
            (let message = (case loadErr of Some e \<Rightarrow> e | None \<Rightarrow> []) in
             case report revision message of
               None \<Rightarrow> (None, s)
             | Some err \<Rightarrow>
                 (Some err,
                  if loadErr = None then failClosedPolicy api (''policy acknowledgement: '' @ err) s else s)))"

record ('e, 'd) watcher =
  server :: "('e, 'd) policy_server"
  lastHash :: string
  failClosed :: bool

text \<open>
  One turn of the loop of \<^verbatim>\<open>WatchPolicy\<close>: the content of the file or the read error, and the gateway's
  behaviour at that time. The initial hash is 32 zero bytes.
\<close>

record tick_input =
  fileContent :: "string + string"
  tickReporter :: "(int \<Rightarrow> string \<Rightarrow> string option) option"

definition failTick ::
    "('e, 'd) policy_api \<Rightarrow> tick_input \<Rightarrow> string \<Rightarrow> int \<Rightarrow> string \<Rightarrow> string \<Rightarrow> ('e, 'd) policy_server \<Rightarrow> ('e, 'd) watcher" where
  "failTick api i hash revision what err s =
     (let s' = failClosedPolicy api (what @ err) s in
      \<lparr>server = snd (reportPolicyStatus api (tickReporter i) revision (Some err) s'), lastHash = hash, failClosed = True\<rparr>)"

definition watchTick :: "('e, 'd) policy_api \<Rightarrow> string \<Rightarrow> ('e, 'd) watcher \<Rightarrow> tick_input \<Rightarrow> ('e, 'd) watcher" where
  "watchTick api path w i =
     (case fileContent i of
        Inl err \<Rightarrow>
          if \<not> failClosed w
          then w\<lparr>server := failClosedPolicy api (''policy read: '' @ err) (server w), failClosed := True\<rparr>
          else w
      | Inr raw \<Rightarrow>
          (let revision = policyRevision raw; hash = sha256 api raw in
           if hash = lastHash w \<and> \<not> failClosed w then w
           else (case parsePolicy api raw of
             Inl err \<Rightarrow> failTick api i hash revision ''policy reload: '' err (server w)
           | Inr d \<Rightarrow>
               (case Apply api d (server w) of
                  (Some err, s) \<Rightarrow> failTick api i hash revision ''policy apply: '' err s
                | (None, s) \<Rightarrow>
                    (case reportPolicyStatus api (tickReporter i) revision None s of
                       (Some err, s') \<Rightarrow> \<lparr>server = s', lastHash = hash, failClosed = True\<rparr>
                     | (None, s') \<Rightarrow>
                         \<lparr>server = logAuditEvent (auditOf ''reload'' (''policy reloaded from '' @ path) True) s',
                          lastHash = hash, failClosed = False\<rparr>)))))"

definition watchRun :: "('e, 'd) policy_api \<Rightarrow> string \<Rightarrow> ('e, 'd) watcher \<Rightarrow> tick_input list \<Rightarrow> ('e, 'd) watcher" where
  "watchRun api path w inputs = foldl (watchTick api path) w inputs"

text \<open>The state before the first turn.\<close>

definition zeroHash :: string where
  "zeroHash = replicate 32 (CHR 0x00)"

definition WatchPolicyStart :: "('e, 'd) policy_server \<Rightarrow> ('e, 'd) watcher" where
  "WatchPolicyStart s = \<lparr>server = s, lastHash = zeroHash, failClosed = False\<rparr>"

section \<open>CONNECT admission\<close>

text \<open>
  A CONNECT handler takes a snapshot of the generation, asks the engine, dials, and registers the
  tunnel. Each of these is atomic with respect to \<^verbatim>\<open>Apply\<close>, which holds the same lock. The engine is
  shared, so a decision is taken under the document in force at that moment; the ghost
  component \<open>decidedUnder\<close> remembers the generation and the document.
\<close>

datatype connect_pc =
    CNew
  | CSnapshot int
  | CDecided int
  | CTunnel
  | CEnding
  | CClosed

record ('e, 'd) connect_system =
  srv :: "('e, 'd) policy_server"
  cpc :: "nat \<Rightarrow> connect_pc"
  decidedUnder :: "nat \<rightharpoonup> int \<times> 'd"

inductive connect_step ::
    "('e, 'd) policy_api \<Rightarrow> ('e \<Rightarrow> nat \<Rightarrow> bool) \<Rightarrow> ('e, 'd) connect_system \<Rightarrow> ('e, 'd) connect_system \<Rightarrow> bool"
  for api :: "('e, 'd) policy_api" and allows :: "'e \<Rightarrow> nat \<Rightarrow> bool" where
  snapshot: "cpc s c = CNew \<Longrightarrow>
    connect_step api allows s (s\<lparr>cpc := (cpc s)(c := CSnapshot (policyGen (srv s)))\<rparr>)"
| decide: "cpc s c = CSnapshot g \<Longrightarrow> eng (srv s) = Some e \<Longrightarrow> allows e c \<Longrightarrow>
    connect_step api allows s (s\<lparr>cpc := (cpc s)(c := CDecided g),
      decidedUnder := (decidedUnder s)(c \<mapsto> (policyGen (srv s), doc (srv s)))\<rparr>)"
| reject: "cpc s c = CSnapshot g \<Longrightarrow> connect_step api allows s (s\<lparr>cpc := (cpc s)(c := CClosed)\<rparr>)"
| established: "cpc s c = CDecided g \<Longrightarrow> trackTunnel c g (srv s) = (True, sv) \<Longrightarrow>
    connect_step api allows s (s\<lparr>srv := sv, cpc := (cpc s)(c := CTunnel)\<rparr>)"
| stale: "cpc s c = CDecided g \<Longrightarrow> trackTunnel c g (srv s) = (False, sv) \<Longrightarrow>
    connect_step api allows s (s\<lparr>srv := closeConn c sv, cpc := (cpc s)(c := CClosed)\<rparr>)"
| dial_failed: "cpc s c = CDecided g \<Longrightarrow> connect_step api allows s (s\<lparr>cpc := (cpc s)(c := CClosed)\<rparr>)"
| finished: "cpc s c = CTunnel \<Longrightarrow>
    connect_step api allows s (s\<lparr>srv := closeConn c (srv s), cpc := (cpc s)(c := CEnding)\<rparr>)"
| released: "cpc s c = CEnding \<Longrightarrow>
    connect_step api allows s (s\<lparr>srv := releaseTunnel c (srv s), cpc := (cpc s)(c := CClosed)\<rparr>)"
| reload: "Apply api d (srv s) = (r, sv) \<Longrightarrow> connect_step api allows s (s\<lparr>srv := sv\<rparr>)"

definition connect_init :: "('e, 'd) connect_system \<Rightarrow> bool" where
  "connect_init s \<longleftrightarrow> activeTunnels (srv s) = {} \<and> cpc s = (\<lambda>_. CNew) \<and> decidedUnder s = Map.empty"

abbreviation connect_reachable ::
    "('e, 'd) policy_api \<Rightarrow> ('e \<Rightarrow> nat \<Rightarrow> bool) \<Rightarrow> ('e, 'd) connect_system \<Rightarrow> bool" where
  "connect_reachable api allows \<equiv> reached connect_init (connect_step api allows)"

section \<open>Apply and failing closed\<close>

lemma Apply_success:
  assumes "Apply api d s = (None, s')"
  shows "doc s' = d" "policyGen s' = policyGen s + 1" "activeTunnels s' = {}"
    "closedConns s' = closedConns s \<union> activeTunnels s"
  using assms by (auto simp: Apply_def split: option.splits prod.splits)

lemma Apply_failure:
  assumes "Apply api d s = (Some err, s')"
  shows "doc s' = doc s" "policyGen s' = policyGen s" "activeTunnels s' = activeTunnels s" "closedConns s' = closedConns s"
  using assms by (auto simp: Apply_def split: option.splits prod.splits)

text \<open>The engine accepts the empty document in every state that the server can have.\<close>

definition accepts_deny_all :: "('e, 'd) policy_api \<Rightarrow> bool" where
  "accepts_deny_all api \<longleftrightarrow> (\<forall>e. fst (engApply api (denyAll api) e) = None)"

lemma Apply_eng: "Apply api d s = (r, s') \<Longrightarrow> eng s \<noteq> None \<Longrightarrow> eng s' \<noteq> None"
  by (auto simp: Apply_def split: option.splits prod.splits)

lemma failClosed_clears:
  assumes "accepts_deny_all api" "eng s \<noteq> None"
  shows "doc (failClosedPolicy api reason s) = denyAll api" "activeTunnels (failClosedPolicy api reason s) = {}"
    "eng (failClosedPolicy api reason s) \<noteq> None"
proof -
  obtain e where e: "eng s = Some e" using assms(2) by blast
  have "fst (engApply api (denyAll api) e) = None" using assms(1) unfolding accepts_deny_all_def by blast
  then obtain s' where s': "Apply api (denyAll api) s = (None, s')"
    using e by (cases "engApply api (denyAll api) e") (simp add: Apply_def)
  then show "doc (failClosedPolicy api reason s) = denyAll api" "activeTunnels (failClosedPolicy api reason s) = {}"
    "eng (failClosedPolicy api reason s) \<noteq> None"
    using Apply_success [OF s'] Apply_eng [OF s' assms(2)] by (simp_all add: failClosedPolicy_def logAuditEvent_def)
qed

text \<open>
  What holds between turns: a closed watcher serves the empty document with no tunnel; an open one
  serves the parse of a content with the recorded hash, unless it has not loaded anything yet.
\<close>

definition watchInv :: "('e, 'd) policy_api \<Rightarrow> 'd \<Rightarrow> ('e, 'd) watcher \<Rightarrow> bool" where
  "watchInv api d0 w \<longleftrightarrow>
     eng (server w) \<noteq> None \<and>
     (if failClosed w then doc (server w) = denyAll api
      else (\<exists>raw. sha256 api raw = lastHash w \<and> parsePolicy api raw = Inr (doc (server w))) \<or>
           (lastHash w = zeroHash \<and> doc (server w) = d0))"

lemma reportPolicyStatus_result:
  assumes "reportPolicyStatus api rep rv loadErr s = (r, s')"
  shows "(s' = s \<and> (r = None \<or> loadErr \<noteq> None)) \<or> (r \<noteq> None \<and> (\<exists>reason. s' = failClosedPolicy api reason s))"
proof (cases rep)
  case (Some report)
  show ?thesis
    by (cases "report rv (case loadErr of Some e \<Rightarrow> e | None \<Rightarrow> [])"; cases "rv = 0"; cases loadErr)
      (use assms Some in \<open>auto simp: reportPolicyStatus_def Let_def\<close>)
qed (use assms in \<open>auto simp: reportPolicyStatus_def\<close>)

lemma failTick_inv:
  assumes "accepts_deny_all api" "eng s \<noteq> None"
  shows "failClosed (failTick api i hash rv what err s)"
    "doc (server (failTick api i hash rv what err s)) = denyAll api"
    "activeTunnels (server (failTick api i hash rv what err s)) = {}"
    "eng (server (failTick api i hash rv what err s)) \<noteq> None"
  using failClosed_clears [OF assms]
  by (auto simp: failTick_def reportPolicyStatus_def Let_def split: option.split)

lemma watchTick_inv:
  assumes api: "accepts_deny_all api" and inv: "watchInv api d0 w"
  shows "watchInv api d0 (watchTick api path w i)"
proof -
  have eng: "eng (server w) \<noteq> None" using inv by (simp add: watchInv_def)
  show ?thesis
  proof (cases "fileContent i")
    case (Inl err)
    then show ?thesis using inv failClosed_clears [OF api eng] by (auto simp: watchTick_def watchInv_def)
  next
    case (Inr raw)
    show ?thesis
    proof (cases "sha256 api raw = lastHash w \<and> \<not> failClosed w")
      case True
      then show ?thesis using inv Inr by (simp add: watchTick_def)
    next
      case changed: False
      show ?thesis
      proof (cases "parsePolicy api raw")
        case (Inl err)
        then show ?thesis using Inr changed failTick_inv [OF api eng] by (auto simp: watchTick_def watchInv_def Let_def)
      next
        case parsed: (Inr d)
        obtain r s where ap: "Apply api d (server w) = (r, s)" by fastforce
        note eng' = Apply_eng [OF ap eng]
        show ?thesis
        proof (cases r)
          case (Some err)
          then show ?thesis using Inr changed parsed ap failTick_inv [OF api eng'] by (auto simp: watchTick_def watchInv_def Let_def)
        next
          case None
          obtain q s' where rep: "reportPolicyStatus api (tickReporter i) (policyRevision raw) None s = (q, s')" by fastforce
          from reportPolicyStatus_result [OF rep]
          consider "s' = s" "q = None" | reason where "q \<noteq> None" "s' = failClosedPolicy api reason s" by blast
          then show ?thesis
          proof cases
            case 1
            then show ?thesis using Inr changed parsed ap None rep eng' Apply_success(1) [of api d "server w" s]
              by (auto simp: watchTick_def watchInv_def Let_def logAuditEvent_def)
          next
            case (2 reason)
            then show ?thesis using Inr changed parsed ap None rep failClosed_clears [OF api eng']
              by (auto simp: watchTick_def watchInv_def Let_def)
          qed
        qed
      qed
    qed
  qed
qed

lemma watchRun_inv:
  assumes "accepts_deny_all api"
  shows "watchInv api d0 w \<Longrightarrow> watchInv api d0 (watchRun api path w is)"
  unfolding watchRun_def by (induction "is" arbitrary: w) (auto intro: watchTick_inv [OF assms])

lemma watchTick_marks:
  "case fileContent i of Inl err \<Rightarrow> failClosed (watchTick api path w i)
   | Inr raw \<Rightarrow> lastHash (watchTick api path w i) = sha256 api raw"
  by (auto simp: watchTick_def failTick_def Let_def split: sum.split option.split prod.split)

section \<open>Tunnels belong to the policy in force\<close>

definition connectInv :: "('e, 'd) connect_system \<Rightarrow> bool" where
  "connectInv s \<longleftrightarrow>
     (\<forall>c \<in> activeTunnels (srv s). decidedUnder s c = Some (policyGen (srv s), doc (srv s)) \<and> cpc s c \<in> {CTunnel, CEnding}) \<and>
     (\<forall>c g. cpc s c = CSnapshot g \<longrightarrow> g \<le> policyGen (srv s)) \<and>
     (\<forall>c g. cpc s c = CDecided g \<longrightarrow>
        (\<exists>g' d. decidedUnder s c = Some (g', d) \<and> g \<le> g' \<and> g' \<le> policyGen (srv s) \<and>
           (g' = policyGen (srv s) \<longrightarrow> d = doc (srv s)))) \<and>
     (\<forall>c. cpc s c \<in> {CTunnel, CEnding} \<longrightarrow> c \<in> activeTunnels (srv s) \<or> c \<in> closedConns (srv s))"

lemma connectInv_reload:
  assumes inv: "connectInv s" and ap: "Apply api d (srv s) = (r, sv)"
  shows "connectInv (s\<lparr>srv := sv\<rparr>)"
proof (cases r)
  case None
  note ok = Apply_success [OF ap [unfolded None]]
  show ?thesis using inv unfolding connectInv_def by (fastforce simp: ok)
next
  case (Some err)
  note same = Apply_failure [OF ap [unfolded Some]]
  show ?thesis using inv unfolding connectInv_def by (simp add: same)
qed

lemma connectInv_step: "connect_step api allows s s' \<Longrightarrow> connectInv s \<Longrightarrow> connectInv s'"
proof (induction rule: connect_step.induct)
  case (snapshot s c)
  then show ?case unfolding connectInv_def by auto
next
  case (decide s c g e)
  then show ?case unfolding connectInv_def by auto
next
  case (reject s c g)
  then show ?case unfolding connectInv_def by auto
next
  case (established s c g sv)
  then have g: "g = policyGen (srv s)" and sv: "sv = (srv s)\<lparr>activeTunnels := insert c (activeTunnels (srv s))\<rparr>"
    by (auto simp: trackTunnel_def split: if_splits)
  obtain g' d where "decidedUnder s c = Some (g', d)" "g \<le> g'" "g' \<le> policyGen (srv s)"
      "g' = policyGen (srv s) \<longrightarrow> d = doc (srv s)"
    using established unfolding connectInv_def by blast
  then have "decidedUnder s c = Some (policyGen (srv s), doc (srv s))" using g by auto
  then show ?case using established(3) unfolding connectInv_def sv by auto
next
  case (stale s c g sv)
  then have "sv = srv s" by (auto simp: trackTunnel_def split: if_splits)
  then show ?case using stale unfolding connectInv_def closeConn_def by auto
next
  case (dial_failed s c g)
  then show ?case unfolding connectInv_def by auto
next
  case (finished s c)
  then show ?case unfolding connectInv_def closeConn_def by auto
next
  case (released s c)
  then show ?case unfolding connectInv_def releaseTunnel_def by auto
next
  case (reload d s r sv)
  then show ?case by (intro connectInv_reload)
qed

interpretation connect: invariant_system connect_init "connect_step api allows" connectInv for api allows
  by unfold_locales (simp add: connect_init_def connectInv_def, rule connectInv_step)

section \<open>Properties\<close>

text \<open>
  C11: in every reachable state, under any interleaving of CONNECT handlers and policy reloads, each
  registered tunnel was allowed under the document and generation now in force, and each tunnel
  that an earlier generation admitted has been closed.\<close>

theorem tunnels_under_current_policy:
  assumes "connect_reachable api allows s"
  shows "(c \<in> activeTunnels (srv s) \<longrightarrow> decidedUnder s c = Some (policyGen (srv s), CurrentDocument (srv s))) \<and>
     (cpc s c = CTunnel \<longrightarrow> c \<in> activeTunnels (srv s) \<or> c \<in> closedConns (srv s))"
  using connect.holds [OF assms] unfolding connectInv_def CurrentDocument_def by blast

text \<open>A small engine for the witnesses: a document is its own engine state, document 0 denies.\<close>

definition sampleApi :: "(nat, nat) policy_api" where
  "sampleApi =
     \<lparr>engApply = (\<lambda>d e. if d = 9 then (Some ''rejected'', e) else (None, d)), tlsWarnings = (\<lambda>_. []),
      parsePolicy = (\<lambda>raw. if raw = [] then Inl ''empty'' else Inr (length raw)), denyAll = 0, sha256 = (\<lambda>raw. raw)\<rparr>"

definition sampleServer :: "(nat, nat) policy_server" where
  "sampleServer = \<lparr>eng = Some 1, doc = 1, policyGen = 0, activeTunnels = {}, closedConns = {}, auditLog = []\<rparr>"

definition sampleTunnel :: "(nat, nat) connect_system" where
  "sampleTunnel =
     \<lparr>srv = sampleServer\<lparr>activeTunnels := {5}\<rparr>, cpc = (\<lambda>_. CNew)(5 := CTunnel), decidedUnder = [5 \<mapsto> (0, 1)]\<rparr>"

theorem tunnels_under_current_policy_witness:
  "decidedUnder sampleTunnel 5 = Some (policyGen (srv sampleTunnel), CurrentDocument (srv sampleTunnel))"
proof -
  let ?al = "\<lambda>e c. e = (1 :: nat)"
  let ?s0 = "\<lparr>srv = sampleServer, cpc = (\<lambda>_. CNew), decidedUnder = Map.empty\<rparr>"
  have r0: "connect_reachable sampleApi ?al ?s0"
    by (rule reached.start) (simp add: sampleServer_def connect_init_def)
  have r1: "connect_reachable sampleApi ?al (?s0\<lparr>cpc := (cpc ?s0)(5 := CSnapshot (policyGen (srv ?s0)))\<rparr>)" (is "connect_reachable _ _ ?s1")
    by (rule reached.move [OF r0], rule connect_step.snapshot) simp
  have r2: "connect_reachable sampleApi ?al (?s1\<lparr>cpc := (cpc ?s1)(5 := CDecided 0),
      decidedUnder := (decidedUnder ?s1)(5 \<mapsto> (policyGen (srv ?s1), doc (srv ?s1)))\<rparr>)" (is "connect_reachable _ _ ?s2")
    by (rule reached.move [OF r1], rule connect_step.decide [where e = 1]) (simp_all add: sampleServer_def)
  have "connect_reachable sampleApi ?al (?s2\<lparr>srv := sampleServer\<lparr>activeTunnels := {5}\<rparr>, cpc := (cpc ?s2)(5 := CTunnel)\<rparr>)"
    by (rule reached.move [OF r2], rule connect_step.established [where g = 0])
      (simp_all add: sampleServer_def trackTunnel_def)
  then have "connect_reachable sampleApi ?al sampleTunnel"
    by (simp add: sampleTunnel_def sampleServer_def)
  from tunnels_under_current_policy [OF this, of 5] show ?thesis by (simp add: sampleTunnel_def)
qed

text \<open>
  C21: the watcher fails closed. After every turn the policy in force is the empty one, or the parse
  of a file content with the hash of the content just read; it is the empty one after a read
  error. (The last case covers a content whose hash is the initial zero value.)\<close>

theorem watcher_fails_closed:
  assumes "accepts_deny_all api" "eng s \<noteq> None"
    and "w = watchRun api path (WatchPolicyStart s) (is @ [i])"
  shows "case fileContent i of
       Inl err \<Rightarrow> failClosed w \<and> CurrentDocument (server w) = denyAll api
     | Inr raw \<Rightarrow>
         CurrentDocument (server w) = denyAll api \<or>
         (\<exists>raw'. sha256 api raw' = sha256 api raw \<and> parsePolicy api raw' = Inr (CurrentDocument (server w))) \<or>
         (sha256 api raw = zeroHash \<and> CurrentDocument (server w) = doc s)"
proof -
  let ?v = "watchRun api path (WatchPolicyStart s) is"
  have "watchInv api (doc s) (WatchPolicyStart s)" using assms(2) by (simp add: watchInv_def WatchPolicyStart_def)
  from watchRun_inv [OF assms(1) this] have "watchInv api (doc s) w" using assms(3) by blast
  moreover have "w = watchTick api path ?v i" using assms(3) by (simp add: watchRun_def)
  ultimately show ?thesis using watchTick_marks [where api = api and path = path and w = ?v and i = i]
    by (auto simp: watchInv_def CurrentDocument_def split: sum.splits if_splits)
qed

theorem watcher_fails_closed_witness:
  "CurrentDocument (server (watchRun sampleApi ''p'' (WatchPolicyStart sampleServer)
     ([\<lparr>fileContent = Inr ''abc'', tickReporter = None\<rparr>] @ [\<lparr>fileContent = Inl ''gone'', tickReporter = None\<rparr>]))) = 0"
proof -
  have "accepts_deny_all sampleApi" "eng sampleServer \<noteq> None"
    by (simp_all add: accepts_deny_all_def sampleApi_def sampleServer_def)
  from watcher_fails_closed [OF this refl, of "''p''" "[\<lparr>fileContent = Inr ''abc'', tickReporter = None\<rparr>]"
      "\<lparr>fileContent = Inl ''gone'', tickReporter = None\<rparr>"]
  show ?thesis by (simp add: sampleApi_def)
qed

end
