(* ===== verification/Go_Json.thy ===== *)
theory Go_Json
  imports Netip
begin

text \<open>
  JSON values as \<^verbatim>\<open>encoding/json\<close> hands them to the proxy. The syntax is an argument of the
  definitions that use it, a function from bytes to an optional value; decoding into Go values is
  modelled here: \<^verbatim>\<open>null\<close> leaves the target alone, a wrong type is an error that leaves it alone too, a
  map keeps the last of equal keys, and a struct field matches its key exactly or under case
  folding, the last match winning.
\<close>

datatype json =
    JNull
  | JBool bool
  | JNum string
  | JStr string
  | JArr "json list"
  | JObj "(string \<times> json) list"

type_synonym json_parser = "string \<Rightarrow> json option"

text \<open>A key of a \<^verbatim>\<open>map[string]json.RawMessage\<close>.\<close>

definition jsonKey :: "(string \<times> json) list \<Rightarrow> string \<Rightarrow> json option" where
  "jsonKey kvs k = map_of (rev kvs) k"

text \<open>\<^verbatim>\<open>json.Unmarshal\<close> of an optional raw value into a string variable that holds \<open>old\<close>, error ignored.\<close>

definition jsonStringInto :: "json option \<Rightarrow> string \<Rightarrow> string" where
  "jsonStringInto v old = (case v of Some (JStr s) \<Rightarrow> s | _ \<Rightarrow> old)"

text \<open>
  Decoding an object into a struct: every entry whose key matches a field is handed to the field's
  decoder, in order; \<^const>\<open>None\<close> is a type error.
\<close>

definition fieldMatches :: "string \<Rightarrow> string \<Rightarrow> bool" where
  "fieldMatches k name \<longleftrightarrow> k = name \<or> equalFold k name"

definition decodeString :: "json \<Rightarrow> string \<Rightarrow> string option" where
  "decodeString v old = (case v of JStr s \<Rightarrow> Some s | JNull \<Rightarrow> Some old | _ \<Rightarrow> None)"

fun decodeField :: "string \<Rightarrow> (json \<Rightarrow> 'a \<Rightarrow> 'a option) \<Rightarrow> (string \<times> json) list \<Rightarrow> 'a \<Rightarrow> 'a option" where
  "decodeField name dec [] x = Some x"
| "decodeField name dec ((k, v) # kvs) x =
     (if fieldMatches k name then Option.bind (dec v x) (decodeField name dec kvs)
      else decodeField name dec kvs x)"

text \<open>A struct value: an object, or \<^verbatim>\<open>null\<close>.\<close>

definition decodeStruct :: "((string \<times> json) list \<Rightarrow> 'a \<Rightarrow> 'a option) \<Rightarrow> json \<Rightarrow> 'a \<Rightarrow> 'a option" where
  "decodeStruct dec v x = (case v of JObj kvs \<Rightarrow> dec kvs x | JNull \<Rightarrow> Some x | _ \<Rightarrow> None)"

text \<open>
  \<^verbatim>\<open>json.Unmarshal\<close> of a raw value, absent or present, into a fresh variable. Absent input is an error. The
  container decoders also fail where the caller rejects a nil result.
\<close>

definition jsonString :: "json option \<Rightarrow> string option" where
  "jsonString v = (case v of Some w \<Rightarrow> decodeString w [] | None \<Rightarrow> None)"

definition jsonObject :: "json option \<Rightarrow> (string \<times> json) list option" where
  "jsonObject v = (case v of Some (JObj kvs) \<Rightarrow> Some kvs | _ \<Rightarrow> None)"

definition jsonArray :: "json option \<Rightarrow> json list option" where
  "jsonArray v = (case v of Some (JArr vs) \<Rightarrow> Some vs | _ \<Rightarrow> None)"

definition jsonStrings :: "json option \<Rightarrow> string list option" where
  "jsonStrings v = Option.bind (jsonArray v) (\<lambda>vs. those (map (\<lambda>w. decodeString w []) vs))"

definition jsonObjects :: "json option \<Rightarrow> (string \<times> json) list list option" where
  "jsonObjects v =
     Option.bind (jsonArray v) (\<lambda>vs. those (map (\<lambda>w. case w of JObj kvs \<Rightarrow> Some kvs | JNull \<Rightarrow> Some [] | _ \<Rightarrow> None) vs))"

definition isBoolOrNull :: "json \<Rightarrow> bool" where
  "isBoolOrNull v = (case v of JBool _ \<Rightarrow> True | JNull \<Rightarrow> True | _ \<Rightarrow> False)"

text \<open>A field of a struct, decoded on its own: the struct decodes if each of its fields does.\<close>

definition structField :: "string \<Rightarrow> (json \<Rightarrow> 'a \<Rightarrow> 'a option) \<Rightarrow> 'a \<Rightarrow> json option \<Rightarrow> 'a option" where
  "structField name dec zero v = (case v of None \<Rightarrow> None | Some w \<Rightarrow> decodeStruct (decodeField name dec) w zero)"

definition decodeRaw :: "json \<Rightarrow> json option \<Rightarrow> json option option" where
  "decodeRaw v old = Some (Some v)"

definition decodePtr :: "(json \<Rightarrow> 'a \<Rightarrow> 'a option) \<Rightarrow> 'a \<Rightarrow> json \<Rightarrow> 'a option \<Rightarrow> 'a option option" where
  "decodePtr dec zero v old =
     (if v = JNull then Some None else map_option Some (dec v (case old of Some x \<Rightarrow> x | None \<Rightarrow> zero)))"

definition decodeUint :: "nat \<Rightarrow> json \<Rightarrow> int \<Rightarrow> int option" where
  "decodeUint bits v old = (case v of JNum lit \<Rightarrow> parseUint lit bits | JNull \<Rightarrow> Some old | _ \<Rightarrow> None)"

definition decodeBool :: "json \<Rightarrow> bool \<Rightarrow> bool option" where
  "decodeBool v old = (case v of JBool b \<Rightarrow> Some b | JNull \<Rightarrow> Some old | _ \<Rightarrow> None)"

definition decodeRaws :: "json \<Rightarrow> json list option \<Rightarrow> json list option option" where
  "decodeRaws v old = (case v of JArr vs \<Rightarrow> Some (Some vs) | JNull \<Rightarrow> Some None | _ \<Rightarrow> None)"

definition decodeMap :: "json \<Rightarrow> (string \<times> json) list option \<Rightarrow> (string \<times> json) list option option" where
  "decodeMap v old = (case v of JObj kvs \<Rightarrow> Some (Some ((case old of Some m \<Rightarrow> m | None \<Rightarrow> []) @ kvs)) | JNull \<Rightarrow> Some None | _ \<Rightarrow> None)"

text \<open>
  A floating point variable, held as the literal. The literal denotes \<open>m * 10 ^ e\<close>; decoding fails on
  overflow, and comparisons see the value rounded to the nearest double, ties to even.
\<close>

definition scanExp :: "string \<Rightarrow> int" where
  "scanExp s =
     (case s of
        [] \<Rightarrow> 0
      | _ # r \<Rightarrow>
          (case r of
             CHR ''-'' # ds \<Rightarrow> - decVal ds
           | CHR ''+'' # ds \<Rightarrow> decVal ds
           | ds \<Rightarrow> decVal ds))"

definition floatLit :: "string \<Rightarrow> int \<times> int" where
  "floatLit lit =
     (let neg = hasPrefix lit ''-''; body = (if neg then tl lit else lit);
          ip = takeWhile isDigit body; r1 = dropWhile isDigit body;
          fp = (if hasPrefix r1 ''.'' then takeWhile isDigit (tl r1) else []);
          r2 = (if hasPrefix r1 ''.'' then dropWhile isDigit (tl r1) else r1);
          m = decVal (ip @ fp) in
      (if neg then - m else m, scanExp r2 - int (length fp)))"

text \<open>\<open>litLess lit p q\<close>: the literal is below \<open>p / q\<close>, for positive \<open>q\<close>.\<close>

definition litLess :: "string \<Rightarrow> int \<Rightarrow> int \<Rightarrow> bool" where
  "litLess lit p q =
     (case floatLit lit of
        (m, e) \<Rightarrow> if e \<ge> 0 then m * 10 ^ nat e * q < p else m * q < p * 10 ^ nat (- e))"

definition litGreater :: "string \<Rightarrow> int \<Rightarrow> int \<Rightarrow> bool" where
  "litGreater lit p q =
     (case floatLit lit of
        (m, e) \<Rightarrow> if e \<ge> 0 then m * 10 ^ nat e * q > p else m * q > p * 10 ^ nat (- e))"

definition floatOverflows :: "string \<Rightarrow> bool" where
  "floatOverflows lit =
     (\<not> litLess lit (2 ^ 1024 - 2 ^ 970) 1 \<or> \<not> litGreater lit (- (2 ^ 1024 - 2 ^ 970)) 1)"

definition decodeFloat :: "json \<Rightarrow> string \<Rightarrow> string option" where
  "decodeFloat v old =
     (case v of JNum lit \<Rightarrow> if floatOverflows lit then None else Some lit | JNull \<Rightarrow> Some old | _ \<Rightarrow> None)"

definition floatBelow0 :: "string \<Rightarrow> bool" where
  "floatBelow0 lit = litLess lit (- 1) (2 ^ 1075)"

definition floatAbove1 :: "string \<Rightarrow> bool" where
  "floatAbove1 lit = litGreater lit (2 ^ 53 + 1) (2 ^ 53)"

end
