(* ===== verification/GraphQL.thy ===== *)
theory GraphQL
  imports Secrets Go_Json
begin

text \<open>
  The GraphQL inspection of \<^verbatim>\<open>proxy/graphql.go\<close>: lexer, parser of a document into operations with their
  root fields, expansion of fragments, and the classification of request envelopes. The parser's
  position is the list of the remaining tokens. The recursion over selection sets carries fuel;
  twice the number of tokens is enough (\<open>selection_fuel\<close> below), so the error \<open>GqlFuel\<close> never
  reaches a caller.
\<close>

section \<open>Lexer\<close>

datatype gql_kind = KName | KString | KPunct | KValue

record graphqlToken =
  tokValue :: string
  tokKind :: gql_kind

definition tok :: "gql_kind \<Rightarrow> string \<Rightarrow> graphqlToken" where
  "tok k v = \<lparr>tokValue = v, tokKind = k\<rparr>"

datatype gql_error = GqlErr string | GqlFuel

definition gqlErrorMsg :: "gql_error \<Rightarrow> string" where
  "gqlErrorMsg err = (case err of GqlErr msg \<Rightarrow> msg | GqlFuel \<Rightarrow> [])"

definition isGraphQLNameStart :: "char \<Rightarrow> bool" where
  "isGraphQLNameStart c \<longleftrightarrow> c = CHR ''_'' \<or> isLowerAlpha c \<or> isUpperAlpha c"

definition isGraphQLNameContinue :: "char \<Rightarrow> bool" where
  "isGraphQLNameContinue c \<longleftrightarrow> isGraphQLNameStart c \<or> isDigit c"

definition isGraphQLNumberByte :: "char \<Rightarrow> bool" where
  "isGraphQLNumberByte c \<longleftrightarrow> isDigit c \<or> c \<in> set ''.eE+-''"

definition isGraphQLPunct :: "char \<Rightarrow> bool" where
  "isGraphQLPunct c \<longleftrightarrow> c \<in> set ''!$():=@[]{|}&''"

definition quote3 :: string where
  "quote3 = [CHR 0x22, CHR 0x22, CHR 0x22]"

text \<open>The rest of a string literal after its opening quotes: what it consumes, and what is left.\<close>

fun scanString :: "bool \<Rightarrow> string \<Rightarrow> (string \<times> string) option" where
  "scanString block [] = None"
| "scanString block (c # cs) =
     (if block \<and> hasPrefix (c # cs) quote3 then Some (take 3 (c # cs), drop 3 (c # cs))
      else if \<not> block \<and> c = CHR 0x22 then Some ([c], cs)
      else if c = CHR 0x5C \<and> \<not> block then
        (case cs of
           [] \<Rightarrow> None
         | d # ds \<Rightarrow> map_option (\<lambda>(a, r). (c # d # a, r)) (scanString block ds))
      else map_option (\<lambda>(a, r). (c # a, r)) (scanString block cs))"

lemma scanString_length: "scanString block s = Some (a, r) \<Longrightarrow> length r \<le> length s"
proof (induction block s arbitrary: a r rule: scanString.induct)
  case (2 block c cs)
  then show ?case by (fastforce split: if_splits list.splits)
qed simp

definition maxGraphQLTokens :: int where
  "maxGraphQLTokens = 20000"

definition nextToken :: "char \<Rightarrow> string \<Rightarrow> gql_error + (graphqlToken \<times> string)" where
  "nextToken c cs =
     (if c = CHR 0x22 then
        (let block = hasPrefix (c # cs) quote3; n = (if block then 3 else 1) in
         case scanString block (drop n (c # cs)) of
           None \<Rightarrow> Inl (GqlErr ''unterminated GraphQL string'')
         | Some (a, r) \<Rightarrow> Inr (tok KString (take n (c # cs) @ a), r))
      else if isGraphQLNameStart c then
        Inr (tok KName (c # takeWhile isGraphQLNameContinue cs), dropWhile isGraphQLNameContinue cs)
      else if c = CHR ''.'' \<and> hasPrefix (c # cs) ''...'' then Inr (tok KPunct ''...'', drop 2 cs)
      else if isGraphQLPunct c then Inr (tok KPunct [c], cs)
      else if c = CHR ''-'' \<or> isDigit c then
        Inr (tok KValue (c # takeWhile isGraphQLNumberByte cs), dropWhile isGraphQLNumberByte cs)
      else Inl (GqlErr ''invalid GraphQL token''))"

lemma nextToken_length:
  assumes "nextToken c cs = Inr (t, r)"
  shows "length r \<le> length cs"
proof (cases "c = CHR 0x22")
  case True
  define block where "block = hasPrefix (c # cs) quote3"
  define n :: nat where "n = (if block then 3 else 1)"
  obtain a where "scanString block (drop n (c # cs)) = Some (a, r)"
    using assms True unfolding nextToken_def block_def n_def Let_def by (auto split: option.splits)
  from scanString_length [OF this] show ?thesis by (simp add: n_def split: if_splits)
next
  case False
  then show ?thesis using assms unfolding nextToken_def
    by (auto simp: length_dropWhile_le split: if_split_asm)
qed

function lexLoop :: "graphqlToken list \<Rightarrow> string \<Rightarrow> gql_error + graphqlToken list" where
  "lexLoop tokens [] = Inr tokens"
| "lexLoop tokens (c # cs) =
     (if c = CHR '' '' \<or> c = CHR 0x09 \<or> c = CHR 0x0D \<or> c = CHR 0x0A \<or> c = CHR '','' then lexLoop tokens cs
      else if c = CHR ''#'' then lexLoop tokens (dropWhile (\<lambda>d. d \<noteq> CHR 0x0A \<and> d \<noteq> CHR 0x0D) cs)
      else (case nextToken c cs of
              Inl e \<Rightarrow> Inl e
            | Inr (t, rest) \<Rightarrow>
                if int (length tokens) + 1 > maxGraphQLTokens then Inl (GqlErr ''GraphQL document token limit exceeded'')
                else lexLoop (tokens @ [t]) rest))"
  by pat_completeness auto
termination
  by (relation "measure (\<lambda>(tokens, s). length s)")
    (auto simp: less_Suc_eq_le length_dropWhile_le dest: nextToken_length)

definition lexGraphQL :: "string \<Rightarrow> gql_error + graphqlToken list" where
  "lexGraphQL source = lexLoop [] source"

section \<open>Parser\<close>

type_synonym tokens = "graphqlToken list"

definition peek :: "tokens \<Rightarrow> string" where
  "peek ts = (case ts of [] \<Rightarrow> [] | t # _ \<Rightarrow> tokValue t)"

definition peekKind :: "gql_kind \<Rightarrow> tokens \<Rightarrow> bool" where
  "peekKind k ts = (case ts of [] \<Rightarrow> False | t # _ \<Rightarrow> tokKind t = k)"

definition takeName :: "tokens \<Rightarrow> (string \<times> tokens) option" where
  "takeName ts = (if \<not> peekKind KName ts then None else Some (peek ts, tl ts))"

fun balLoop :: "string list \<Rightarrow> tokens \<Rightarrow> gql_error + tokens" where
  "balLoop [] ts = Inr ts"
| "balLoop (closer # stack) [] = Inl (GqlErr ''unclosed delimiter'')"
| "balLoop (closer # stack) (t # ts) =
     (if tokValue t = ''('' then balLoop ('')'' # closer # stack) ts
      else if tokValue t = ''['' then balLoop ('']'' # closer # stack) ts
      else if tokValue t = ''{'' then balLoop (''}'' # closer # stack) ts
      else if tokValue t = closer then balLoop stack ts
      else if tokValue t = '')'' \<or> tokValue t = '']'' \<or> tokValue t = ''}'' then Inl (GqlErr ''mismatched delimiter'')
      else balLoop (closer # stack) ts)"

text \<open>Every call of \<^verbatim>\<open>skipBalanced\<close> in the program opens with a parenthesis.\<close>

definition skipBalanced :: "tokens \<Rightarrow> gql_error + tokens" where
  "skipBalanced ts =
     (if peek ts \<noteq> ''('' then Inl (GqlErr ''opening delimiter required'') else balLoop ['')''] (tl ts))"

lemma balLoop_length: "balLoop stack ts = Inr r \<Longrightarrow> length r \<le> length ts"
  by (induction stack ts rule: balLoop.induct) (auto split: if_splits)

lemma skipBalanced_length: "skipBalanced ts = Inr r \<Longrightarrow> length r \<le> length ts"
  by (cases ts) (auto simp: skipBalanced_def peek_def dest: balLoop_length split: if_splits)

definition skipArguments :: "tokens \<Rightarrow> gql_error + tokens" where
  "skipArguments ts = (if peek ts = ''('' then skipBalanced ts else Inr ts)"

lemma skipArguments_length: "skipArguments ts = Inr r \<Longrightarrow> length r \<le> length ts"
  by (auto simp: skipArguments_def dest: skipBalanced_length split: if_splits)

lemma takeName_length: "takeName ts = Some (n, r) \<Longrightarrow> length r < length ts"
  by (cases ts) (auto simp: takeName_def peekKind_def split: if_splits)

function skipDirectives :: "tokens \<Rightarrow> gql_error + tokens" where
  "skipDirectives ts =
     (if peek ts \<noteq> ''@'' then Inr ts
      else (case takeName (tl ts) of
              None \<Rightarrow> Inl (GqlErr ''directive name required'')
            | Some (n, r) \<Rightarrow>
                (case skipArguments r of
                   Inl e \<Rightarrow> Inl e
                 | Inr r' \<Rightarrow> skipDirectives r')))"
  by pat_completeness auto
termination
proof (relation "measure length", goal_cases)
  case (2 ts x n r r')
  then have "length r' \<le> length r" "length r < length (tl ts)"
    by (auto dest: skipArguments_length takeName_length)
  then show ?case by simp
qed simp

declare skipDirectives.simps [simp del]

record graphqlSelection =
  selFields :: "string list"
  selFragments :: "string list"

definition emptySelection :: graphqlSelection where
  "emptySelection = \<lparr>selFields = [], selFragments = []\<rparr>"

definition mergeSelection :: "graphqlSelection \<Rightarrow> graphqlSelection \<Rightarrow> graphqlSelection" where
  "mergeSelection sel inl = \<lparr>selFields = selFields sel @ selFields inl, selFragments = selFragments sel @ selFragments inl\<rparr>"

definition addField :: "graphqlSelection \<Rightarrow> string \<Rightarrow> graphqlSelection" where
  "addField sel f = sel\<lparr>selFields := selFields sel @ [f]\<rparr>"

definition addSpread :: "graphqlSelection \<Rightarrow> string \<Rightarrow> graphqlSelection" where
  "addSpread sel f = sel\<lparr>selFragments := selFragments sel @ [f]\<rparr>"

text \<open>A field name with its optional alias, arguments and directives.\<close>

definition fieldHead :: "tokens \<Rightarrow> gql_error + (string \<times> tokens)" where
  "fieldHead ts =
     (case takeName ts of
        None \<Rightarrow> Inl (GqlErr ''field name required'')
      | Some (f, r) \<Rightarrow>
          bindR (if peek r = '':'' then
                   (case takeName (tl r) of
                      None \<Rightarrow> Inl (GqlErr ''aliased field name required'')
                    | Some (f', r') \<Rightarrow> Inr (f', r'))
                 else Inr (f, r))
            (\<lambda>(f, r). bindR (skipArguments r) (\<lambda>r. mapR (Pair f) (skipDirectives r))))"

definition maxSelectionDepth :: nat where
  "maxSelectionDepth = 128"

fun selectionSet :: "nat \<Rightarrow> nat \<Rightarrow> tokens \<Rightarrow> gql_error + (graphqlSelection \<times> tokens)"
  and selectionLoop :: "nat \<Rightarrow> nat \<Rightarrow> graphqlSelection \<Rightarrow> tokens \<Rightarrow> gql_error + (graphqlSelection \<times> tokens)" where
  "selectionSet 0 depth ts = Inl GqlFuel"
| "selectionSet (Suc n) depth ts =
     (if depth \<ge> maxSelectionDepth \<or> peek ts \<noteq> ''{'' then Inl (GqlErr ''selection set required'')
      else selectionLoop n (Suc depth) emptySelection (tl ts))"
| "selectionLoop 0 depth sel ts = Inl GqlFuel"
| "selectionLoop (Suc n) depth sel ts =
     (if ts \<noteq> [] \<and> peek ts \<noteq> ''}'' then
        (if peek ts = ''...'' then
           (let r = tl ts in
            if peek r = ''on'' then
              (case takeName (tl r) of
                 None \<Rightarrow> Inl (GqlErr ''inline fragment type required'')
               | Some (_, r1) \<Rightarrow>
                   bindR (skipDirectives r1) (\<lambda>r2.
                   bindR (selectionSet n depth r2) (\<lambda>(inl, r3). selectionLoop n depth (mergeSelection sel inl) r3)))
            else if peek r = ''@'' then
              bindR (skipDirectives r) (\<lambda>r2.
              bindR (selectionSet n depth r2) (\<lambda>(inl, r3). selectionLoop n depth (mergeSelection sel inl) r3))
            else
              (case takeName r of
                 None \<Rightarrow> Inl (GqlErr ''fragment spread name required'')
               | Some (name, r1) \<Rightarrow>
                   bindR (skipDirectives r1) (\<lambda>r2. selectionLoop n depth (addSpread sel name) r2)))
         else
           bindR (fieldHead ts) (\<lambda>(f, r).
             if peek r = ''{'' then
               bindR (selectionSet n depth r) (\<lambda>(_, r'). selectionLoop n depth (addField sel f) r')
             else selectionLoop n depth (addField sel f) r))
      else if peek ts \<noteq> ''}'' then Inl (GqlErr ''unterminated selection set'')
      else Inr (sel, tl ts))"

section \<open>Documents\<close>

record graphql_operation =
  OperationType :: string
  OperationName :: string
  OpFields :: "string list"
  Persisted :: bool
  PersistedQueryHash :: string
  PersistedQueryID :: string

definition newOperation :: "string \<Rightarrow> string \<Rightarrow> graphql_operation" where
  "newOperation opType name =
     \<lparr>OperationType = opType, OperationName = name, OpFields = [], Persisted = False,
      PersistedQueryHash = [], PersistedQueryID = []\<rparr>"

type_synonym fragment_defs = "(string \<times> graphqlSelection) list"

record document_state =
  docOperations :: "(graphql_operation \<times> graphqlSelection) list"
  docFragments :: fragment_defs

definition addOperation :: "document_state \<Rightarrow> graphql_operation \<Rightarrow> graphqlSelection \<Rightarrow> document_state" where
  "addOperation d opn sel = d\<lparr>docOperations := docOperations d @ [(opn, sel)]\<rparr>"

definition addFragment :: "document_state \<Rightarrow> string \<Rightarrow> graphqlSelection \<Rightarrow> document_state" where
  "addFragment d name sel = d\<lparr>docFragments := (name, sel) # docFragments d\<rparr>"

text \<open>Enough fuel for the selection sets in the tokens that are left.\<close>

definition selFuel :: "tokens \<Rightarrow> nat" where
  "selFuel ts = Suc (2 * length ts)"

definition topSelection :: "tokens \<Rightarrow> gql_error + (graphqlSelection \<times> tokens)" where
  "topSelection ts = selectionSet (selFuel ts) 0 ts"

definition operationDefinition :: "tokens \<Rightarrow> gql_error + (graphql_operation \<times> graphqlSelection \<times> tokens)" where
  "operationDefinition ts =
     (let opType = peek ts; r = tl ts;
          (name, r1) = (if peekKind KName r then (peek r, tl r) else ([], r)) in
      bindR (skipArguments r1) (\<lambda>r2.
      bindR (skipDirectives r2) (\<lambda>r3.
      mapR (\<lambda>(sel, r4). (newOperation opType name, sel, r4)) (topSelection r3))))"

definition fragmentDefinition :: "tokens \<Rightarrow> gql_error + (string \<times> graphqlSelection \<times> tokens)" where
  "fragmentDefinition ts =
     (case takeName (tl ts) of
        None \<Rightarrow> Inl (GqlErr ''invalid fragment'')
      | Some (name, r) \<Rightarrow>
          if peek r \<noteq> ''on'' then Inl (GqlErr ''invalid fragment'')
          else (case takeName (tl r) of
                  None \<Rightarrow> Inl (GqlErr ''invalid fragment type'')
                | Some (_, r1) \<Rightarrow>
                    bindR (skipDirectives r1) (\<lambda>r2.
                    mapR (\<lambda>(sel, r3). (name, sel, r3)) (topSelection r2))))"

fun documentLoop :: "nat \<Rightarrow> document_state \<Rightarrow> tokens \<Rightarrow> gql_error + document_state" where
  "documentLoop fuel d [] = Inr d"
| "documentLoop 0 d (t # ts) = Inl GqlFuel"
| "documentLoop (Suc n) d (t # ts) =
     (if tokValue t = ''{'' then
        bindR (topSelection (t # ts)) (\<lambda>(sel, r). documentLoop n (addOperation d (newOperation ''query'' []) sel) r)
      else if tokValue t = ''query'' \<or> tokValue t = ''mutation'' \<or> tokValue t = ''subscription'' then
        bindR (operationDefinition (t # ts)) (\<lambda>(opn, sel, r). documentLoop n (addOperation d opn sel) r)
      else if tokValue t = ''fragment'' then
        bindR (fragmentDefinition (t # ts)) (\<lambda>(name, sel, r). documentLoop n (addFragment d name sel) r)
      else Inl (GqlErr ''unsupported GraphQL definition''))"

text \<open>
  \<^verbatim>\<open>expandRootFields\<close>: a depth-first walk over fragment spreads, with the fields and the visited names as
  accumulators. Each nested visit is of a defined fragment not visited before, so the number of
  definitions bounds the depth.
\<close>

fun visitNames :: "nat \<Rightarrow> fragment_defs \<Rightarrow> string list \<Rightarrow> string list \<times> string list \<Rightarrow> string list \<times> string list" where
  "visitNames fuel frags [] st = st"
| "visitNames fuel frags (name # names) (fs, visited) =
     (if name \<in> set visited then visitNames fuel frags names (fs, visited)
      else (case map_of frags name of
              None \<Rightarrow> visitNames fuel frags names (fs, name # visited)
            | Some frag \<Rightarrow>
                (case fuel of
                   0 \<Rightarrow> visitNames fuel frags names (fs, name # visited)
                 | Suc n \<Rightarrow>
                     visitNames fuel frags names
                       (visitNames n frags (selFragments frag) (fs @ selFields frag, name # visited)))))"

definition expandRootFields :: "fragment_defs \<Rightarrow> graphqlSelection \<Rightarrow> string list" where
  "expandRootFields frags sel =
     sort (remdups (fst (visitNames (length frags) frags (selFragments sel) (selFields sel, []))))"

definition parseGraphQLDocument :: "string \<Rightarrow> gql_error + graphql_operation list" where
  "parseGraphQLDocument source =
     bindR (lexGraphQL source) (\<lambda>ts.
     bindR (documentLoop (length ts) \<lparr>docOperations = [], docFragments = []\<rparr> ts) (\<lambda>d.
       if docOperations d = [] then Inl (GqlErr ''GraphQL document has no operation'')
       else Inr (map (\<lambda>(opn, sel). opn\<lparr>OpFields := expandRootFields (docFragments d) sel\<rparr>) (docOperations d))))"

section \<open>Envelopes\<close>

record graphqlEnvelope =
  envQuery :: string
  envOperationName :: string
  envHash :: string
  envId :: string

definition selectOperation :: "string \<Rightarrow> graphql_operation list \<Rightarrow> graphql_operation option" where
  "selectOperation name defs =
     (if name = [] then (case defs of [d] \<Rightarrow> Some d | _ \<Rightarrow> None)
      else find (\<lambda>d. OperationName d = name) defs)"

definition classifyEnvelope :: "graphqlEnvelope \<Rightarrow> gql_error + graphql_operation" where
  "classifyEnvelope e =
     (let query = trimSpace (envQuery e) in
      if query = [] then
        (if envHash e = [] \<and> envId e = []
         then Inl (GqlErr ''graphql: request has no query or persisted identifier'')
         else Inr ((newOperation [] (envOperationName e))
                \<lparr>Persisted := True, PersistedQueryHash := envHash e, PersistedQueryID := envId e\<rparr>))
      else (case parseGraphQLDocument query of
              Inl _ \<Rightarrow> Inl (GqlErr ''graphql: invalid document'')
            | Inr defs \<Rightarrow>
                (case selectOperation (envOperationName e) defs of
                   None \<Rightarrow> Inl (GqlErr ''graphql: operationName is missing or unknown'')
                 | Some d \<Rightarrow> Inr (d\<lparr>Persisted := envHash e \<noteq> [] \<or> envId e \<noteq> [],
                                    PersistedQueryHash := envHash e, PersistedQueryID := envId e\<rparr>))))"

definition classifyGraphQLEnvelopes :: "graphqlEnvelope list \<Rightarrow> gql_error + graphql_operation list" where
  "classifyGraphQLEnvelopes es = traverseR classifyEnvelope es"

definition graphqlPersistedHash :: "json option \<Rightarrow> string" where
  "graphqlPersistedHash ext =
     (case ext of
        None \<Rightarrow> []
      | Some v \<Rightarrow>
          (case decodeStruct (decodeField ''persistedQuery''
                  (decodeStruct (decodeField ''sha256Hash'' decodeString))) v [] of
             Some hash \<Rightarrow> hash
           | None \<Rightarrow> []))"

definition decodeGraphQLEnvelope :: "json \<Rightarrow> gql_error + graphqlEnvelope" where
  "decodeGraphQLEnvelope v =
     (case v of
        JObj kvs \<Rightarrow>
          (let id1 = jsonStringInto (jsonKey kvs ''id'') [];
               id2 = (if id1 = [] then jsonStringInto (jsonKey kvs ''documentId'') id1 else id1);
               id3 = (if id2 = [] then jsonStringInto (jsonKey kvs ''queryId'') id2 else id2) in
           Inr \<lparr>envQuery = jsonStringInto (jsonKey kvs ''query'') [],
                envOperationName = jsonStringInto (jsonKey kvs ''operationName'') [],
                envHash = graphqlPersistedHash (jsonKey kvs ''extensions''), envId = id3\<rparr>)
      | _ \<Rightarrow> Inl (GqlErr ''graphql: each batch item must be an object''))"

definition uniqueParam :: "(string \<times> string list) list \<Rightarrow> string \<Rightarrow> gql_error + string" where
  "uniqueParam params key =
     (case map_of params key of
        None \<Rightarrow> Inr []
      | Some vs \<Rightarrow> if length vs > 1 then Inl (GqlErr ''graphql: GET parameter must not repeat'') else Inr (hd vs))"

fun combinedId :: "(string \<times> string list) list \<Rightarrow> string \<Rightarrow> string list \<Rightarrow> gql_error + string" where
  "combinedId params idv [] = Inr idv"
| "combinedId params idv (key # keys) =
     bindR (uniqueParam params key) (\<lambda>value.
       if value \<noteq> [] then
         (if idv \<noteq> [] then Inl (GqlErr ''graphql: persisted-query id parameters cannot be combined'')
          else combinedId params value keys)
       else combinedId params idv keys)"

definition graphqlGETEnvelope :: "json_parser \<Rightarrow> string \<Rightarrow> gql_error + graphqlEnvelope list" where
  "graphqlGETEnvelope parseJSON rawQuery =
     (case parseQueryValues rawQuery of
        None \<Rightarrow> Inl (GqlErr ''graphql: invalid GET query parameters'')
      | Some params \<Rightarrow>
          bindR (uniqueParam params ''query'') (\<lambda>query.
          bindR (uniqueParam params ''operationName'') (\<lambda>name.
          bindR (uniqueParam params ''extensions'') (\<lambda>extensions.
          bindR (combinedId params [] [''id'', ''documentId'', ''queryId'']) (\<lambda>idv.
            Inr [\<lparr>envQuery = query, envOperationName = name,
                  envHash = (if extensions = [] then [] else graphqlPersistedHash (parseJSON extensions)),
                  envId = idv\<rparr>])))))"

definition defaultGraphQLMaxBodyBytes :: int where
  "defaultGraphQLMaxBodyBytes = 64 * 2 ^ 10"

definition envelopeValues :: "json \<Rightarrow> gql_error + json list" where
  "envelopeValues v =
     (case v of
        JArr vs \<Rightarrow> if vs = [] then Inl (GqlErr ''graphql: batch must be a non-empty array'') else Inr vs
      | _ \<Rightarrow> Inr [v])"

definition fixLength :: "http_request \<Rightarrow> string \<Rightarrow> http_request" where
  "fixLength req body =
     (let req1 = req\<lparr>reqBody := Some \<lparr>bodyData = body, bodyReadErr = False, bodyCloseErr = False\<rparr>\<rparr> in
      if reqContentLength req < 0 \<or> reqTransferEncoding req \<noteq> [] then
        req1\<lparr>reqContentLength := int (length body), reqTransferEncoding := [],
             reqHeader := hdrSet (hdrDel (reqHeader req) ''Transfer-Encoding'') ''Content-Length'' (itoa (int (length body)))\<rparr>
      else req1)"

text \<open>
  \<open>maxBytes\<close> is the endpoint's limit, if any. The result carries the request with its body restored
  for the relay. \<^verbatim>\<open>url\<close> is not nil on a server request.
\<close>

definition parseGraphQLRequest ::
    "json_parser \<Rightarrow> http_request \<Rightarrow> int option \<Rightarrow> gql_error + (graphql_operation list \<times> http_request)" where
  "parseGraphQLRequest parseJSON req maxBody =
     (let maxBytes = (case maxBody of Some m \<Rightarrow> m | None \<Rightarrow> defaultGraphQLMaxBodyBytes) in
      if list_ex (\<lambda>e. trimSpace e \<noteq> [] \<and> \<not> equalFold (trimSpace e) ''identity'') (hdrValues (reqHeader req) ''Content-Encoding'')
      then Inl (GqlErr ''graphql: content encoding is not supported'')
      else if list_ex (\<lambda>c. hasPrefix (toLower (trimSpace c)) ''multipart/'') (hdrValues (reqHeader req) ''Content-Type'')
      then Inl (GqlErr ''graphql: multipart requests are not supported'')
      else if toUpper (reqMethod req) = ''GET'' then
        bindR (graphqlGETEnvelope parseJSON (case reqURL req of Some u \<Rightarrow> RawQuery u | None \<Rightarrow> [])) (\<lambda>es.
          mapR (\<lambda>ops. (ops, req)) (classifyGraphQLEnvelopes es))
      else if toUpper (reqMethod req) \<noteq> ''POST'' then Inl (GqlErr ''graphql: unsupported HTTP method'')
      else (case reqBody req of
        None \<Rightarrow> Inl (GqlErr ''graphql: POST body is required'')
      | Some rb \<Rightarrow>
          (let body = bodyData rb; tooLong = int (length body) > maxBytes in
           if bodyReadErr rb \<and> \<not> tooLong then Inl (GqlErr ''graphql: unable to read request body'')
           else if tooLong then Inl (GqlErr ''graphql: request body exceeds limit'')
           else (case parseJSON body of
             None \<Rightarrow> Inl (GqlErr ''graphql: invalid JSON envelope'')
           | Some v \<Rightarrow>
               bindR (envelopeValues v) (\<lambda>vs.
               bindR (traverseR decodeGraphQLEnvelope vs) (\<lambda>es.
                 mapR (\<lambda>ops. (ops, fixLength req body)) (classifyGraphQLEnvelopes es)))))))"

section \<open>Progress of the parser\<close>

lemma balLoop_no_fuel: "balLoop stack ts \<noteq> Inl GqlFuel"
  by (induction stack ts rule: balLoop.induct) auto

lemma skipArguments_no_fuel: "skipArguments ts \<noteq> Inl GqlFuel"
  by (simp add: skipArguments_def skipBalanced_def balLoop_no_fuel)

lemma skipDirectives_progress:
  "skipDirectives ts \<noteq> Inl GqlFuel \<and> (\<forall>r. skipDirectives ts = Inr r \<longrightarrow> length r \<le> length ts)"
proof (induction ts rule: skipDirectives.induct)
  case (1 ts)
  show ?case
  proof (cases "peek ts = ''@'' \<and> takeName (tl ts) \<noteq> None")
    case True
    then obtain n r where tn: "takeName (tl ts) = Some (n, r)" by auto
    then have len: "length r < length (tl ts)" by (rule takeName_length)
    show ?thesis
    proof (cases "skipArguments r")
      case (Inl e)
      then show ?thesis using True tn skipArguments_no_fuel [of r] by (auto simp: skipDirectives.simps [of ts])
    next
      case (Inr r')
      from skipArguments_length [OF this] len 1 [of "(n, r)" n r r'] True tn Inr
      show ?thesis by (auto simp: skipDirectives.simps [of ts] dest!: spec)
    qed
  qed (cases "takeName (tl ts)"; auto simp: skipDirectives.simps [of ts])
qed

lemmas skipDirectives_no_fuel = skipDirectives_progress [THEN conjunct1]
lemmas skipDirectives_length = skipDirectives_progress [THEN conjunct2, rule_format]

lemma fieldHead_progress:
  "fieldHead ts \<noteq> Inl GqlFuel \<and> (\<forall>f r. fieldHead ts = Inr (f, r) \<longrightarrow> length r < length ts)"
proof (cases "takeName ts")
  case (Some fr)
  obtain f r where fr: "fr = (f, r)" by fastforce
  then have len: "length r < length ts" using Some takeName_length by blast
  have rest: "bindR (skipArguments q) (\<lambda>r. mapR (Pair g) (skipDirectives r)) \<noteq> Inl GqlFuel \<and>
      (\<forall>f r'. bindR (skipArguments q) (\<lambda>r. mapR (Pair g) (skipDirectives r)) = Inr (f, r') \<longrightarrow> length r' < length ts)"
    if "length q < length ts" for q g
    using that skipArguments_no_fuel [of q] skipArguments_length [of q] skipDirectives_no_fuel skipDirectives_length
    by (cases "skipArguments q") (auto, fastforce)
  show ?thesis
  proof (cases "peek r = '':''")
    case True
    show ?thesis
    proof (cases "takeName (tl r)")
      case None
      then show ?thesis using Some fr True by (simp add: fieldHead_def)
    next
      case (Some fr')
      obtain f' r' where fr': "fr' = (f', r')" by fastforce
      then have "length r' < length ts" using Some takeName_length [of "tl r" f' r'] len by simp
      from rest [OF this, of f'] show ?thesis using \<open>takeName ts = Some fr\<close> Some fr fr' True by (simp add: fieldHead_def)
    qed
  next
    case False
    then show ?thesis using rest [OF len, of f] Some fr by (simp add: fieldHead_def)
  qed
qed (simp add: fieldHead_def)

lemmas fieldHead_no_fuel = fieldHead_progress [THEN conjunct1]
lemmas fieldHead_length = fieldHead_progress [THEN conjunct2, rule_format]

definition makesProgress :: "tokens \<Rightarrow> gql_error + ('a \<times> tokens) \<Rightarrow> bool" where
  "makesProgress ts res \<longleftrightarrow> res \<noteq> Inl GqlFuel \<and> (\<forall>x r. res = Inr (x, r) \<longrightarrow> length r < length ts)"

lemma makesProgress_bind:
  assumes "makesProgress ts res" "\<And>x r. res = Inr (x, r) \<Longrightarrow> length r < length ts \<Longrightarrow> makesProgress us (f (x, r))"
  shows "makesProgress us (bindR res f)"
proof (cases res)
  case (Inl e)
  then show ?thesis using assms(1) by (auto simp: makesProgress_def)
next
  case (Inr xr)
  then show ?thesis using assms by (cases xr) (auto simp: makesProgress_def)
qed

lemma makesProgress_directives:
  assumes "\<And>r'. skipDirectives r = Inr r' \<Longrightarrow> length r' \<le> length r \<Longrightarrow> makesProgress us (f r')"
  shows "makesProgress us (bindR (skipDirectives r) f)"
  using assms skipDirectives_no_fuel [of r] skipDirectives_length [of r]
  by (cases "skipDirectives r") (auto simp: makesProgress_def)

lemma makesProgress_mono: "makesProgress ts res \<Longrightarrow> length ts \<le> length us \<Longrightarrow> makesProgress us res"
  by (fastforce simp: makesProgress_def)

lemma peek_nonempty: "peek ts \<noteq> [] \<Longrightarrow> ts \<noteq> []"
  by (auto simp: peek_def)

lemma selectionSet_step:
  assumes "\<And>d sel us. 2 * length us + 1 \<le> n \<Longrightarrow> makesProgress us (selectionLoop n d sel us)"
    and "2 * length ts \<le> Suc n"
  shows "makesProgress ts (selectionSet (Suc n) depth ts)"
proof (cases "depth \<ge> maxSelectionDepth \<or> peek ts \<noteq> ''{''")
  case True
  then show ?thesis by (auto simp: makesProgress_def)
next
  case False
  then have "ts \<noteq> []" using peek_nonempty [of ts] by auto
  then obtain t us where ts: "ts = t # us" by (cases ts) auto
  then have "makesProgress us (selectionLoop n (Suc depth) emptySelection us)" using assms by simp
  then show ?thesis using False ts makesProgress_mono [of us _ ts] by simp
qed

lemma selectionLoop_step:
  assumes set: "\<And>d us. length us < length ts \<Longrightarrow> makesProgress us (selectionSet n d us)"
    and loop: "\<And>d s us. length us < length ts \<Longrightarrow> makesProgress us (selectionLoop n d s us)"
  shows "makesProgress ts (selectionLoop (Suc n) depth sel ts)"
proof (cases "ts \<noteq> [] \<and> peek ts \<noteq> ''}''")
  case False
  then show ?thesis by (cases ts) (auto simp: makesProgress_def peek_def)
next
  case True
  then have tl: "length (tl ts) < length ts" by (cases ts) auto
  have cont: "makesProgress ts (selectionLoop n depth s r)" if "length r < length ts" for s r
    using that by (intro makesProgress_mono [OF loop [OF that]]) simp
  have inl: "makesProgress ts (bindR (skipDirectives r) (\<lambda>r2. bindR (selectionSet n depth r2)
      (\<lambda>(inl, r3). selectionLoop n depth (mergeSelection sel inl) r3)))" if "length r < length ts" for r
    using that by (intro makesProgress_directives makesProgress_bind [OF set]) (auto intro!: cont)
  have spread: "makesProgress ts (bindR (skipDirectives r) (\<lambda>r2. selectionLoop n depth (addSpread sel name) r2))"
    if "length r < length ts" for r name
    using that by (intro makesProgress_directives cont) auto
  have field: "makesProgress ts (if peek r = ''{'' then
        bindR (selectionSet n depth r) (\<lambda>(_, r'). selectionLoop n depth (addField sel f) r')
      else selectionLoop n depth (addField sel f) r)" if "length r < length ts" for f r
    using that by (auto intro!: cont makesProgress_bind [OF set])
  have head: "makesProgress ts (fieldHead ts)"
    using fieldHead_no_fuel fieldHead_length by (auto simp: makesProgress_def)
  have short: "length r < length ts" if "takeName (tl (tl ts)) = Some (x, r) \<or> takeName (tl ts) = Some (x, r)" for x r
    using that takeName_length tl by fastforce
  show ?thesis
  proof (cases "peek ts = ''...''")
    case dots: True
    consider "peek (tl ts) = ''on''" | "peek (tl ts) = ''@''" | "peek (tl ts) \<noteq> ''on''" "peek (tl ts) \<noteq> ''@''" by blast
    then show ?thesis
    proof cases
      case 1
      then show ?thesis using True dots inl short
        by (cases "takeName (tl (tl ts))") (auto simp: makesProgress_def [of ts "Inl _"])
    next
      case 2
      then show ?thesis using True dots inl [OF tl] by simp
    next
      case 3
      then show ?thesis using True dots spread short
        by (cases "takeName (tl ts)") (auto simp: makesProgress_def [of ts "Inl _"])
    qed
  next
    case False
    have "makesProgress ts (bindR (fieldHead ts) (\<lambda>(f, r). if peek r = ''{'' then
        bindR (selectionSet n depth r) (\<lambda>(_, r'). selectionLoop n depth (addField sel f) r')
      else selectionLoop n depth (addField sel f) r))"
      using field by (intro makesProgress_bind [OF head]) simp
    then show ?thesis using True False by simp
  qed
qed

lemma selection_progress:
  "(1 \<le> n \<longrightarrow> 2 * length ts \<le> n \<longrightarrow> makesProgress ts (selectionSet n depth ts)) \<and>
   (2 * length ts + 1 \<le> n \<longrightarrow> makesProgress ts (selectionLoop n depth sel ts))"
proof (induction n arbitrary: depth sel ts)
  case (Suc n)
  have set: "makesProgress us (selectionSet n d us)" if "1 \<le> n" "2 * length us \<le> n" for d us
    using Suc that by blast
  have loop: "makesProgress us (selectionLoop n d s us)" if "2 * length us + 1 \<le> n" for d s us
    using Suc that by blast
  show ?case
  proof (intro conjI impI)
    assume "2 * length ts \<le> Suc n"
    then show "makesProgress ts (selectionSet (Suc n) depth ts)" using loop by (intro selectionSet_step)
  next
    assume fuel: "2 * length ts + 1 \<le> Suc n"
    have "makesProgress us (selectionSet n d us)" "makesProgress us (selectionLoop n d s us)"
      if "length us < length ts" for d s us
      using that fuel by (auto intro!: set loop)
    then show "makesProgress ts (selectionLoop (Suc n) depth sel ts)" by (rule selectionLoop_step)
  qed
qed simp

lemma topSelection_progress: "makesProgress ts (topSelection ts)"
  using selection_progress [of "selFuel ts" ts 0] by (simp add: topSelection_def selFuel_def)

lemma operationDefinition_progress:
  assumes "ts \<noteq> []"
  shows "makesProgress ts (mapR (\<lambda>(opn, sel, r). ((opn, sel), r)) (operationDefinition ts))"
proof -
  obtain name r1 where nr: "(if peekKind KName (tl ts) then (peek (tl ts), tl (tl ts)) else ([], tl ts)) = (name, r1)"
    by fastforce
  have r1: "length r1 < length ts" using nr assms by (cases ts) (auto split: if_splits)
  show ?thesis
  proof (cases "skipArguments r1")
    case (Inl e)
    then show ?thesis using nr skipArguments_no_fuel [of r1]
      by (auto simp: operationDefinition_def makesProgress_def Let_def)
  next
    case (Inr r2)
    then have "length r2 < length ts" using skipArguments_length r1 by fastforce
    then have "makesProgress ts (bindR (skipDirectives r2) (\<lambda>r3.
        mapR (\<lambda>(sel, r4). ((newOperation (peek ts) name, sel), r4)) (topSelection r3)))"
      using topSelection_progress
      by (intro makesProgress_directives) (fastforce simp: makesProgress_def)
    then show ?thesis using nr Inr
      by (auto simp: operationDefinition_def Let_def mapR_def bindR_def split_beta split: sum.splits)
  qed
qed

lemma fragmentDefinition_progress:
  assumes "ts \<noteq> []"
  shows "makesProgress ts (mapR (\<lambda>(name, sel, r). ((name, sel), r)) (fragmentDefinition ts))"
proof (cases "takeName (tl ts)")
  case None
  then show ?thesis by (simp add: fragmentDefinition_def makesProgress_def)
next
  case (Some nr)
  obtain name r where nr: "nr = (name, r)" by fastforce
  then have r: "length r < length (tl ts)" using Some takeName_length by blast
  show ?thesis
  proof (cases "peek r = ''on'' \<and> takeName (tl r) \<noteq> None")
    case False
    then show ?thesis using Some nr
      by (cases "takeName (tl r)") (auto simp: fragmentDefinition_def makesProgress_def)
  next
    case True
    then obtain x r1 where r1: "takeName (tl r) = Some (x, r1)" by auto
    then have "length r1 < length ts" using takeName_length [OF r1] r by simp
    then have "makesProgress ts (bindR (skipDirectives r1) (\<lambda>r2. mapR (\<lambda>(sel, r3). ((name, sel), r3)) (topSelection r2)))"
      using topSelection_progress by (intro makesProgress_directives) (fastforce simp: makesProgress_def)
    then show ?thesis using Some nr True r1
      by (auto simp: fragmentDefinition_def mapR_def bindR_def split_beta split: sum.splits)
  qed
qed

lemma progress_bind_no_fuel:
  assumes "makesProgress ts (mapR (\<lambda>(a, b, r). ((a, b), r)) res)"
    and "\<And>a b r. length r < length ts \<Longrightarrow> f (a, b, r) \<noteq> Inl GqlFuel"
  shows "bindR res f \<noteq> Inl GqlFuel"
  using assms by (cases res) (auto simp: makesProgress_def)

lemma documentLoop_fuel: "length ts \<le> n \<Longrightarrow> documentLoop n d ts \<noteq> Inl GqlFuel"
proof (induction n arbitrary: d ts)
  case (Suc n)
  show ?case
  proof (cases ts)
    case (Cons t us)
    have ih: "documentLoop n d' r \<noteq> Inl GqlFuel" if "length r < length ts" for d' r
      using Suc that by simp
    have top: "bindR (topSelection ts) (\<lambda>(sel, r). documentLoop n (g sel) r) \<noteq> Inl GqlFuel" for g
      using topSelection_progress [of ts] ih by (cases "topSelection ts") (auto simp: makesProgress_def)
    have opd: "bindR (operationDefinition ts) (\<lambda>(opn, sel, r). documentLoop n (g opn sel) r) \<noteq> Inl GqlFuel" for g
      using ih Cons by (intro progress_bind_no_fuel [OF operationDefinition_progress]) auto
    have frd: "bindR (fragmentDefinition ts) (\<lambda>(name, sel, r). documentLoop n (g name sel) r) \<noteq> Inl GqlFuel" for g
      using ih Cons by (intro progress_bind_no_fuel [OF fragmentDefinition_progress]) auto
    show ?thesis using top opd frd unfolding Cons by simp
  qed simp
qed simp

lemma nextToken_no_fuel: "nextToken c cs \<noteq> Inl GqlFuel"
  by (simp add: nextToken_def Let_def split: option.split)

lemma lexLoop_no_fuel: "lexLoop tokens s \<noteq> Inl GqlFuel"
proof (induction tokens s rule: lexLoop.induct)
  case (2 tokens c cs)
  then show ?case using nextToken_no_fuel [of c cs] by (cases "nextToken c cs") (auto split: if_splits)
qed simp

section \<open>Fragment expansion\<close>

text \<open>The names that spreads reach, and the root fields of a selection, as a specification.\<close>

inductive reaches :: "fragment_defs \<Rightarrow> string list \<Rightarrow> string \<Rightarrow> bool" for frags names where
  direct: "name \<in> set names \<Longrightarrow> reaches frags names name"
| nested: "reaches frags names a \<Longrightarrow> map_of frags a = Some frag \<Longrightarrow> name \<in> set (selFragments frag) \<Longrightarrow>
    reaches frags names name"

definition rootFields :: "fragment_defs \<Rightarrow> graphqlSelection \<Rightarrow> string set" where
  "rootFields frags sel =
     set (selFields sel) \<union>
     {f. \<exists>name frag. reaches frags (selFragments sel) name \<and> map_of frags name = Some frag \<and> f \<in> set (selFields frag)}"

text \<open>What a walk adds: fields that are reached, and for every new name its fields and spreads.\<close>

definition walkOk :: "fragment_defs \<Rightarrow> string list \<Rightarrow> string set \<Rightarrow> string set \<Rightarrow> string set \<Rightarrow> string set \<Rightarrow> bool" where
  "walkOk frags names fs vs fs' vs' \<longleftrightarrow>
     vs \<subseteq> vs' \<and> fs \<subseteq> fs' \<and> set names \<subseteq> vs' \<and>
     (\<forall>x \<in> vs' - vs. \<forall>frag. map_of frags x = Some frag \<longrightarrow> set (selFields frag) \<subseteq> fs' \<and> set (selFragments frag) \<subseteq> vs') \<and>
     (\<forall>f \<in> fs' - fs. \<exists>name frag. reaches frags names name \<and> map_of frags name = Some frag \<and> f \<in> set (selFields frag))"

lemma reaches_mono: "reaches frags ns x \<Longrightarrow> set ns \<subseteq> set ms \<Longrightarrow> reaches frags ms x"
  by (induction rule: reaches.induct) (auto intro: reaches.intros)

lemma reaches_nested:
  "reaches frags (selFragments frag) x \<Longrightarrow> name \<in> set names \<Longrightarrow> map_of frags name = Some frag \<Longrightarrow> reaches frags names x"
  by (induction rule: reaches.induct) (auto intro: reaches.intros)

lemma walkOkI:
  assumes "vs \<subseteq> vs'" "fs \<subseteq> fs'" "set names \<subseteq> vs'"
    and "\<And>x frag. x \<in> vs' \<Longrightarrow> x \<notin> vs \<Longrightarrow> map_of frags x = Some frag \<Longrightarrow>
      set (selFields frag) \<subseteq> fs' \<and> set (selFragments frag) \<subseteq> vs'"
    and "\<And>f. f \<in> fs' \<Longrightarrow> f \<notin> fs \<Longrightarrow>
      \<exists>name frag. reaches frags names name \<and> map_of frags name = Some frag \<and> f \<in> set (selFields frag)"
  shows "walkOk frags names fs vs fs' vs'"
  using assms unfolding walkOk_def by blast

lemma walkOkD:
  assumes "walkOk frags names fs vs fs' vs'"
  shows "vs \<subseteq> vs'" "fs \<subseteq> fs'" "set names \<subseteq> vs'"
    and "x \<in> vs' \<Longrightarrow> x \<notin> vs \<Longrightarrow> map_of frags x = Some frag \<Longrightarrow> set (selFields frag) \<subseteq> fs' \<and> set (selFragments frag) \<subseteq> vs'"
    and "f \<in> fs' \<Longrightarrow> f \<notin> fs \<Longrightarrow>
      \<exists>name frag. reaches frags names name \<and> map_of frags name = Some frag \<and> f \<in> set (selFields frag)"
  using assms unfolding walkOk_def by blast+

lemma reaches_Cons: "reaches frags names x \<Longrightarrow> reaches frags (name # names) x"
  by (erule reaches_mono) auto

text \<open>One more name at the front, when it adds nothing of its own.\<close>

lemma walkOk_Cons:
  assumes w: "walkOk frags names fs (insert name vs) fs' vs'" and n: "name \<in> vs \<or> map_of frags name = None"
  shows "walkOk frags (name # names) fs vs fs' vs'"
proof (rule walkOkI)
  show "vs \<subseteq> vs'" "fs \<subseteq> fs'" "set (name # names) \<subseteq> vs'" using walkOkD(1-3) [OF w] by auto
  show "set (selFields frag) \<subseteq> fs' \<and> set (selFragments frag) \<subseteq> vs'"
    if "x \<in> vs'" "x \<notin> vs" "map_of frags x = Some frag" for x frag
  proof (cases "x = name")
    case True
    then show ?thesis using n that by simp
  next
    case False
    then show ?thesis using walkOkD(4) [OF w that(1) _ that(3)] that(2) by simp
  qed
  show "\<exists>n f. reaches frags (name # names) n \<and> map_of frags n = Some f \<and> g \<in> set (selFields f)"
    if "g \<in> fs'" "g \<notin> fs" for g
    using walkOkD(5) [OF w that] reaches_Cons by blast
qed

lemma walkOk_visit:
  assumes frag: "map_of frags name = Some frag"
    and inner: "walkOk frags (selFragments frag) (fs \<union> set (selFields frag)) (insert name vs) fs1 vs1"
    and outer: "walkOk frags names fs1 vs1 fs' vs'"
  shows "walkOk frags (name # names) fs vs fs' vs'"
proof (rule walkOkI)
  show "vs \<subseteq> vs'" "fs \<subseteq> fs'" "set (name # names) \<subseteq> vs'"
    using walkOkD(1-3) [OF inner] walkOkD(1-3) [OF outer] by auto
  show "set (selFields f) \<subseteq> fs' \<and> set (selFragments f) \<subseteq> vs'"
    if x: "x \<in> vs'" "x \<notin> vs" and f: "map_of frags x = Some f" for x f
  proof -
    consider "x = name" | "x \<in> vs1" "x \<notin> insert name vs" | "x \<notin> vs1" using x by blast
    then show ?thesis
    proof cases
      case 1
      then have "f = frag" using f frag by simp
      then show ?thesis using walkOkD(2,3) [OF inner] walkOkD(1,2) [OF outer] by blast
    next
      case 2
      then show ?thesis using walkOkD(4) [OF inner _ _ f] walkOkD(1,2) [OF outer] by blast
    next
      case 3
      then show ?thesis using walkOkD(4) [OF outer x(1) _ f] by blast
    qed
  qed
  show "\<exists>n f. reaches frags (name # names) n \<and> map_of frags n = Some f \<and> g \<in> set (selFields f)"
    if g: "g \<in> fs'" "g \<notin> fs" for g
  proof -
    consider "g \<in> set (selFields frag)" | "g \<in> fs1" "g \<notin> fs \<union> set (selFields frag)" | "g \<notin> fs1" using g by blast
    then show ?thesis
    proof cases
      case 1
      moreover have "reaches frags (name # names) name" by (rule reaches.direct) simp
      ultimately show ?thesis using frag by blast
    next
      case 2
      then obtain n f where "reaches frags (selFragments frag) n" "map_of frags n = Some f" "g \<in> set (selFields f)"
        using walkOkD(5) [OF inner] by blast
      moreover have "reaches frags (name # names) n"
        by (rule reaches_nested [OF calculation(1) _ frag]) simp
      ultimately show ?thesis by blast
    next
      case 3
      then show ?thesis using walkOkD(5) [OF outer g(1)] reaches_Cons by blast
    qed
  qed
qed

lemma card_diff_insert:
  assumes "finite D" "x \<in> D" "x \<notin> V" "card (D - V) \<le> Suc n"
  shows "card (D - insert x V) \<le> n"
proof -
  have "D - insert x V = (D - V) - {x}" by blast
  then show ?thesis using assms by (simp add: card_Diff_singleton)
qed

lemma card_diff_mono: "finite D \<Longrightarrow> V \<subseteq> W \<Longrightarrow> card (D - W) \<le> card (D - V)"
  by (intro card_mono) auto

lemma visitNames_ok:
  assumes "card (dom (map_of frags) - set vis) \<le> fuel" "visitNames fuel frags names (fs, vis) = (fs', vis')"
  shows "walkOk frags names (set fs) (set vis) (set fs') (set vis')"
  using assms
proof (induction fuel frags names "(fs, vis)" arbitrary: fs vis fs' vis' rule: visitNames.induct)
  case (1 fuel frags)
  then show ?case by (simp add: walkOk_def)
next
  case (2 fuel frags name names fs vis)
  note IH = 2(1-5) and fuel = 2(6) and run = 2(7)
  let ?D = "dom (map_of frags)"
  have fin: "finite ?D" by (rule finite_dom_map_of)
  consider "name \<in> set vis" | "name \<notin> set vis" "map_of frags name = None"
    | frag where "name \<notin> set vis" "map_of frags name = Some frag"
    by (cases "map_of frags name") auto
  then show ?case
  proof cases
    case 1
    then have "visitNames fuel frags names (fs, vis) = (fs', vis')" using run by simp
    from IH(1) [OF 1 fuel this] show ?thesis
      using 1 walkOk_Cons [of frags names "set fs" name "set vis"] by (simp add: insert_absorb)
  next
    case u: 2
    have "card (?D - set (name # vis)) \<le> fuel"
      by (rule order_trans [OF card_diff_mono [OF fin] fuel]) auto
    moreover have "visitNames fuel frags names (fs, name # vis) = (fs', vis')" using run u by simp
    ultimately have "walkOk frags names (set fs) (set (name # vis)) (set fs') (set vis')"
      using IH(2) [OF u] by blast
    then show ?thesis using walkOk_Cons [of frags names "set fs" name "set vis"] u by simp
  next
    case d: (3 frag)
    then have D: "name \<in> ?D" by auto
    have "card (?D - set vis) \<noteq> 0" using fin d(1) D by (auto simp: card_eq_0_iff)
    then obtain n where n: "fuel = Suc n" using fuel by (cases fuel) auto
    obtain fs1 vis1 where in1: "visitNames n frags (selFragments frag) (fs @ selFields frag, name # vis) = (fs1, vis1)"
      by fastforce
    have c1: "card (?D - set (name # vis)) \<le> n"
      using card_diff_insert [OF fin D d(1)] fuel n by simp
    have w1: "walkOk frags (selFragments frag) (set (fs @ selFields frag)) (set (name # vis)) (set fs1) (set vis1)"
      using IH(4) [OF d n c1 in1] .
    then have "set vis \<subseteq> set vis1" using walkOkD(1) by fastforce
    then have c2: "card (?D - set vis1) \<le> fuel"
      by (rule order_trans [OF card_diff_mono [OF fin] fuel])
    have "visitNames fuel frags names (fs1, vis1) = (fs', vis')" using run d n in1 by simp
    from IH(5) [OF d n in1 c2 this] show ?thesis using walkOk_visit [OF d(2)] w1 by simp
  qed
qed

lemma reaches_closed:
  assumes "reaches frags names x" "set names \<subseteq> V"
    and "\<And>y frag. y \<in> V \<Longrightarrow> map_of frags y = Some frag \<Longrightarrow> set (selFragments frag) \<subseteq> V"
  shows "x \<in> V"
  using assms by (induction rule: reaches.induct) blast+

lemma expand_set: "set (expandRootFields frags sel) = rootFields frags sel"
proof -
  obtain fs vis where run: "visitNames (length frags) frags (selFragments sel) (selFields sel, []) = (fs, vis)"
    by fastforce
  have "card (dom (map_of frags)) \<le> length frags"
    unfolding dom_map_of_conv_image_fst using card_length [of "map fst frags"] by simp
  then have w: "walkOk frags (selFragments sel) (set (selFields sel)) {} (set fs) (set vis)"
    using visitNames_ok [OF _ run] by simp
  have vis: "x \<in> set vis" if "reaches frags (selFragments sel) x" for x
    using reaches_closed [OF that walkOkD(3) [OF w]] walkOkD(4) [OF w] by blast
  have "set fs = rootFields frags sel"
  proof
    show "set fs \<subseteq> rootFields frags sel" using walkOkD(5) [OF w] unfolding rootFields_def by blast
    show "rootFields frags sel \<subseteq> set fs"
      using walkOkD(2) [OF w] walkOkD(4) [OF w] vis unfolding rootFields_def by blast
  qed
  then show ?thesis using run by (simp add: expandRootFields_def)
qed

section \<open>Properties\<close>

text \<open>
  C22: the root fields reported for a selection are exactly its own fields and those of every
  fragment that spreads reach, however the fragments refer to each other, sorted and without
  repetition.\<close>

theorem expandRootFields_exact:
  "set (expandRootFields frags sel) = rootFields frags sel \<and>
   sorted (expandRootFields frags sel) \<and> distinct (expandRootFields frags sel)"
  using expand_set by (simp add: expandRootFields_def)

text \<open>
  C23: the parser always has enough fuel: on every source it returns operations or a syntax error,
  never the fuel error.\<close>

theorem parseGraphQLDocument_total: "parseGraphQLDocument source \<noteq> Inl GqlFuel"
proof (cases "lexGraphQL source")
  case (Inl e)
  then show ?thesis using lexLoop_no_fuel [of "[]" source] by (simp add: parseGraphQLDocument_def lexGraphQL_def)
next
  case (Inr ts)
  then show ?thesis
    using documentLoop_fuel [of ts "length ts" "\<lparr>docOperations = [], docFragments = []\<rparr>"]
    by (cases "documentLoop (length ts) \<lparr>docOperations = [], docFragments = []\<rparr> ts")
      (simp_all add: parseGraphQLDocument_def)
qed

text \<open>
  A document whose first block string contains an escaped triple quote. In GraphQL the string goes
  on after the escape, so the executed root fields are \<^verbatim>\<open>a\<close> and \<^verbatim>\<open>danger\<close>.
\<close>

definition blockEscapeDocument :: string where
  "blockEscapeDocument =
     ''{a(x:'' @ quote3 @ [CHR 0x5C] @ quote3 @ '') b(y:'' @ quote3 @ '') danger(z:'' @ quote3 @ '' '' @
     quote3 @ '')} #'' @ quote3 @ '')}''"

text \<open>
  The lexer does not know the escape of a triple quote in a block string, so policy is asked
  about the root fields \<^verbatim>\<open>a\<close> and \<^verbatim>\<open>b\<close> of that document and never about \<^verbatim>\<open>danger\<close>.\<close>

lemma block_escape_hides_field:
  "parseGraphQLDocument blockEscapeDocument =
     Inr [(newOperation ''query'' [])\<lparr>OpFields := [''a'', ''b'']\<rparr>]"
  by code_simp

end
