(* ===== verification/Middleware.thy ===== *)
theory Middleware
  imports Secrets "HOL-Library.Product_Lexorder"
begin

text \<open>
  The middleware pipeline, \<^verbatim>\<open>proxy/middleware/stage.go\<close>, and its use on requests and responses by
  \<^verbatim>\<open>runMiddleware\<close> and \<^verbatim>\<open>runMiddlewareResponse\<close> of \<^verbatim>\<open>proxy/proxy.go\<close>. A stage is a record of functions,
  absent where the stage does not implement the interface; the session type of WebSocket stages is a
  parameter. A remote service answers through an argument.
\<close>

section \<open>Data\<close>

record mw_request =
  Scheme :: string
  MwHost :: string
  MwPort :: int
  MwMethod :: string
  MwPath :: string
  Headers :: "string \<rightharpoonup> string"
  MwBody :: "string option"

record header_mutation =
  Name :: string
  Value :: string
  Remove :: bool
  Append :: bool
  Skip :: bool

record decision =
  DecAllow :: bool
  DecReason :: string
  MutateHeaders :: "(string \<times> string) list"
  HeaderMutations :: "header_mutation list"
  RemoveHeaders :: "string list"
  DecBody :: string
  HasBody :: bool

definition plainDecision :: "bool \<Rightarrow> string \<Rightarrow> decision" where
  "plainDecision allow reason =
     \<lparr>DecAllow = allow, DecReason = reason, MutateHeaders = [], HeaderMutations = [], RemoveHeaders = [],
      DecBody = [], HasBody = False\<rparr>"

record mw_response =
  StatusCode :: int
  RespHeaders :: http_header
  Trailers :: http_header
  RespBody :: string

record response_decision =
  RespAllow :: bool
  RespReason :: string

record ws_request =
  SessionID :: string
  WsScheme :: string
  WsHost :: string
  WsPort :: int
  WsPath :: string
  RequestedSubprotocols :: "string list"

text \<open>A stage; the last two parts are present when it implements \<^verbatim>\<open>ResponseStage\<close> and \<^verbatim>\<open>WebSocketStage\<close>.\<close>

record 's stage =
  stageName :: string
  Evaluate :: "mw_request \<Rightarrow> string + decision"
  EvaluateResponse :: "(mw_request \<Rightarrow> mw_response \<Rightarrow> (string + response_decision) \<times> mw_response) option"
  OpenWebSocketSession :: "(ws_request \<Rightarrow> string + 's) option"

text \<open>The methods of a session that opening the sessions of a pipeline calls.\<close>

record 's ws_session_ops =
  Preflight :: "'s \<Rightarrow> (string + bool) \<times> 's"
  CloseSession :: "string \<Rightarrow> 's \<Rightarrow> 's"

section \<open>Pipeline\<close>

record pipeline_acc =
  accHeaders :: "string \<rightharpoonup> string"
  accMutations :: "header_mutation list"
  accRemoved :: "string list"
  bodySet :: bool

definition headerOr :: "(string \<rightharpoonup> string) \<Rightarrow> string \<Rightarrow> string" where
  "headerOr h k = (case h k of Some v \<Rightarrow> v | None \<Rightarrow> [])"

definition handledNames :: "decision \<Rightarrow> string list" where
  "handledNames dec = map Name (HeaderMutations dec)"

definition applyMutateHeaders ::
    "decision \<Rightarrow> (string \<rightharpoonup> string) \<times> (string \<rightharpoonup> string) \<Rightarrow> (string \<rightharpoonup> string) \<times> (string \<rightharpoonup> string)" where
  "applyMutateHeaders dec st =
     foldl (\<lambda>(h, acc) (k, v). (h(k \<mapsto> v), acc(k \<mapsto> v))) st
       (filter (\<lambda>kv. fst kv \<notin> set (handledNames dec)) (MutateHeaders dec))"

definition applyHeaderMutation ::
    "(string \<rightharpoonup> string) \<times> (string \<rightharpoonup> string) \<Rightarrow> header_mutation \<Rightarrow> (string \<rightharpoonup> string) \<times> (string \<rightharpoonup> string)" where
  "applyHeaderMutation st m =
     (case st of
        (h, acc) \<Rightarrow>
          if Remove m then (h(Name m := None), acc)
          else if Skip m \<and> headerOr h (Name m) \<noteq> [] then (h, acc)
          else
            (let v = (if Append m \<and> headerOr h (Name m) \<noteq> [] then headerOr h (Name m) @ '', '' @ Value m else Value m) in
             (h(Name m \<mapsto> v), acc(Name m \<mapsto> v))))"

text \<open>The effect of one allowing decision on the request and on the accumulators.\<close>

definition absorbDecision :: "decision \<Rightarrow> mw_request \<Rightarrow> pipeline_acc \<Rightarrow> mw_request \<times> pipeline_acc" where
  "absorbDecision dec req a =
     (case foldl applyHeaderMutation (applyMutateHeaders dec (Headers req, accHeaders a)) (HeaderMutations dec) of
        (h, acc) \<Rightarrow>
          (req\<lparr>Headers := h |` (- set (RemoveHeaders dec)),
               MwBody := (if HasBody dec then Some (DecBody dec) else MwBody req)\<rparr>,
           \<lparr>accHeaders = acc, accMutations = accMutations a @ HeaderMutations dec,
            accRemoved = accRemoved a @ RemoveHeaders dec, bodySet = bodySet a \<or> HasBody dec\<rparr>))"

fun runStages :: "'s stage list \<Rightarrow> mw_request \<Rightarrow> pipeline_acc \<Rightarrow> string + (decision + (mw_request \<times> pipeline_acc))" where
  "runStages [] req a = Inr (Inr (req, a))"
| "runStages (s # ss) req a =
     (case Evaluate s req of
        Inl err \<Rightarrow> Inl (''middleware '' @ stageName s @ '': '' @ err)
      | Inr dec \<Rightarrow>
          if \<not> DecAllow dec
          then Inr (Inl (if DecReason dec = [] then dec\<lparr>DecReason := ''denied by '' @ stageName s\<rparr> else dec))
          else (case absorbDecision dec req a of (req', a') \<Rightarrow> runStages ss req' a'))"

text \<open>\<open>mutations\<close> of the result: the accumulated map as the list that a \<^verbatim>\<open>range\<close> loop meets.\<close>

definition Run :: "(((string \<rightharpoonup> string) \<Rightarrow> (string \<times> string) list)) \<Rightarrow> 's stage list option \<Rightarrow> mw_request \<Rightarrow> string + decision" where
  "Run entries p req =
     (case p of
        None \<Rightarrow> Inr (plainDecision True ''no middleware'')
      | Some [] \<Rightarrow> Inr (plainDecision True ''no middleware'')
      | Some ss \<Rightarrow>
          (case runStages ss req \<lparr>accHeaders = Map.empty, accMutations = [], accRemoved = [], bodySet = MwBody req \<noteq> None\<rparr> of
             Inl err \<Rightarrow> Inl err
           | Inr (Inl dec) \<Rightarrow> Inr dec
           | Inr (Inr (req', a)) \<Rightarrow>
               Inr \<lparr>DecAllow = True, DecReason = ''middleware allow'', MutateHeaders = entries (accHeaders a),
                    HeaderMutations = accMutations a, RemoveHeaders = accRemoved a,
                    DecBody = (case MwBody req' of Some b \<Rightarrow> b | None \<Rightarrow> []), HasBody = bodySet a\<rparr>))"

definition HasResponseStages :: "'s stage list option \<Rightarrow> bool" where
  "HasResponseStages p = (case p of None \<Rightarrow> False | Some ss \<Rightarrow> list_ex (\<lambda>s. EvaluateResponse s \<noteq> None) ss)"

fun runResponseStages :: "'s stage list \<Rightarrow> mw_request \<Rightarrow> mw_response \<Rightarrow> (string + unit) \<times> mw_response" where
  "runResponseStages [] req resp = (Inr (), resp)"
| "runResponseStages (s # ss) req resp =
     (case EvaluateResponse s of
        None \<Rightarrow> runResponseStages ss req resp
      | Some f \<Rightarrow>
          (case f req resp of
             (Inl err, resp') \<Rightarrow> (Inl (''middleware '' @ stageName s @ '' response: '' @ err), resp')
           | (Inr d, resp') \<Rightarrow>
               if \<not> RespAllow d
               then (Inl (if RespReason d = [] then ''denied by '' @ stageName s else RespReason d), resp')
               else runResponseStages ss req resp'))"

definition RunResponse :: "'s stage list option \<Rightarrow> mw_request \<Rightarrow> mw_response \<Rightarrow> (string + unit) \<times> mw_response" where
  "RunResponse p req resp = (case p of None \<Rightarrow> (Inr (), resp) | Some ss \<Rightarrow> runResponseStages ss req resp)"

text \<open>
  Opening the WebSocket sessions of a pipeline. The result has the outcome, the sessions left open and
  the sessions closed; on an error the caller sees neither.
\<close>

fun openSessions ::
    "'s ws_session_ops \<Rightarrow> 's stage list \<Rightarrow> ws_request \<Rightarrow> 's list \<Rightarrow> 's list \<Rightarrow> (string + unit) \<times> 's list \<times> 's list" where
  "openSessions ops [] req kept gone = (Inr (), kept, gone)"
| "openSessions ops (s # ss) req kept gone =
     (case OpenWebSocketSession s of
        None \<Rightarrow> openSessions ops ss req kept gone
      | Some opn \<Rightarrow>
          (case opn req of
             Inl err \<Rightarrow> (Inl (''middleware '' @ stageName s @ '' websocket: '' @ err), kept, gone)
           | Inr session \<Rightarrow>
               (case Preflight ops session of
                  (Inl err, session') \<Rightarrow> (Inl err, kept, gone @ [CloseSession ops ''preflight failure'' session'])
                | (Inr inspect, session') \<Rightarrow>
                    if inspect then openSessions ops ss req (kept @ [session']) gone
                    else openSessions ops ss req kept (gone @ [CloseSession ops ''stage skipped'' session']))))"

definition OpenWebSocketSessions ::
    "'s ws_session_ops \<Rightarrow> 's stage list option \<Rightarrow> ws_request \<Rightarrow> (string + unit) \<times> 's list \<times> 's list" where
  "OpenWebSocketSessions ops p req = (case p of None \<Rightarrow> (Inr (), [], []) | Some ss \<Rightarrow> openSessions ops ss req [] [])"

section \<open>Stages\<close>

definition rejectedConfigStage :: "string \<Rightarrow> string \<Rightarrow> 's stage" where
  "rejectedConfigStage label reason =
     \<lparr>stageName = label, Evaluate = (\<lambda>req. Inr (plainDecision False reason)), EvaluateResponse = None, OpenWebSocketSession = None\<rparr>"

definition maxRemoteStageBody :: int where
  "maxRemoteStageBody = 2 ^ 20"

text \<open>
  The answer of the remote service: a transport error, or a status code, the status line's text and a body. \<open>parseDecision\<close> is
  \<^verbatim>\<open>json.Unmarshal\<close> into a \<^verbatim>\<open>Decision\<close>; \<open>newRequestErr\<close> an error of \<^verbatim>\<open>http.NewRequestWithContext\<close>.
\<close>

record remote_service =
  newRequestErr :: "string \<Rightarrow> string option"
  post :: "string \<Rightarrow> mw_request \<Rightarrow> string + (int \<times> string \<times> string)"
  parseDecision :: "string \<Rightarrow> decision option"

definition remoteFailure :: "bool \<Rightarrow> string \<Rightarrow> string \<Rightarrow> string + decision" where
  "remoteFailure failClosed closedReason openReason =
     Inr (if failClosed then plainDecision False closedReason else plainDecision True openReason)"

definition remoteEvaluate :: "remote_service \<Rightarrow> string \<Rightarrow> bool \<Rightarrow> mw_request \<Rightarrow> string + decision" where
  "remoteEvaluate svc url failClosed req =
     (case newRequestErr svc url of
        Some err \<Rightarrow> Inl err
      | None \<Rightarrow>
          (case post svc url req of
             Inl err \<Rightarrow> remoteFailure failClosed ''remote stage unreachable'' ''remote stage fail-open''
           | Inr (status, statusText, body) \<Rightarrow>
               if int (length body) \<ge> maxRemoteStageBody
               then remoteFailure failClosed ''remote stage response too large'' ''remote stage fail-open oversized''
               else if status \<ge> 300
               then remoteFailure failClosed (''remote stage http '' @ statusText) ''remote stage fail-open http''
               else (case parseDecision svc body of
                 None \<Rightarrow> remoteFailure failClosed ''remote stage bad json'' ''remote stage fail-open json''
               | Some dec \<Rightarrow> Inr dec)))"

definition remoteStage :: "remote_service \<Rightarrow> string \<Rightarrow> bool \<Rightarrow> string \<Rightarrow> 's stage" where
  "remoteStage svc url failClosed label =
     \<lparr>stageName = (if label \<noteq> [] then label else ''remote''), Evaluate = remoteEvaluate svc url failClosed,
      EvaluateResponse = None, OpenWebSocketSession = None\<rparr>"

section \<open>Applying a decision to a request\<close>

definition maxMiddlewareRequestBody :: int where
  "maxMiddlewareRequestBody = 4 * 2 ^ 20"

text \<open>The body that the stages see, and the request with its body restored.\<close>

definition middlewareRequestBody :: "http_request \<Rightarrow> string + (string option \<times> http_request)" where
  "middlewareRequestBody r =
     (case reqBody r of
        None \<Rightarrow> Inr (None, r)
      | Some rb \<Rightarrow>
          (let body = bodyData rb; tooLong = int (length body) > maxMiddlewareRequestBody in
           if bodyReadErr rb \<and> \<not> tooLong then Inl ''read middleware request body''
           else if tooLong then Inl ''middleware request body exceeds limit''
           else Inr (Some body, withBody r body)))"

definition mutateHeader :: "http_header \<Rightarrow> header_mutation \<Rightarrow> http_header" where
  "mutateHeader h m =
     (if Remove m then hdrDel h (Name m)
      else if Append m then hdrAdd h (Name m) (Value m)
      else if \<not> Skip m \<or> hdrGet h (Name m) = [] then hdrSet h (Name m) (Value m)
      else h)"

definition applyDecisionHeaders :: "decision \<Rightarrow> http_header \<Rightarrow> http_header" where
  "applyDecisionHeaders dec h =
     (let h1 = foldl (\<lambda>h kv. hdrSet h (fst kv) (snd kv)) h
                 (filter (\<lambda>kv. fst kv \<notin> set (handledNames dec)) (MutateHeaders dec));
          h2 = foldl mutateHeader h1 (HeaderMutations dec) in
      foldl hdrDel h2 (RemoveHeaders dec))"

definition firstValues :: "http_header \<Rightarrow> string \<rightharpoonup> string" where
  "firstValues h k = (case map_of h k of Some (v # _) \<Rightarrow> Some v | _ \<Rightarrow> None)"

definition runMiddleware ::
    "((string \<rightharpoonup> string) \<Rightarrow> (string \<times> string) list) \<Rightarrow> 's stage list option \<Rightarrow> http_request \<Rightarrow> string \<Rightarrow> string \<Rightarrow> int \<Rightarrow> string
      \<Rightarrow> string + http_request" where
  "runMiddleware entries pipe r scheme host p pathOnly =
     (case pipe of
        None \<Rightarrow> Inr r
      | Some [] \<Rightarrow> Inr r
      | Some ss \<Rightarrow>
          bindR (middlewareRequestBody r) (\<lambda>(body, r1).
          bindR (Run entries pipe \<lparr>Scheme = scheme, MwHost = host, MwPort = p, MwMethod = reqMethod r1, MwPath = pathOnly,
                   Headers = firstValues (reqHeader r1), MwBody = body\<rparr>) (\<lambda>dec.
            if \<not> DecAllow dec
            then Inl (if DecReason dec = [] then ''middleware denied'' else DecReason dec)
            else
              (let r2 = r1\<lparr>reqHeader := applyDecisionHeaders dec (reqHeader r1)\<rparr> in
               Inr (if HasBody dec then withBody r2 (DecBody dec) else r2)))))"

section \<open>Applying the response stages\<close>

record http_response =
  respStatusCode :: int
  respHeader :: http_header
  respTrailer :: http_header
  respBodyData :: string
  respBodyReadErr :: bool
  respContentLength :: int

definition maxBufferedMiddlewareResponse :: int where
  "maxBufferedMiddlewareResponse = 64 * 2 ^ 20"

definition runMiddlewareResponse ::
    "'s stage list option \<Rightarrow> http_request \<Rightarrow> string \<Rightarrow> int \<Rightarrow> string \<Rightarrow> http_response \<Rightarrow> string + http_response" where
  "runMiddlewareResponse pipe request host p pathOnly resp =
     (if pipe = None \<or> \<not> HasResponseStages pipe then Inr resp
      else
        (let body = respBodyData resp; tooLong = int (length body) > maxBufferedMiddlewareResponse in
         if respBodyReadErr resp \<and> \<not> tooLong then Inl ''read response for middleware''
         else if tooLong then Inl ''response exceeds middleware buffer''
         else
           (case RunResponse pipe
                   \<lparr>Scheme = ''http'', MwHost = host, MwPort = p, MwMethod = reqMethod request, MwPath = pathOnly,
                    Headers = firstValues (reqHeader request), MwBody = None\<rparr>
                   \<lparr>StatusCode = respStatusCode resp, RespHeaders = respHeader resp, Trailers = respTrailer resp,
                    RespBody = body\<rparr> of
              (Inl err, response) \<Rightarrow> Inl err
            | (Inr (), response) \<Rightarrow>
                Inr (resp\<lparr>respBodyData := RespBody response, respBodyReadErr := False,
                          respContentLength := int (length (RespBody response)),
                          respHeader := hdrSet (RespHeaders response) ''Content-Length'' (itoa (int (length (RespBody response)))),
                          respTrailer := Trailers response\<rparr>))))"

section \<open>A request is forwarded only if every stage allowed it\<close>

text \<open>A stage allowed some version of the request: headers and body may have been changed before.\<close>

definition allowedBy :: "mw_request \<Rightarrow> 's stage \<Rightarrow> bool" where
  "allowedBy req s \<longleftrightarrow> (\<exists>h b dec. Evaluate s (req\<lparr>Headers := h, MwBody := b\<rparr>) = Inr dec \<and> DecAllow dec)"

lemma absorbDecision_request:
  "absorbDecision dec req a = (req', a') \<Longrightarrow> \<exists>h b. req' = req\<lparr>Headers := h, MwBody := b\<rparr>"
  by (auto simp: absorbDecision_def split: prod.splits)

lemma runStages_allowed:
  assumes "runStages ss req a = Inr (Inr out)"
  shows "list_all (allowedBy req) ss"
  using assms
proof (induction ss arbitrary: req a)
  case (Cons s ss)
  then obtain dec where ev: "Evaluate s req = Inr dec" "DecAllow dec"
    by (auto split: sum.splits if_splits)
  obtain req' a' where ab: "absorbDecision dec req a = (req', a')" by fastforce
  then obtain h b where req': "req' = req\<lparr>Headers := h, MwBody := b\<rparr>" using absorbDecision_request by blast
  have "list_all (allowedBy req') ss" using Cons ev ab by simp
  then have "list_all (allowedBy req) ss" unfolding req' by (auto simp: allowedBy_def list_all_iff)
  moreover have "allowedBy req s"
    using ev unfolding allowedBy_def by (intro exI [of _ "Headers req"] exI [of _ "MwBody req"]) simp
  ultimately show ?case by simp
qed simp

lemma Run_allowed:
  assumes "Run entries p req = Inr dec" "DecAllow dec" "p = Some ss"
  shows "list_all (allowedBy req) ss"
proof (cases ss)
  case (Cons s ss')
  let ?a = "\<lparr>accHeaders = Map.empty, accMutations = [], accRemoved = [], bodySet = MwBody req \<noteq> None\<rparr>"
  have denied: "runStages us q a = Inr (Inl d) \<Longrightarrow> \<not> DecAllow d" for us q a d
    by (induction us arbitrary: q a) (auto split: sum.splits if_splits prod.splits)
  have run: "(case runStages ss req ?a of Inr (Inl d) \<Rightarrow> DecAllow d | Inl err \<Rightarrow> False | _ \<Rightarrow> True)"
  proof (cases "runStages ss req ?a")
    case (Inr out)
    then show ?thesis using assms Cons by (cases out) (auto simp: Run_def)
  qed (use assms Cons in \<open>simp add: Run_def\<close>)
  then obtain out where "runStages ss req ?a = Inr (Inr out)"
    using denied by (cases "runStages ss req ?a") (auto split: sum.splits)
  then show ?thesis by (rule runStages_allowed)
qed simp

lemma runMiddleware_allowed:
  assumes "runMiddleware entries (Some ss) r scheme host p path = Inr r'"
  shows "\<exists>body. list_all (allowedBy \<lparr>Scheme = scheme, MwHost = host, MwPort = p, MwMethod = reqMethod r, MwPath = path,
           Headers = Map.empty, MwBody = body\<rparr>) ss"
proof (cases ss)
  case (Cons s ss')
  then obtain body r1 dec where b: "middlewareRequestBody r = Inr (body, r1)"
    and run: "Run entries (Some ss) \<lparr>Scheme = scheme, MwHost = host, MwPort = p, MwMethod = reqMethod r1, MwPath = path,
                Headers = firstValues (reqHeader r1), MwBody = body\<rparr> = Inr dec" "DecAllow dec"
    using assms by (auto simp: runMiddleware_def split: if_splits)
  have "reqMethod r1 = reqMethod r"
    using b by (auto simp: middlewareRequestBody_def withBody_def Let_def split: option.splits if_splits)
  with Run_allowed [OF run refl] show ?thesis
    by (intro exI [of _ body]) (auto simp: list_all_iff allowedBy_def)
qed simp

text \<open>
  What the pipeline relies on from a stage that guards it: an allow is backed by an approval. Every
  request that leaves a pipeline with such a stage was approved in some version of its headers and body.
\<close>

locale guarding_stage =
  fixes guard :: "'s stage" and approves :: "mw_request \<Rightarrow> bool"
  assumes allow_approved: "Evaluate guard q = Inr dec \<Longrightarrow> DecAllow dec \<Longrightarrow> approves q"
begin

lemma forwarded_approved:
  assumes "runMiddleware entries (Some ss) r scheme host p path = Inr r'" "guard \<in> set ss"
  shows "\<exists>h b. approves \<lparr>Scheme = scheme, MwHost = host, MwPort = p, MwMethod = reqMethod r, MwPath = path, Headers = h, MwBody = b\<rparr>"
  using runMiddleware_allowed [OF assms(1)] assms(2) allow_approved by (fastforce simp: list_all_iff allowedBy_def)

lemma unapproved_denied:
  assumes "guard \<in> set ss"
    and "\<And>h b. \<not> approves \<lparr>Scheme = scheme, MwHost = host, MwPort = p, MwMethod = reqMethod r, MwPath = path, Headers = h, MwBody = b\<rparr>"
  shows "\<exists>err. runMiddleware entries (Some ss) r scheme host p path = Inl err"
  using forwarded_approved assms by (cases "runMiddleware entries (Some ss) r scheme host p path") blast+

end

interpretation rejected: guarding_stage "rejectedConfigStage label reason" "\<lambda>_. False" for label reason
  by unfold_locales (auto simp: rejectedConfigStage_def plainDecision_def)

text \<open>The answer that a fail-closed remote stage needs.\<close>

definition serviceAllows :: "remote_service \<Rightarrow> string \<Rightarrow> mw_request \<Rightarrow> bool" where
  "serviceAllows svc url q \<longleftrightarrow>
     (case post svc url q of
        Inl _ \<Rightarrow> False
      | Inr (status, _, body) \<Rightarrow>
          status < 300 \<and> int (length body) < maxRemoteStageBody \<and>
          (case parseDecision svc body of None \<Rightarrow> False | Some dec \<Rightarrow> DecAllow dec))"

lemma remoteEvaluate_allows:
  "remoteEvaluate svc url True q = Inr dec \<Longrightarrow> DecAllow dec \<Longrightarrow> serviceAllows svc url q"
  by (auto simp: remoteEvaluate_def remoteFailure_def plainDecision_def serviceAllows_def
      split: option.splits sum.splits if_splits)

interpretation remote: guarding_stage "remoteStage svc url True label" "serviceAllows svc url" for svc url label
  by unfold_locales (simp add: remoteStage_def remoteEvaluate_allows)

section \<open>Properties\<close>

text \<open>
  C24: a request leaves the middleware only if every stage of the pipeline allowed it, and each
  stage was asked about this request's method, host, port and path.\<close>

theorem forwarded_was_allowed:
  assumes "runMiddleware entries (Some ss) r scheme host p path = Inr r'"
  shows "list_all (\<lambda>s. \<exists>q dec. Evaluate s q = Inr dec \<and> DecAllow dec \<and>
     MwMethod q = reqMethod r \<and> MwHost q = host \<and> MwPort q = p \<and> MwPath q = path) ss"
  using runMiddleware_allowed [OF assms] by (fastforce simp: list_all_iff allowedBy_def)

definition allowStage :: "unit stage" where
  "allowStage = \<lparr>stageName = ''ok'', Evaluate = (\<lambda>q. Inr (plainDecision True [])), EvaluateResponse = None, OpenWebSocketSession = None\<rparr>"

definition sampleRequest :: http_request where
  "sampleRequest = \<lparr>reqMethod = ''GET'', reqURL = None, reqHeader = [], reqBody = None, reqContentLength = 0, reqTransferEncoding = []\<rparr>"

theorem forwarded_was_allowed_witness:
  "list_all (\<lambda>s. \<exists>q dec. Evaluate s q = Inr dec \<and> DecAllow dec \<and>
     MwMethod q = reqMethod sampleRequest \<and> MwHost q = ''h'' \<and> MwPort q = 443 \<and> MwPath q = ''/'') [allowStage]"
proof -
  have "\<exists>r'. runMiddleware (\<lambda>_. []) (Some [allowStage]) sampleRequest ''https'' ''h'' 443 ''/'' = Inr r'"
    by (simp add: runMiddleware_def middlewareRequestBody_def sampleRequest_def allowStage_def Run_def plainDecision_def
        absorbDecision_def applyMutateHeaders_def)
  then show ?thesis using forwarded_was_allowed by blast
qed

lemma remote_fail_closed:
  assumes "runMiddleware entries (Some ss) r scheme host p path = Inr r'"
    and "remoteStage svc url True label \<in> set ss"
  shows "\<exists>h b. serviceAllows svc url
     \<lparr>Scheme = scheme, MwHost = host, MwPort = p, MwMethod = reqMethod r, MwPath = path, Headers = h, MwBody = b\<rparr>"
  using assms by (rule remote.forwarded_approved)

definition sampleService :: remote_service where
  "sampleService = \<lparr>newRequestErr = (\<lambda>_. None), post = (\<lambda>u q. Inr (200, ''200 OK'', ''y'')),
     parseDecision = (\<lambda>b. Some (plainDecision True []))\<rparr>"

text \<open>
  Two stages that write the same header, by replacement and by appending, and a third that allows
  only if it sees both values.
\<close>

definition setStage :: "unit stage" where
  "setStage = \<lparr>stageName = ''set'', Evaluate = (\<lambda>q. Inr ((plainDecision True [])\<lparr>MutateHeaders := [(''X'', ''a'')]\<rparr>)),
     EvaluateResponse = None, OpenWebSocketSession = None\<rparr>"

definition appendStage :: "unit stage" where
  "appendStage = \<lparr>stageName = ''append'',
     Evaluate = (\<lambda>q. Inr ((plainDecision True [])\<lparr>HeaderMutations := [\<lparr>Name = ''X'', Value = ''b'', Remove = False, Append = True, Skip = False\<rparr>]\<rparr>)),
     EvaluateResponse = None, OpenWebSocketSession = None\<rparr>"

definition checkStage :: "unit stage" where
  "checkStage = \<lparr>stageName = ''check'', Evaluate = (\<lambda>q. Inr (plainDecision (Headers q ''X'' = Some ''a, b'') [])),
     EvaluateResponse = None, OpenWebSocketSession = None\<rparr>"

text \<open>
  The header that is sent can differ from the header that the last stage approved: the third
  stage sees both values, and only the appended one is sent upstream.\<close>

lemma approved_header_differs:
  "mapR (\<lambda>r'. hdrValues (reqHeader r') ''X'')
     (runMiddleware (\<lambda>m. case m ''X'' of Some v \<Rightarrow> [(''X'', v)] | None \<Rightarrow> [])
       (Some [setStage, appendStage, checkStage]) sampleRequest ''https'' ''h'' 443 ''/'') = Inr [''b'']"
  by code_simp

end
