(* ===== verification/Go_Glob.thy ===== *)
theory Go_Glob
  imports L7_Query
begin

text \<open>
  Shell patterns of Go's \<^verbatim>\<open>path.Match\<close>, which the middleware's host selectors use on the labels of a
  host name. \<^const>\<open>None\<close> is \<^verbatim>\<open>ErrBadPattern\<close>.
\<close>

section \<open>Model\<close>

text \<open>\<^verbatim>\<open>utf8.DecodeRuneInString\<close> of a non-empty string: the rune and its width; an invalid encoding is U+FFFD of width 1.\<close>

definition runeError :: nat where
  "runeError = 0xFFFD"

definition leadBits :: "nat \<Rightarrow> nat \<Rightarrow> nat" where
  "leadBits n b0 = (if n = 0 then b0 else b0 mod 2 ^ (6 - n))"

definition decodeRune :: "string \<Rightarrow> nat \<times> nat" where
  "decodeRune s =
     (case s of
        [] \<Rightarrow> (runeError, 0)
      | c # cs \<Rightarrow>
          (case contCount (byteVal c) of
             None \<Rightarrow> (runeError, 1)
           | Some n \<Rightarrow>
               if n \<le> length cs \<and> list_all isCont (take n cs) \<and>
                  (n > 0 \<longrightarrow> fst (secondRange (byteVal c)) \<le> byteVal (hd cs) \<and> byteVal (hd cs) \<le> snd (secondRange (byteVal c)))
               then (foldl (\<lambda>r b. r * 64 + byteVal b mod 64) (leadBits n (byteVal c)) (take n cs), Suc n)
               else (runeError, 1)))"

lemma decodeRune_width: "s \<noteq> [] \<Longrightarrow> 0 < snd (decodeRune s)"
  by (auto simp: decodeRune_def split: list.splits option.splits)

text \<open>Leading stars, the chunk up to the next star outside brackets, and the rest.\<close>

fun chunkLen :: "bool \<Rightarrow> string \<Rightarrow> nat" where
  "chunkLen inrange [] = 0"
| "chunkLen inrange (c # cs) =
     (if c = CHR 0x5C then (case cs of [] \<Rightarrow> 1 | _ # cs' \<Rightarrow> 2 + chunkLen inrange cs')
      else if c = CHR ''['' then Suc (chunkLen True cs)
      else if c = CHR '']'' then Suc (chunkLen False cs)
      else if c = CHR ''*'' \<and> \<not> inrange then 0
      else Suc (chunkLen inrange cs))"

definition scanChunk :: "string \<Rightarrow> bool \<times> string \<times> string" where
  "scanChunk pattern =
     (let body = dropWhile (\<lambda>c. c = CHR ''*'') pattern; n = chunkLen False body in
      (body \<noteq> pattern, take n body, drop n body))"

text \<open>A possibly escaped character of a class; something must follow it.\<close>

definition getEsc :: "string \<Rightarrow> (nat \<times> string) option" where
  "getEsc chunk =
     (case chunk of
        [] \<Rightarrow> None
      | c # cs \<Rightarrow>
          if c = CHR ''-'' \<or> c = CHR '']'' then None
          else
            (let chunk' = (if c = CHR 0x5C then cs else chunk) in
             if chunk' = [] then None
             else
               (case decodeRune chunk' of
                  (r, n) \<Rightarrow>
                    if r = runeError \<and> n = 1 then None
                    else if drop n chunk' = [] then None
                    else Some (r, drop n chunk'))))"

lemma getEsc_shorter:
  assumes "getEsc chunk = Some (r, chunk')"
  shows "length chunk' < length chunk"
proof (cases chunk)
  case (Cons c cs)
  define d where "d = (if c = CHR 0x5C then cs else chunk)"
  have "d \<noteq> []" "chunk' = drop (snd (decodeRune d)) d"
    using assms Cons by (auto simp: getEsc_def d_def Let_def split: if_splits prod.splits)
  then have "length chunk' < length d" using decodeRune_width [of d] by auto
  then show ?thesis using Cons by (auto simp: d_def split: if_splits)
qed (use assms in \<open>simp add: getEsc_def\<close>)

text \<open>The ranges of a class: whether \<open>r\<close> is in one of them, and what follows the class.\<close>

function classRanges :: "nat \<Rightarrow> bool \<Rightarrow> bool \<Rightarrow> string \<Rightarrow> (bool \<times> string) option" where
  "classRanges r matched some chunk =
     (if some \<and> chunk \<noteq> [] \<and> hd chunk = CHR '']'' then Some (matched, tl chunk)
      else
        (case getEsc chunk of
           None \<Rightarrow> None
         | Some (lo, chunk1) \<Rightarrow>
             (case (if hd chunk1 = CHR ''-'' then getEsc (tl chunk1) else Some (lo, chunk1)) of
                None \<Rightarrow> None
              | Some (hi, chunk2) \<Rightarrow> classRanges r (matched \<or> lo \<le> r \<and> r \<le> hi) True chunk2)))"
  by pat_completeness auto
termination
  by (relation "measure (\<lambda>(r, matched, some, chunk). length chunk)")
    (auto dest!: getEsc_shorter split: if_splits)

declare classRanges.simps [simp del]

lemma classRanges_shorter:
  "classRanges r matched some chunk = Some (m, rest) \<Longrightarrow> length rest < length chunk"
proof (induction r matched some chunk rule: classRanges.induct)
  case (1 r matched some chunk)
  show ?case
  proof (cases "some \<and> chunk \<noteq> [] \<and> hd chunk = CHR '']''")
    case True
    then show ?thesis using 1(2) by (subst (asm) classRanges.simps) (auto simp: neq_Nil_conv)
  next
    case False
    then obtain lo chunk1 hi chunk2 where g: "getEsc chunk = Some (lo, chunk1)"
      and h: "(if hd chunk1 = CHR ''-'' then getEsc (tl chunk1) else Some (lo, chunk1)) = Some (hi, chunk2)"
      and c: "classRanges r (matched \<or> lo \<le> r \<and> r \<le> hi) True chunk2 = Some (m, rest)"
      using 1(2) unfolding classRanges.simps [of r matched some chunk] if_not_P [OF False]
      by (simp split: option.splits prod.splits)
    have "length rest < length chunk2" using 1(1) [OF False g refl h refl c] by simp
    moreover have "length chunk2 \<le> length chunk1"
      using h getEsc_shorter [of "tl chunk1" hi chunk2] by (auto split: if_splits)
    ultimately show ?thesis using getEsc_shorter [OF g] by simp
  qed
qed

text \<open>
  Matching a chunk without stars at the start of \<open>s\<close>: \<^const>\<open>None\<close> an invalid chunk, \<open>Some None\<close> no match,
  \<open>Some (Some t)\<close> a match that leaves \<open>t\<close>. After a mismatch (\<open>s\<close> is \<^const>\<open>None\<close>) the syntax is still checked.
\<close>

definition nextRune :: "string option \<Rightarrow> nat \<times> string option" where
  "nextRune s = (case s of Some (c # cs) \<Rightarrow> (fst (decodeRune (c # cs)), Some (drop (snd (decodeRune (c # cs))) (c # cs))) | _ \<Rightarrow> (0, None))"

definition nextByte :: "char \<Rightarrow> string option \<Rightarrow> string option" where
  "nextByte d s = (case s of Some (c # cs) \<Rightarrow> if c = d then Some cs else None | _ \<Rightarrow> None)"

function matchChunk :: "string \<Rightarrow> string option \<Rightarrow> string option option" where
  "matchChunk [] s = Some s"
| "matchChunk (d # ds) s =
     (if d = CHR ''['' then
        (case nextRune s of
           (r, s') \<Rightarrow>
             (let negated = (ds \<noteq> [] \<and> hd ds = CHR ''^''); ds' = (if negated then tl ds else ds) in
              (case classRanges r False False ds' of
                 None \<Rightarrow> None
               | Some (m, rest) \<Rightarrow> matchChunk rest (if m = negated then None else s'))))
      else if d = CHR ''?'' then
        matchChunk ds (case s of Some (c # cs) \<Rightarrow> if c = CHR ''/'' then None else snd (nextRune s) | _ \<Rightarrow> None)
      else if d = CHR 0x5C then (case ds of [] \<Rightarrow> None | e # es \<Rightarrow> matchChunk es (nextByte e s))
      else matchChunk ds (nextByte d s))"
  by pat_completeness auto
termination
  by (relation "measure (\<lambda>(chunk, s). length chunk)") (fastforce dest: classRanges_shorter split: if_splits)+

fun searchStar :: "string \<Rightarrow> string \<Rightarrow> bool \<Rightarrow> string option option" where
  "searchStar chunk [] atEnd = Some None"
| "searchStar chunk (c # cs) atEnd =
     (if c = CHR ''/'' then Some None
      else
        (case matchChunk chunk (Some cs) of
           None \<Rightarrow> None
         | Some (Some t) \<Rightarrow> if atEnd \<and> t \<noteq> [] then searchStar chunk cs atEnd else Some (Some t)
         | Some None \<Rightarrow> searchStar chunk cs atEnd))"

lemma chunkLen_le: "chunkLen b s \<le> length s"
  by (induction b s rule: chunkLen.induct) (auto split: list.splits)

lemma chunkLen_pos: "s \<noteq> [] \<Longrightarrow> hd s \<noteq> CHR ''*'' \<Longrightarrow> 0 < chunkLen False s"
  by (cases s) (auto split: list.splits)

lemma scanChunk_shorter:
  assumes "pattern \<noteq> []"
  shows "length (snd (snd (scanChunk pattern))) < length pattern"
proof -
  define body where "body = dropWhile (\<lambda>c. c = CHR ''*'') pattern"
  have le: "length body \<le> length pattern" by (simp add: body_def length_dropWhile_le)
  show ?thesis
  proof (cases "body = []")
    case False
    then have "hd body \<noteq> CHR ''*''" using hd_dropWhile [of "\<lambda>c. c = CHR ''*''" pattern] by (simp add: body_def)
    then have "0 < chunkLen False body" using False by (intro chunkLen_pos)
    then show ?thesis using le False chunkLen_le [of False body] by (simp add: scanChunk_def Let_def body_def [symmetric])
  qed (use assms in \<open>simp add: scanChunk_def Let_def body_def [symmetric]\<close>)
qed

function checkRest :: "string \<Rightarrow> bool option" where
  "checkRest pattern =
     (if pattern = [] then Some False
      else if matchChunk (fst (snd (scanChunk pattern))) (Some []) = None then None
      else checkRest (snd (snd (scanChunk pattern))))"
  by pat_completeness auto
termination
  by (relation "measure length") (auto simp: scanChunk_shorter)

declare checkRest.simps [simp del]

lemma scanChunk_rest:
  assumes "(star, chunk, rest) = scanChunk pattern" "pattern \<noteq> []"
  shows "length rest < length pattern"
  using scanChunk_shorter [OF assms(2)] assms(1) by (metis snd_conv)

function pathMatch :: "string \<Rightarrow> string \<Rightarrow> bool option" where
  "pathMatch pattern name =
     (if pattern = [] then Some (name = [])
      else
        (case scanChunk pattern of
           (star, chunk, rest) \<Rightarrow>
             if star \<and> chunk = [] then Some (CHR ''/'' \<notin> set name)
             else
               (case matchChunk chunk (Some name) of
                  None \<Rightarrow> None
                | Some found \<Rightarrow>
                    if found \<noteq> None \<and> (the found = [] \<or> rest \<noteq> []) then pathMatch rest (the found)
                    else if star then
                      (case searchStar chunk name (rest = []) of
                         None \<Rightarrow> None
                       | Some (Some t) \<Rightarrow> pathMatch rest t
                       | Some None \<Rightarrow> checkRest rest)
                    else checkRest rest)))"
  by pat_completeness auto
termination
  by (relation "measure (\<lambda>(pattern, name). length pattern)") (auto dest!: scanChunk_rest)

declare pathMatch.simps [simp del]

section \<open>Patterns without special characters\<close>

definition literalByte :: "char \<Rightarrow> bool" where
  "literalByte c \<longleftrightarrow> c \<noteq> CHR ''*'' \<and> c \<noteq> CHR ''?'' \<and> c \<noteq> CHR ''['' \<and> c \<noteq> CHR 0x5C"

lemma chunkLen_literal: "list_all literalByte p \<Longrightarrow> chunkLen False p = length p"
  by (induction p) (simp_all add: literalByte_def)

lemma scanChunk_literal:
  assumes "list_all literalByte p"
  shows "scanChunk p = (False, p, [])"
proof -
  have "dropWhile (\<lambda>c. c = CHR ''*'') p = p"
    using assms by (cases p) (simp_all add: literalByte_def)
  then show ?thesis using assms by (simp add: scanChunk_def chunkLen_literal Let_def)
qed

lemma matchChunk_failed: "list_all literalByte p \<Longrightarrow> matchChunk p None = Some None"
  by (induction p) (simp_all add: literalByte_def nextByte_def)

lemma matchChunk_literal:
  "list_all literalByte p \<Longrightarrow>
     matchChunk p (Some s) = Some (if hasPrefix s p then Some (drop (length p) s) else None)"
proof (induction p arbitrary: s)
  case (Cons d ds)
  have step: "matchChunk (d # ds) (Some s) = matchChunk ds (nextByte d (Some s))"
    using Cons.prems by (simp add: literalByte_def)
  show ?case
    unfolding step using Cons.prems
    by (cases s) (simp_all add: nextByte_def Cons.IH matchChunk_failed)
qed simp

theorem pathMatch_literal:
  assumes "list_all literalByte p"
  shows "pathMatch p s = Some (p = s)"
proof (cases "p = []")
  case False
  have "pathMatch p s = (if hasPrefix s p \<and> drop (length p) s = [] then pathMatch [] [] else checkRest [])"
    using False by (subst pathMatch.simps) (auto simp: scanChunk_literal [OF assms] matchChunk_literal [OF assms])
  also have "\<dots> = Some (p = s)"
    by (auto simp: pathMatch.simps [of "[]"] checkRest.simps [of "[]"] hasPrefix_iff)
  finally show ?thesis .
qed (auto simp: pathMatch.simps)

lemma pathMatch_star: "pathMatch ''*'' s = Some (CHR ''/'' \<notin> set s)"
  by (subst pathMatch.simps) (simp add: scanChunk_def)

end
