(* ===== verification/Grpc_Stage.thy ===== *)
theory Grpc_Stage
  imports Middleware Go_Glob Go_Json "HOL-Library.AList" "HOL-Library.Product_Lexorder" "HOL-Library.List_Lexorder" "HOL-Library.Char_ord"
begin

text \<open>
  The typed middleware adapter, \<^verbatim>\<open>proxy/middleware/grpc.go\<close>, and the construction of a pipeline from the
  environment, \<^verbatim>\<open>environ.go\<close>. The service behind a stage is an argument: it sees the events sent to it
  and answers. An answer to a request or about a response that is late is an answer that fails; the calls
  of a WebSocket session have no timer, so that their answers are those that arrive. Messages are the values that the
  getters of the generated package return.
\<close>

section \<open>Messages\<close>

datatype existing_action = ActionReplace | ActionAppend | ActionSkip

datatype pb_mutation = NilMutation | WriteHeader string string existing_action | RemoveHeader string | UnsetMutation

datatype pb_decision = DecisionUnspecified | DecisionAllow | DecisionDeny

record pb_result =
  resDecision :: pb_decision
  resReason :: string
  resMutations :: "pb_mutation list"
  resHasBody :: bool
  resBody :: string

record pb_evaluation =
  evScheme :: string
  evHost :: string
  evPort :: int
  evMethod :: string
  evPath :: string
  evHeaders :: "(string \<times> string) list"
  evBody :: "string option"
  evMiddlewareName :: string

datatype body_mode = HeadersOnly | WholeBodyBytes | StreamBytes | OtherMode

datatype preflight_action = BlockDelivery | SkipStage | Inspect body_mode "pb_mutation list" | UnsetAction

datatype skip_payload = SkipPassThrough | SkipTransform string | SkipUnset

datatype body_action = BlockBody | Transform string | SkipRemaining skip_payload | PassThrough

datatype response_result =
    PreflightResult preflight_action
  | BodyResult int body_action
  | TrailersResult "pb_mutation list"
  | UnsetResult

datatype session_end = EndSkipped | EndNormal

datatype response_event =
    PreflightEvent int "(string \<times> string) list" string int
  | BodyEvent int bool string
  | TrailersEvent "(string \<times> string) list"
  | SessionEndEvent session_end

text \<open>
  A response stream: whether it opens, whether sending an event after a history of events fails, and
  what is received after a history; \<^const>\<open>None\<close> is an error or a timeout.
\<close>

record response_stream =
  streamOpens :: bool
  sendFails :: "response_event list \<Rightarrow> response_event \<Rightarrow> bool"
  recv :: "response_event list \<Rightarrow> response_result option"

text \<open>
  How a send or a receive ends: the first of the answer, the end of the context and, with a positive
  timeout only, the timer. The list has what happens in the order in which it happens; without any the
  call never returns.
\<close>

datatype 'a stream_race = StreamAnswer "string + 'a" | ContextEnded string | TimerFired

definition deadlineExceeded :: string where
  "deadlineExceeded = ''context deadline exceeded''"

fun recvResponseEvent :: "int \<Rightarrow> 'a stream_race list \<Rightarrow> (string + 'a) option" where
  "recvResponseEvent timeout [] = None"
| "recvResponseEvent timeout (ev # evs) =
     (case ev of
        StreamAnswer r \<Rightarrow> Some r
      | ContextEnded err \<Rightarrow> Some (Inl err)
      | TimerFired \<Rightarrow> if timeout \<le> 0 then recvResponseEvent timeout evs else Some (Inl deadlineExceeded))"

definition sendResponseEvent :: "int \<Rightarrow> unit stream_race list \<Rightarrow> string option option" where
  "sendResponseEvent timeout evs = map_option (\<lambda>r. case r of Inl err \<Rightarrow> Some err | Inr _ \<Rightarrow> None) (recvResponseEvent timeout evs)"

text \<open>With a positive timeout a silent service does not hold the response.\<close>

lemma recvResponseEvent_returns: "0 < timeout \<Longrightarrow> TimerFired \<in> set evs \<Longrightarrow> recvResponseEvent timeout evs \<noteq> None"
  by (induction evs) (auto split: stream_race.split)

section \<open>Stage\<close>

record grpc_stage =
  gsName :: string
  gsTimeout :: int
  gsFailClosed :: bool
  gsMaxPayload :: int
  gsInclude :: "string list"
  gsExclude :: "string list"

text \<open>Selecting hosts: a label pattern \<^verbatim>\<open>**\<close> stands for any number of labels.\<close>

function matchLabels :: "string list \<Rightarrow> string list \<Rightarrow> bool" where
  "matchLabels [] hs = (hs = [])"
| "matchLabels (p # ps) hs =
     (if p = ''**'' then list_ex (\<lambda>n. matchLabels ps (drop n hs)) [0..<Suc (length hs)]
      else (case hs of [] \<Rightarrow> False | h # hs' \<Rightarrow> pathMatch p h = Some True \<and> matchLabels ps hs'))"
  by pat_completeness auto
termination
  by (relation "measure (\<lambda>(ps, hs). length ps)") auto

definition hostPatternMatch :: "string \<Rightarrow> string \<Rightarrow> bool" where
  "hostPatternMatch pattern host =
     matchLabels (splitByte (CHR ''.'') (toLower (trimSuffix pattern ''.''))) (splitByte (CHR ''.'') host)"

definition matchesHost :: "grpc_stage \<Rightarrow> string \<Rightarrow> bool" where
  "matchesHost s host =
     (if gsInclude s = [] then True
      else
        (let h = toLower (trimSuffix (trimSpace host) ''.'') in
         list_ex (\<lambda>p. hostPatternMatch p h) (gsInclude s) \<and> \<not> list_ex (\<lambda>p. hostPatternMatch p h) (gsExclude s)))"

section \<open>Requests\<close>

definition pbHeaderMutation :: "pb_mutation \<Rightarrow> header_mutation option" where
  "pbHeaderMutation m =
     (case m of
        WriteHeader n v a \<Rightarrow> Some \<lparr>Name = n, Value = v, Remove = False, Append = (a = ActionAppend), Skip = (a = ActionSkip)\<rparr>
      | RemoveHeader n \<Rightarrow> Some \<lparr>Name = n, Value = [], Remove = True, Append = False, Skip = False\<rparr>
      | _ \<Rightarrow> None)"

definition pbDecision :: "pb_result \<Rightarrow> decision" where
  "pbDecision result =
     (let allow = (resDecision result = DecisionAllow) in
      \<lparr>DecAllow = allow,
       DecReason = (if \<not> allow \<and> resReason result = [] then ''supervisor middleware denied request'' else resReason result),
       MutateHeaders = foldl (\<lambda>acc m. case m of WriteHeader n v _ \<Rightarrow> AList.update n v acc | _ \<Rightarrow> acc) [] (resMutations result),
       HeaderMutations = List.map_filter pbHeaderMutation (resMutations result),
       RemoveHeaders = List.map_filter (\<lambda>m. case m of RemoveHeader n \<Rightarrow> Some n | _ \<Rightarrow> None) (resMutations result),
       DecBody = resBody result, HasBody = resHasBody result\<rparr>)"

text \<open>\<open>call\<close> is the unary request: an error, no result, or a result. \<open>entries\<close> lists a map in the order of iteration.\<close>

definition grpcEvaluate ::
    "((string \<rightharpoonup> string) \<Rightarrow> (string \<times> string) list) \<Rightarrow> (pb_evaluation \<Rightarrow> unit + pb_result option) \<Rightarrow> grpc_stage \<Rightarrow> mw_request \<Rightarrow> string + decision" where
  "grpcEvaluate entries call s req =
     (if \<not> matchesHost s (MwHost req) then Inr (plainDecision True ''middleware selector skipped'')
      else
        (case call \<lparr>evScheme = Scheme req, evHost = MwHost req, evPort = MwPort req mod 2 ^ 32, evMethod = MwMethod req,
                    evPath = MwPath req, evHeaders = map (\<lambda>(n, v). (toLower (trimSpace n), trimSpace v)) (entries (Headers req)),
                    evBody = MwBody req, evMiddlewareName = gsName s\<rparr> of
           Inl _ \<Rightarrow>
             Inr (if gsFailClosed s then plainDecision False ''supervisor middleware unavailable''
                  else plainDecision True ''supervisor middleware fail-open'')
         | Inr None \<Rightarrow>
             Inr (if gsFailClosed s then plainDecision False ''supervisor middleware returned no result''
                  else plainDecision True ''supervisor middleware fail-open'')
         | Inr (Some result) \<Rightarrow> Inr (pbDecision result)))"

section \<open>Responses\<close>

definition respDecision :: "bool \<Rightarrow> string \<Rightarrow> response_decision" where
  "respDecision allow reason = \<lparr>RespAllow = allow, RespReason = reason\<rparr>"

definition responseFailure :: "grpc_stage \<Rightarrow> string \<Rightarrow> response_decision" where
  "responseFailure s reason =
     (if gsFailClosed s then respDecision False reason else respDecision True ''response middleware fail-open'')"

definition applyMutation :: "http_header \<Rightarrow> pb_mutation \<Rightarrow> http_header" where
  "applyMutation h m =
     (case m of
        WriteHeader n v ActionAppend \<Rightarrow> hdrAdd h n v
      | WriteHeader n v ActionSkip \<Rightarrow> if hdrValues h n = [] then hdrSet h n v else h
      | WriteHeader n v ActionReplace \<Rightarrow> hdrSet h n v
      | RemoveHeader n \<Rightarrow> hdrDel h n
      | _ \<Rightarrow> h)"

definition applyHeaderMutations :: "http_header \<Rightarrow> pb_mutation list \<Rightarrow> http_header" where
  "applyHeaderMutations h ms = foldl applyMutation h ms"

definition isProtectedTrailer :: "string \<Rightarrow> bool" where
  "isProtectedTrailer name =
     (let n = toLower (trimSpace name) in
      n \<in> set [''content-length'', ''transfer-encoding'', ''connection'', ''upgrade'', ''host'', ''trailer'', ''te'', ''keep-alive''] \<or>
      hasPrefix n ''proxy-'')"

definition trailerMutationOk :: "http_header \<Rightarrow> pb_mutation \<Rightarrow> bool" where
  "trailerMutationOk h m =
     (case m of
        WriteHeader n v a \<Rightarrow> trimSpace n \<noteq> [] \<and> \<not> isProtectedTrailer n \<and> hdrValues h n \<noteq> []
      | RemoveHeader n \<Rightarrow> \<not> isProtectedTrailer n
      | _ \<Rightarrow> False)"

definition applyTrailerMutations :: "http_header \<Rightarrow> pb_mutation list \<Rightarrow> http_header option" where
  "applyTrailerMutations h ms =
     (if list_all (trailerMutationOk h) ms then Some (applyHeaderMutations h ms) else None)"

definition responseHeaders :: "http_header \<Rightarrow> (string \<times> string) list" where
  "responseHeaders h = concat (map (\<lambda>(n, vs). map (\<lambda>v. (toLower n, trimSpace v)) vs) h)"

definition responseBodyless :: "mw_request \<Rightarrow> mw_response \<Rightarrow> bool" where
  "responseBodyless req resp \<longleftrightarrow>
     equalFold (MwMethod req) ''HEAD'' \<or> StatusCode resp < 200 \<or> StatusCode resp = 204 \<or> StatusCode resp = 304"

text \<open>
  The loop over the units of the body. A unit has \<open>Suc k\<close> bytes, or fewer at the end; the first unit
  may be empty. \<open>rest\<close> is the body from the offset on.
\<close>

datatype loop_outcome =
    LoopFailed string
  | LoopDenied
  | LoopSkipped string "response_event list"
  | LoopDone string "response_event list"

function bodyLoop ::
    "response_stream \<Rightarrow> nat \<Rightarrow> response_event list \<Rightarrow> int \<Rightarrow> string \<Rightarrow> string \<Rightarrow> loop_outcome" where
  "bodyLoop st k hist sequence rest out =
     (let unit = take (Suc k) rest; rest' = drop (Suc k) rest; ev = BodyEvent sequence (rest' = []) unit in
      if sendFails st hist ev then LoopFailed ''response middleware body send failed''
      else
        (case recv st (hist @ [ev]) of
           None \<Rightarrow> LoopFailed ''response middleware body result unavailable''
         | Some (BodyResult seq act) \<Rightarrow>
             if seq \<noteq> sequence then LoopFailed ''response middleware returned invalid body result''
             else
               (case act of
                  BlockBody \<Rightarrow> LoopDenied
                | SkipRemaining p \<Rightarrow>
                    LoopSkipped (out @ (case p of SkipPassThrough \<Rightarrow> unit | SkipTransform d \<Rightarrow> d | SkipUnset \<Rightarrow> []) @ rest')
                      (hist @ [ev])
                | _ \<Rightarrow>
                    (let out' = out @ (case act of Transform d \<Rightarrow> d | _ \<Rightarrow> unit) in
                     if rest' = [] then LoopDone out' (hist @ [ev])
                     else bodyLoop st k (hist @ [ev]) (sequence + 1) rest' out'))
         | Some _ \<Rightarrow> LoopFailed ''response middleware returned invalid body result''))"
  by pat_completeness auto
termination
  by (relation "measure (\<lambda>(st, k, hist, sequence, rest, out). length rest)") (auto simp: Let_def)

declare bodyLoop.simps [simp del]

definition sendResponseSessionEnd :: "response_stream \<Rightarrow> response_event list \<Rightarrow> session_end \<Rightarrow> response_event list" where
  "sendResponseSessionEnd st hist reason =
     (if sendFails st hist (SessionEndEvent reason) then hist else hist @ [SessionEndEvent reason])"

definition sendResponseTrailers ::
    "response_stream \<Rightarrow> response_event list \<Rightarrow> http_header \<Rightarrow> http_header option \<times> response_event list" where
  "sendResponseTrailers st hist trailers =
     (let ev = TrailersEvent (responseHeaders trailers) in
      if sendFails st hist ev then (None, hist)
      else
        (case recv st (hist @ [ev]) of
           Some (TrailersResult ms) \<Rightarrow> (applyTrailerMutations trailers ms, hist @ [ev])
         | _ \<Rightarrow> (None, hist @ [ev])))"

text \<open>\<open>payloadLimit\<close>: \<^verbatim>\<open>int(s.maxPayload)\<close> converts an unsigned 64-bit number to a signed one.\<close>

definition payloadLimit :: "grpc_stage \<Rightarrow> int" where
  "payloadLimit s =
     (let m = (if gsMaxPayload s < 2 ^ 63 then gsMaxPayload s else gsMaxPayload s - 2 ^ 64) in
      if m \<le> 0 \<or> m > 4 * 2 ^ 20 then 4 * 2 ^ 20 else m)"

definition unitSize :: "grpc_stage \<Rightarrow> body_mode \<Rightarrow> int" where
  "unitSize s mode = (if mode = StreamBytes \<and> payloadLimit s > 64 * 2 ^ 10 then 64 * 2 ^ 10 else payloadLimit s)"

text \<open>The decision, the response as changed, and the events sent where the stream was used to its end.\<close>

definition inspectBody ::
    "response_stream \<Rightarrow> grpc_stage \<Rightarrow> body_mode \<Rightarrow> response_event list \<Rightarrow> mw_response \<Rightarrow>
       response_decision \<times> mw_response \<times> response_event list" where
  "inspectBody st s mode hist resp =
     (if mode = WholeBodyBytes \<and> int (length (RespBody resp)) > payloadLimit s
      then (responseFailure s ''response body exceeds middleware payload limit'', resp, hist)
      else
        (case bodyLoop st (nat (unitSize s mode - 1)) hist 1 (RespBody resp) [] of
           LoopFailed reason \<Rightarrow> (responseFailure s reason, resp, hist)
         | LoopDenied \<Rightarrow> (respDecision False ''response middleware denied'', resp, hist)
         | LoopSkipped out hist' \<Rightarrow>
             (respDecision True [], resp\<lparr>RespBody := out\<rparr>, sendResponseSessionEnd st hist' EndNormal)
         | LoopDone out hist' \<Rightarrow>
             (let resp' = resp\<lparr>RespBody := out\<rparr> in
              (case sendResponseTrailers st hist' (Trailers resp') of
                 (None, hist2) \<Rightarrow> (responseFailure s ''response middleware trailers failed'', resp', hist2)
               | (Some ts, hist2) \<Rightarrow>
                   (respDecision True [], resp'\<lparr>Trailers := ts\<rparr>, sendResponseSessionEnd st hist2 EndNormal)))))"

definition responseSession ::
    "response_stream \<Rightarrow> grpc_stage \<Rightarrow> mw_request \<Rightarrow> mw_response \<Rightarrow> response_decision \<times> mw_response \<times> response_event list" where
  "responseSession st s req resp =
     (if \<not> matchesHost s (MwHost req) then (respDecision True [], resp, [])
      else if \<not> streamOpens st then (responseFailure s ''response middleware unavailable'', resp, [])
      else
        (let ev = PreflightEvent (StatusCode resp mod 2 ^ 32) (responseHeaders (RespHeaders resp)) (gsName s) (gsMaxPayload s) in
         if sendFails st [] ev then (responseFailure s ''response middleware preflight failed'', resp, [])
         else
           (case recv st [ev] of
              None \<Rightarrow> (responseFailure s ''response middleware preflight unavailable'', resp, [ev])
            | Some (PreflightResult BlockDelivery) \<Rightarrow> (respDecision False ''response middleware denied'', resp, [ev])
            | Some (PreflightResult (Inspect mode ms)) \<Rightarrow>
                (let resp' = resp\<lparr>RespHeaders := applyHeaderMutations (RespHeaders resp) ms\<rparr> in
                 if mode = HeadersOnly \<or> responseBodyless req resp'
                 then (respDecision True [], resp', sendResponseSessionEnd st [ev] EndNormal)
                 else inspectBody st s mode [ev] resp')
            | Some (PreflightResult _) \<Rightarrow> (respDecision True [], resp, sendResponseSessionEnd st [ev] EndSkipped)
            | Some _ \<Rightarrow> (responseFailure s ''response middleware returned invalid preflight'', resp, [ev]))))"

definition grpcEvaluateResponse ::
    "response_stream \<Rightarrow> grpc_stage \<Rightarrow> mw_request \<Rightarrow> mw_response \<Rightarrow> (string + response_decision) \<times> mw_response" where
  "grpcEvaluateResponse st s req resp = (case responseSession st s req resp of (d, resp', _) \<Rightarrow> (Inr d, resp'))"

section \<open>WebSocket sessions\<close>

datatype ws_preflight_action = WsInspect | WsSkip | WsDeny | WsUnspecified

datatype ws_replacement = NoReplacement | TextReplacement string | BinaryReplacement string

datatype ws_result =
    WsPreflightDecision ws_preflight_action
  | WsMessageResult int pb_decision ws_replacement
  | WsUnset

datatype ws_event =
    WsPreflight ws_request string
  | WsStart string
  | WsMessage int bool string
  | WsEnd

record ws_stream =
  wsOpens :: bool
  wsSendFails :: "ws_event list \<Rightarrow> ws_event \<Rightarrow> bool"
  wsRecv :: "ws_event list \<Rightarrow> ws_result option"

record grpc_session =
  sesStage :: grpc_stage
  sesStream :: ws_stream
  sesReq :: ws_request
  sesClosed :: bool
  sesSent :: "ws_event list"

definition grpcOpen :: "ws_stream \<Rightarrow> grpc_stage \<Rightarrow> ws_request \<Rightarrow> string + grpc_session" where
  "grpcOpen st s req =
     (let session = (\<lambda>c. \<lparr>sesStage = s, sesStream = st, sesReq = req, sesClosed = c, sesSent = []\<rparr>) in
      if \<not> matchesHost s (WsHost req) then Inr (session True)
      else if \<not> wsOpens st
      then (if gsFailClosed s then Inl ''supervisor websocket middleware unavailable'' else Inr (session True))
      else Inr (session False))"

definition wsSend :: "grpc_session \<Rightarrow> ws_event \<Rightarrow> grpc_session option" where
  "wsSend s ev = (if wsSendFails (sesStream s) (sesSent s) ev then None else Some (s\<lparr>sesSent := sesSent s @ [ev]\<rparr>))"

definition grpcClose :: "grpc_session \<Rightarrow> grpc_session" where
  "grpcClose s =
     (if sesClosed s then s
      else (let s' = s\<lparr>sesClosed := True\<rparr> in (case wsSend s' WsEnd of None \<Rightarrow> s' | Some s'' \<Rightarrow> s'')))"

definition sessionFail :: "grpc_session \<Rightarrow> string \<Rightarrow> (string + bool) \<times> grpc_session" where
  "sessionFail s reason = (if gsFailClosed (sesStage s) then (Inl reason, s) else (Inr False, grpcClose s))"

definition failMessage :: "grpc_session \<Rightarrow> string \<Rightarrow> string \<Rightarrow> (string + (bool \<times> string)) \<times> grpc_session" where
  "failMessage s reason payload =
     (if gsFailClosed (sesStage s) then (Inl reason, s) else (Inr (True, payload), grpcClose s))"

definition grpcPreflight :: "grpc_session \<Rightarrow> (string + bool) \<times> grpc_session" where
  "grpcPreflight s =
     (if sesClosed s then (Inr False, s)
      else
        (case wsSend s (WsPreflight (sesReq s) (gsName (sesStage s))) of
           None \<Rightarrow> sessionFail s ''websocket preflight send failed''
         | Some s' \<Rightarrow>
             (case wsRecv (sesStream s') (sesSent s') of
                None \<Rightarrow> sessionFail s' ''websocket preflight result unavailable''
              | Some (WsPreflightDecision act) \<Rightarrow>
                  (case act of
                     WsInspect \<Rightarrow> (Inr True, s')
                   | WsSkip \<Rightarrow> (Inr False, s')
                   | WsDeny \<Rightarrow> (Inl ''websocket middleware denied'', s')
                   | WsUnspecified \<Rightarrow> sessionFail s' ''websocket preflight returned unspecified action'')
              | Some _ \<Rightarrow> sessionFail s' ''websocket preflight returned invalid result'')))"

definition grpcStart :: "grpc_session \<Rightarrow> string \<Rightarrow> bool \<times> grpc_session" where
  "grpcStart s sub =
     (if sesClosed s then (True, s)
      else (case wsSend s (WsStart sub) of None \<Rightarrow> (False, s) | Some s' \<Rightarrow> (True, s')))"

definition replacedPayload :: "bool \<Rightarrow> ws_replacement \<Rightarrow> string \<Rightarrow> string" where
  "replacedPayload txt r payload =
     (if txt then (case r of TextReplacement t \<Rightarrow> t | _ \<Rightarrow> payload) else (case r of BinaryReplacement b \<Rightarrow> b | _ \<Rightarrow> payload))"

definition grpcMessage :: "grpc_session \<Rightarrow> int \<Rightarrow> string \<Rightarrow> bool \<Rightarrow> (string + (bool \<times> string)) \<times> grpc_session" where
  "grpcMessage s sequence payload txt =
     (if sesClosed s then (Inr (True, payload), s)
      else
        (case wsSend s (WsMessage sequence txt payload) of
           None \<Rightarrow> failMessage s ''websocket message send failed'' payload
         | Some s' \<Rightarrow>
             (case wsRecv (sesStream s') (sesSent s') of
                None \<Rightarrow> failMessage s' ''websocket message result unavailable'' payload
              | Some (WsMessageResult seq d r) \<Rightarrow>
                  if seq \<noteq> sequence then failMessage s' ''websocket message result invalid'' payload
                  else if d = DecisionDeny then (Inr (False, []), s')
                  else if d \<noteq> DecisionAllow then failMessage s' ''websocket message decision unspecified'' payload
                  else (Inr (True, replacedPayload txt r payload), s')
              | Some _ \<Rightarrow> failMessage s' ''websocket message result invalid'' payload)))"

definition grpcSessionOps :: "grpc_session ws_session_ops" where
  "grpcSessionOps = \<lparr>Preflight = grpcPreflight, CloseSession = (\<lambda>reason s. grpcClose s)\<rparr>"

section \<open>Construction from the environment\<close>

text \<open>The parts of a parsed URL that the constructor reads.\<close>

record url_parts =
  urlScheme :: string
  urlHost :: string
  urlHasUser :: bool

record grpc_config =
  cfgName :: string
  cfgEndpoint :: string
  cfgTimeout :: string
  cfgFailClosed :: bool
  cfgMaxPayloadBytes :: int
  cfgOrder :: int
  cfgInclude :: "string list"
  cfgExclude :: "string list"
  cfgConfig :: "json option"
  cfgTLSCAPEM :: string

text \<open>
  The libraries behind the configuration: the decoder of the JSON list, the certificate pool, the
  conversion of the policy configuration, \<^verbatim>\<open>url.Parse\<close>, \<^verbatim>\<open>time.ParseDuration\<close> and the dialer.
\<close>

record config_api =
  parseConfigs :: "string \<Rightarrow> grpc_config list option"
  appendCerts :: "string \<Rightarrow> bool"
  newStruct :: "json \<Rightarrow> bool"
  parseURL :: "string \<Rightarrow> url_parts option"
  parseDuration :: "string \<Rightarrow> int option"
  dialOk :: "string \<Rightarrow> bool"

text \<open>The services behind the stages, by name and endpoint.\<close>

record middleware_world =
  iterEntries :: "(string \<rightharpoonup> string) \<Rightarrow> (string \<times> string) list"
  httpService :: remote_service
  unaryCall :: "string \<Rightarrow> pb_evaluation \<Rightarrow> unit + pb_result option"
  responseStream :: "string \<Rightarrow> response_stream"
  wsStream :: "string \<Rightarrow> ws_stream"

definition defaultTimeout :: int where
  "defaultTimeout = 500 * 10 ^ 6"

definition NewGRPCStage :: "config_api \<Rightarrow> grpc_config \<Rightarrow> int \<Rightarrow> (string + (grpc_stage \<times> string))" where
  "NewGRPCStage api cfg timeout =
     (let name = trimSpace (cfgName cfg) in
      if name = [] then Inl ''middleware name is required''
      else
        (case parseURL api (trimSpace (cfgEndpoint cfg)) of
           None \<Rightarrow> Inl ''endpoint must be an http(s) URL''
         | Some u \<Rightarrow>
             if urlHost u = [] \<or> urlHasUser u \<or> (urlScheme u \<noteq> ''http'' \<and> urlScheme u \<noteq> ''https'')
             then Inl ''endpoint must be an http(s) URL''
             else if \<not> dialOk api (urlHost u) then Inl ''dial''
             else
               Inr (\<lparr>gsName = name, gsTimeout = (if timeout \<le> 0 then defaultTimeout else timeout),
                     gsFailClosed = cfgFailClosed cfg,
                     gsMaxPayload = (if cfgMaxPayloadBytes cfg = 0 then 4 * 2 ^ 20 else cfgMaxPayloadBytes cfg),
                     gsInclude = cfgInclude cfg, gsExclude = cfgExclude cfg\<rparr>, urlHost u)))"

definition grpcStage :: "middleware_world \<Rightarrow> grpc_stage \<Rightarrow> string \<Rightarrow> grpc_session stage" where
  "grpcStage world s addr =
     \<lparr>stageName = gsName s,
      Evaluate = grpcEvaluate (iterEntries world) (unaryCall world addr) s,
      EvaluateResponse = Some (grpcEvaluateResponse (responseStream world addr) s),
      OpenWebSocketSession = Some (grpcOpen (wsStream world addr) s)\<rparr>"

definition environMap :: "string list \<Rightarrow> string \<Rightarrow> string" where
  "environMap environ =
     foldl (\<lambda>env e. case cutByte e (CHR ''='') of (k, v, ok) \<Rightarrow> if ok then env(k := v) else env) (\<lambda>_. []) environ"

definition caBundleOk :: "config_api \<Rightarrow> grpc_config \<Rightarrow> bool" where
  "caBundleOk api item =
     (cfgTLSCAPEM item = [] \<or>
      (case base64Decode (cfgTLSCAPEM item) of None \<Rightarrow> False | Some pem \<Rightarrow> appendCerts api pem))"

definition structValueOk :: "config_api \<Rightarrow> json option \<Rightarrow> bool" where
  "structValueOk api c = (case c of None \<Rightarrow> True | Some j \<Rightarrow> newStruct api j)"

definition configuredTimeout :: "config_api \<Rightarrow> grpc_config \<Rightarrow> int" where
  "configuredTimeout api item =
     (case parseDuration api (cfgTimeout item) of None \<Rightarrow> defaultTimeout | Some t \<Rightarrow> if t \<le> 0 then defaultTimeout else t)"

definition configuredStage :: "config_api \<Rightarrow> middleware_world \<Rightarrow> grpc_config \<Rightarrow> grpc_session stage" where
  "configuredStage api world item =
     (if \<not> caBundleOk api item then rejectedConfigStage (cfgName item) ''invalid supervisor middleware CA bundle''
      else if \<not> structValueOk api (cfgConfig item)
      then rejectedConfigStage (cfgName item) ''invalid supervisor middleware policy config''
      else (case NewGRPCStage api item (configuredTimeout api item) of
              Inl _ \<Rightarrow> rejectedConfigStage (cfgName item) ''invalid supervisor middleware endpoint''
            | Inr (s, addr) \<Rightarrow> grpcStage world s addr))"

definition supervisorStages :: "config_api \<Rightarrow> middleware_world \<Rightarrow> string \<Rightarrow> grpc_session stage list" where
  "supervisorStages api world raw =
     (case parseConfigs api raw of
        None \<Rightarrow> [rejectedConfigStage ''supervisor_middleware_config'' ''invalid supervisor middleware configuration'']
      | Some configured \<Rightarrow> map (configuredStage api world) (sort_key (\<lambda>c. (cfgOrder c, cfgName c)) configured))"

definition removedJWT :: "(string \<Rightarrow> string) \<Rightarrow> bool" where
  "removedJWT env =
     (let aud = trimSpace (env ''CAUTEUM_MIDDLEWARE_JWT_AUD''); req = trimSpace (env ''CAUTEUM_MIDDLEWARE_JWT_REQUIRED'') in
      aud \<noteq> [] \<or> (req \<noteq> [] \<and> \<not> equalFold req ''false'' \<and> req \<noteq> ''0''))"

definition FromEnviron :: "config_api \<Rightarrow> middleware_world \<Rightarrow> string list \<Rightarrow> grpc_session stage list option" where
  "FromEnviron api world environ =
     (let env = environMap environ;
          jwt = (if removedJWT env
                 then [rejectedConfigStage ''removed_jwt_env''
                         ''JWT middleware environment configuration was removed; refusing request'']
                 else []);
          u = trimSpace (env ''CAUTEUM_MIDDLEWARE_REMOTE_URL'');
          remote = (if u \<noteq> [] then [remoteStage (httpService world) u True ''remote_env''] else []);
          raw = trimSpace (env ''CAUTEUM_SUPERVISOR_MIDDLEWARES'');
          sup = (if raw \<noteq> [] then supervisorStages api world raw else []);
          stages = jwt @ remote @ sup in
      if stages = [] then None else Some stages)"

section \<open>Host selectors\<close>

text \<open>A pattern matches if the labels fall into groups, one per label pattern.\<close>

definition labelGroup :: "string \<Rightarrow> string list \<Rightarrow> bool" where
  "labelGroup p g \<longleftrightarrow> p = ''**'' \<or> (\<exists>h. g = [h] \<and> pathMatch p h = Some True)"

lemma matchLabels_groups: "matchLabels ps hs \<longleftrightarrow> (\<exists>gs. concat gs = hs \<and> list_all2 labelGroup ps gs)"
proof (induction ps arbitrary: hs)
  case (Cons p ps)
  have split: "(\<exists>gs. concat gs = hs \<and> list_all2 labelGroup (p # ps) gs) \<longleftrightarrow>
      (\<exists>g r. hs = g @ r \<and> labelGroup p g \<and> matchLabels ps r)"
    unfolding list_all2_Cons1 Cons.IH by (metis concat.simps(2))
  show ?case
  proof (cases "p = ''**''")
    case True
    have "matchLabels (p # ps) hs \<longleftrightarrow> (\<exists>n \<le> length hs. matchLabels ps (drop n hs))"
      using True by (auto simp: list_ex_iff less_Suc_eq_le simp del: upt_Suc)
    also have "\<dots> \<longleftrightarrow> (\<exists>g r. hs = g @ r \<and> matchLabels ps r)"
      by (metis append_eq_conv_conj append_take_drop_id length_append le_add1)
    finally show ?thesis unfolding split by (simp add: labelGroup_def True)
  next
    case False
    then have "(\<exists>g r. hs = g @ r \<and> labelGroup p g \<and> matchLabels ps r) \<longleftrightarrow>
        (\<exists>h r. hs = h # r \<and> pathMatch p h = Some True \<and> matchLabels ps r)"
      unfolding labelGroup_def by (metis append_Cons append_Nil)
    then show ?thesis unfolding split using False by (cases hs) simp_all
  qed
qed (simp add: eq_commute)

section \<open>Body units\<close>

fun unitEvents :: "int \<Rightarrow> string list \<Rightarrow> response_event list" where
  "unitEvents sequence [] = []"
| "unitEvents sequence (u # us) = BodyEvent sequence (us = []) u # unitEvents (sequence + 1) us"

fun unitsAnswered :: "response_stream \<Rightarrow> response_event list \<Rightarrow> int \<Rightarrow> string list \<Rightarrow> string list \<Rightarrow> bool" where
  "unitsAnswered st hist sequence [] [] = True"
| "unitsAnswered st hist sequence (u # us) (d # ds) =
     (let h = hist @ [BodyEvent sequence (us = []) u] in
      (recv st h = Some (BodyResult sequence (Transform d)) \<or> recv st h = Some (BodyResult sequence PassThrough) \<and> d = u) \<and>
      unitsAnswered st h (sequence + 1) us ds)"
| "unitsAnswered st hist sequence _ _ = False"

abbreviation unitEvent :: "nat \<Rightarrow> int \<Rightarrow> string \<Rightarrow> response_event" where
  "unitEvent k sequence rest \<equiv> BodyEvent sequence (drop (Suc k) rest = []) (take (Suc k) rest)"

lemma bodyLoop_Done_step:
  assumes "bodyLoop st k hist sequence rest out = LoopDone out' hist'"
  obtains d where
    "recv st (hist @ [unitEvent k sequence rest]) = Some (BodyResult sequence (Transform d)) \<or>
     recv st (hist @ [unitEvent k sequence rest]) = Some (BodyResult sequence PassThrough) \<and> d = take (Suc k) rest"
    "if drop (Suc k) rest = [] then out' = out @ d \<and> hist' = hist @ [unitEvent k sequence rest]
     else bodyLoop st k (hist @ [unitEvent k sequence rest]) (sequence + 1) (drop (Suc k) rest) (out @ d) = LoopDone out' hist'"
proof -
  have sent: "\<not> sendFails st hist (unitEvent k sequence rest)"
    using assms by (subst (asm) bodyLoop.simps) (simp add: Let_def split: if_splits)
  obtain act where rcv: "recv st (hist @ [unitEvent k sequence rest]) = Some (BodyResult sequence act)"
    using assms sent
    by (subst (asm) bodyLoop.simps) (simp add: Let_def split: option.splits response_result.splits if_splits)
  note unf = assms [unfolded bodyLoop.simps [of st k hist sequence rest] Let_def, simplified sent rcv, simplified]
  show thesis
  proof (cases act)
    case (Transform d)
    then show ?thesis using that [of d] rcv unf by (auto split: if_splits)
  next
    case PassThrough
    then show ?thesis using that [of "take (Suc k) rest"] rcv unf by (auto split: if_splits)
  qed (use unf in simp_all)
qed

lemma bodyLoop_Done:
  assumes "bodyLoop st k hist sequence body out = LoopDone out' hist'"
  shows "\<exists>units datas. units \<noteq> [] \<and> concat units = body \<and> list_all (\<lambda>u. length u \<le> Suc k) units \<and>
    hist' = hist @ unitEvents sequence units \<and> unitsAnswered st hist sequence units datas \<and> out' = out @ concat datas"
  using assms
proof (induction "length body" arbitrary: hist sequence body out rule: less_induct)
  case less
  let ?u = "take (Suc k) body" and ?r = "drop (Suc k) body" and ?ev = "unitEvent k sequence body"
  obtain d where ans: "recv st (hist @ [?ev]) = Some (BodyResult sequence (Transform d)) \<or>
      recv st (hist @ [?ev]) = Some (BodyResult sequence PassThrough) \<and> d = ?u"
    and go: "if ?r = [] then out' = out @ d \<and> hist' = hist @ [?ev]
      else bodyLoop st k (hist @ [?ev]) (sequence + 1) ?r (out @ d) = LoopDone out' hist'"
    using bodyLoop_Done_step [OF less.prems] by blast
  show ?case
  proof (cases "?r = []")
    case True
    then show ?thesis using ans go by (intro exI [of _ "[?u]"] exI [of _ "[d]"]) (auto simp: Let_def)
  next
    case False
    then have "length ?r < length body" by simp
    then obtain units datas where "units \<noteq> []" "concat units = ?r" "list_all (\<lambda>u. length u \<le> Suc k) units"
      "hist' = (hist @ [?ev]) @ unitEvents (sequence + 1) units" "unitsAnswered st (hist @ [?ev]) (sequence + 1) units datas"
      "out' = (out @ d) @ concat datas"
      using less.hyps [of ?r "hist @ [?ev]" "sequence + 1" "out @ d"] go False by auto
    then show ?thesis
      using False ans by (intro exI [of _ "?u # units"] exI [of _ "d # datas"]) (auto simp: Let_def)
  qed
qed

text \<open>A service that passes every unit and changes no header or trailer.\<close>

definition passingStream :: "body_mode \<Rightarrow> response_stream" where
  "passingStream mode =
     \<lparr>streamOpens = True, sendFails = (\<lambda>_ _. False),
      recv = (\<lambda>hist. Some (case last hist of
        BodyEvent sequence _ _ \<Rightarrow> BodyResult sequence PassThrough
      | TrailersEvent _ \<Rightarrow> TrailersResult []
      | _ \<Rightarrow> PreflightResult (Inspect mode [])))\<rparr>"

lemma passingStream_simps [simp]:
  "streamOpens (passingStream mode)" "\<not> sendFails (passingStream mode) hist ev"
  "recv (passingStream mode) (hist @ [BodyEvent sequence e d]) = Some (BodyResult sequence PassThrough)"
  "recv (passingStream mode) (hist @ [TrailersEvent ts]) = Some (TrailersResult [])"
  "recv (passingStream mode) [PreflightEvent c hs n m] = Some (PreflightResult (Inspect mode []))"
  by (simp_all add: passingStream_def)

lemma bodyLoop_passing:
  "\<exists>hist'. bodyLoop (passingStream mode) k hist sequence body out = LoopDone (out @ body) hist'"
proof (induction "length body" arbitrary: hist sequence body out rule: less_induct)
  case less
  show ?case
  proof (cases "drop (Suc k) body = []")
    case True
    then show ?thesis by (subst bodyLoop.simps) (simp add: Let_def)
  next
    case False
    then have "length (drop (Suc k) body) < length body" by simp
    from less.hyps [OF this] False show ?thesis
      by (subst bodyLoop.simps) (simp add: Let_def, metis append_assoc append_take_drop_id)
  qed
qed

section \<open>Trailers\<close>

lemma isProtectedTrailer_canonical:
  assumes "canonicalHeaderKey k = canonicalHeaderKey n"
  shows "isProtectedTrailer k = isProtectedTrailer n"
  using canonicalHeaderKey_same [OF assms] by (auto simp: isProtectedTrailer_def trimSpace_valid)

definition mutatedName :: "pb_mutation \<Rightarrow> string option" where
  "mutatedName m = (case m of WriteHeader n v a \<Rightarrow> Some n | RemoveHeader n \<Rightarrow> Some n | _ \<Rightarrow> None)"

lemma applyMutation_other:
  assumes "\<And>n. mutatedName m = Some n \<Longrightarrow> canonicalHeaderKey k \<noteq> canonicalHeaderKey n"
  shows "hdrValues (applyMutation h m) k = hdrValues h k"
proof (cases m)
  case (WriteHeader n v a)
  then show ?thesis
    using assms [of n] by (cases a) (simp_all add: mutatedName_def applyMutation_def hdrValues_hdrSet hdrValues_hdrAdd)
next
  case (RemoveHeader n)
  then show ?thesis using assms [of n] by (simp add: mutatedName_def applyMutation_def hdrValues_hdrDel)
qed (simp_all add: applyMutation_def)

lemma applyMutation_protected:
  assumes "trailerMutationOk h0 m" "isProtectedTrailer k"
  shows "hdrValues (applyMutation h m) k = hdrValues h k"
proof (rule applyMutation_other)
  fix n
  assume "mutatedName m = Some n"
  then have "\<not> isProtectedTrailer n"
    using assms(1) by (cases m) (simp_all add: mutatedName_def trailerMutationOk_def)
  then show "canonicalHeaderKey k \<noteq> canonicalHeaderKey n" using assms(2) isProtectedTrailer_canonical by blast
qed

lemma applyMutation_absent:
  assumes "trailerMutationOk h0 m" "hdrValues h0 k = []" "hdrValues h k = []"
  shows "hdrValues (applyMutation h m) k = []"
proof (cases m)
  case (WriteHeader n v a)
  then have "hdrValues h0 n \<noteq> []" using assms(1) by (simp add: trailerMutationOk_def)
  then have "canonicalHeaderKey k \<noteq> canonicalHeaderKey n" using assms(2) by (auto simp: hdrValues_def)
  then show ?thesis using assms(3) WriteHeader by (subst applyMutation_other) (simp_all add: mutatedName_def)
qed (use assms in \<open>simp_all add: applyMutation_def hdrValues_hdrDel\<close>)

lemma applyTrailerMutations_keeps:
  assumes "applyTrailerMutations h ms = Some h'"
  shows "isProtectedTrailer k \<Longrightarrow> hdrValues h' k = hdrValues h k" and "hdrValues h k = [] \<Longrightarrow> hdrValues h' k = []"
proof -
  have ok: "list_all (trailerMutationOk h) ms" and h': "h' = foldl applyMutation h ms"
    using assms by (auto simp: applyTrailerMutations_def applyHeaderMutations_def split: if_splits)
  have prot: "isProtectedTrailer k \<Longrightarrow> list_all (trailerMutationOk h) us \<Longrightarrow> hdrValues (foldl applyMutation g us) k = hdrValues g k" for us g
    by (induction us arbitrary: g) (simp_all add: applyMutation_protected [where ?h0.0 = h])
  have absent: "hdrValues h k = [] \<Longrightarrow> hdrValues g k = [] \<Longrightarrow> list_all (trailerMutationOk h) us \<Longrightarrow>
      hdrValues (foldl applyMutation g us) k = []" for us g
    by (induction us arbitrary: g) (simp_all add: applyMutation_absent [where ?h0.0 = h])
  show "isProtectedTrailer k \<Longrightarrow> hdrValues h' k = hdrValues h k" unfolding h' using prot ok by blast
  show "hdrValues h k = [] \<Longrightarrow> hdrValues h' k = []" unfolding h' using absent ok by blast
qed

section \<open>Fail-closed stages\<close>

text \<open>The answer that a fail-closed stage needs on a host that it selects.\<close>

definition grpcAllows ::
    "((string \<rightharpoonup> string) \<Rightarrow> (string \<times> string) list) \<Rightarrow> (pb_evaluation \<Rightarrow> unit + pb_result option) \<Rightarrow> grpc_stage \<Rightarrow> mw_request \<Rightarrow> bool" where
  "grpcAllows entries call s q \<longleftrightarrow>
     \<not> matchesHost s (MwHost q) \<or>
     (\<exists>ev result. call ev = Inr (Some result) \<and> resDecision result = DecisionAllow \<and> evMiddlewareName ev = gsName s \<and>
        evScheme ev = Scheme q \<and> evHost ev = MwHost q \<and> evPort ev = MwPort q mod 2 ^ 32 \<and> evMethod ev = MwMethod q \<and>
        evPath ev = MwPath q \<and> evBody ev = MwBody q)"

lemma grpcEvaluate_allows:
  assumes "grpcEvaluate entries call s q = Inr dec" "DecAllow dec" "gsFailClosed s"
  shows "grpcAllows entries call s q"
proof (cases "matchesHost s (MwHost q)")
  case True
  let ?ev = "\<lparr>evScheme = Scheme q, evHost = MwHost q, evPort = MwPort q mod 2 ^ 32, evMethod = MwMethod q,
    evPath = MwPath q, evHeaders = map (\<lambda>(n, v). (toLower (trimSpace n), trimSpace v)) (entries (Headers q)),
    evBody = MwBody q, evMiddlewareName = gsName s\<rparr>"
  obtain result where "call ?ev = Inr (Some result)" "dec = pbDecision result"
    using assms True by (auto simp: grpcEvaluate_def plainDecision_def split: sum.splits option.splits)
  then show ?thesis
    using assms(2) unfolding grpcAllows_def
    by (intro disjI2 exI [of _ ?ev] exI [of _ result]) (simp add: pbDecision_def Let_def)
qed (simp add: grpcAllows_def)

interpretation grpc_closed: guarding_stage "grpcStage world (s\<lparr>gsFailClosed := True\<rparr>) addr"
  "grpcAllows (iterEntries world) (unaryCall world addr) (s\<lparr>gsFailClosed := True\<rparr>)" for world s addr
  by unfold_locales (auto simp: grpcStage_def intro: grpcEvaluate_allows)

section \<open>Configuration\<close>

lemma FromEnviron_jwt:
  assumes "removedJWT (environMap environ)"
  shows "\<exists>ss. FromEnviron api world environ = Some ss \<and>
    rejectedConfigStage ''removed_jwt_env'' ''JWT middleware environment configuration was removed; refusing request'' \<in> set ss"
  using assms by (simp add: FromEnviron_def Let_def)

lemma FromEnviron_supervisor:
  assumes "trimSpace (environMap environ ''CAUTEUM_SUPERVISOR_MIDDLEWARES'') \<noteq> []"
    and "parseConfigs api (trimSpace (environMap environ ''CAUTEUM_SUPERVISOR_MIDDLEWARES'')) = None"
  shows "\<exists>ss. FromEnviron api world environ = Some ss \<and>
    rejectedConfigStage ''supervisor_middleware_config'' ''invalid supervisor middleware configuration'' \<in> set ss"
  using assms by (simp add: FromEnviron_def Let_def supervisorStages_def)

section \<open>Properties\<close>

text \<open>
  C25: a host pattern matches exactly when the labels of the host fall into consecutive groups, one
  for each label of the pattern: any group for a double star, a single matching label otherwise.\<close>

theorem host_pattern_groups:
  "hostPatternMatch pattern host \<longleftrightarrow>
     (\<exists>groups. concat groups = splitByte (CHR ''.'') host \<and>
        list_all2 (\<lambda>p g. p = ''**'' \<or> (\<exists>h. g = [h] \<and> pathMatch p h = Some True))
          (splitByte (CHR ''.'') (toLower (trimSuffix pattern ''.''))) groups)"
  unfolding hostPatternMatch_def matchLabels_groups labelGroup_def ..

text \<open>
  C26: an inspected response body is sent to the stage completely, in order and in units of bounded
  size, with consecutive sequence numbers and the end marked on the last unit only; what is delivered
  is the concatenation of the answers, each of which is the transformed unit or the unit itself.\<close>

theorem body_inspected_in_order:
  assumes "bodyLoop st k hist sequence body [] = LoopDone delivered hist'"
  shows "\<exists>units datas. concat units = body \<and> list_all (\<lambda>u. length u \<le> Suc k) units \<and>
     hist' = hist @ unitEvents sequence units \<and> unitsAnswered st hist sequence units datas \<and> delivered = concat datas"
  using bodyLoop_Done [OF assms] by auto

theorem body_inspected_in_order_witness:
  "\<exists>units datas. concat units = ''abcde'' \<and> list_all (\<lambda>u. length u \<le> Suc 1) units \<and>
     unitsAnswered (passingStream StreamBytes) [] 1 units datas \<and> concat datas = ''abcde''"
proof -
  obtain hist' where "bodyLoop (passingStream StreamBytes) 1 [] 1 ''abcde'' [] = LoopDone ''abcde'' hist'"
    using bodyLoop_passing [of StreamBytes 1 "[]" 1 "''abcde''" "[]"] by auto
  from body_inspected_in_order [OF this] show ?thesis by metis
qed

text \<open>
  A stage whose service passes everything returns the response unchanged, whatever the body
  mode, as long as a whole body fits the payload limit.\<close>

lemma passing_stage_is_identity:
  assumes "mode = WholeBodyBytes \<longrightarrow> int (length (RespBody resp)) \<le> payloadLimit s"
  shows "grpcEvaluateResponse (passingStream mode) s req resp = (Inr (respDecision True []), resp)"
proof -
  have trailers: "\<exists>h. sendResponseTrailers (passingStream mode) hist ts = (Some ts, h)" for hist ts
    by (simp add: sendResponseTrailers_def applyTrailerMutations_def applyHeaderMutations_def Let_def)
  have "\<exists>h. inspectBody (passingStream mode) s mode hist resp = (respDecision True [], resp, h)" for hist
  proof -
    obtain h1 where "bodyLoop (passingStream mode) (nat (unitSize s mode - 1)) hist 1 (RespBody resp) [] = LoopDone (RespBody resp) h1"
      using bodyLoop_passing [of mode _ hist 1 "RespBody resp" "[]"] by auto
    moreover obtain h2 where "sendResponseTrailers (passingStream mode) h1 (Trailers resp) = (Some (Trailers resp), h2)"
      using trailers by blast
    ultimately show ?thesis using assms by (auto simp: inspectBody_def Let_def)
  qed
  then obtain h where "inspectBody (passingStream mode) s mode
      [PreflightEvent (StatusCode resp mod 2 ^ 32) (responseHeaders (RespHeaders resp)) (gsName s) (gsMaxPayload s)] resp
      = (respDecision True [], resp, h)"
    by blast
  then show ?thesis
    by (simp add: grpcEvaluateResponse_def responseSession_def applyHeaderMutations_def Let_def)
qed

lemma passing_stage_is_identity_witness:
  "grpcEvaluateResponse (passingStream WholeBodyBytes)
     \<lparr>gsName = ''m'', gsTimeout = 1, gsFailClosed = True, gsMaxPayload = 16, gsInclude = [], gsExclude = []\<rparr>
     \<lparr>Scheme = [], MwHost = ''h'', MwPort = 80, MwMethod = ''GET'', MwPath = ''/'', Headers = Map.empty, MwBody = None\<rparr>
     \<lparr>StatusCode = 200, RespHeaders = [], Trailers = [], RespBody = ''hello''\<rparr>
   = (Inr (respDecision True []), \<lparr>StatusCode = 200, RespHeaders = [], Trailers = [], RespBody = ''hello''\<rparr>)"
  by (rule passing_stage_is_identity) (simp add: payloadLimit_def)

text \<open>
  C27: a service can neither change a protected trailer nor create a trailer that the upstream did not
  send.\<close>

theorem trailers_protected:
  assumes "applyTrailerMutations h ms = Some h'"
  shows "(isProtectedTrailer k \<longrightarrow> hdrValues h' k = hdrValues h k) \<and> (hdrValues h k = [] \<longrightarrow> hdrValues h' k = [])"
  using applyTrailerMutations_keeps [OF assms] by blast

theorem trailers_protected_witness:
  "isProtectedTrailer ''TE'' \<and> hdrValues [(''X-Sum'', [''2'']), (''Te'', [''t''])] ''TE'' = [''t''] \<and>
   applyTrailerMutations [(''X-Sum'', [''1'']), (''Te'', [''t''])] [WriteHeader ''x-sum'' ''2'' ActionReplace]
     = Some [(''X-Sum'', [''2'']), (''Te'', [''t''])]"
proof -
  have run: "applyTrailerMutations [(''X-Sum'', [''1'']), (''Te'', [''t''])] [WriteHeader ''x-sum'' ''2'' ActionReplace]
     = Some [(''X-Sum'', [''2'']), (''Te'', [''t''])]" by code_simp
  moreover have "hdrValues [(''X-Sum'', [''1'']), (''Te'', [''t''])] ''TE'' = [''t'']" "isProtectedTrailer ''TE''" by code_simp+
  ultimately show ?thesis using trailers_protected [OF run, of "''TE''"] by simp
qed

text \<open>
  A request leaves a pipeline with a fail-closed stage that selects the host only if the stage's
  service answered with an allow for this target.\<close>

lemma grpc_stage_guards:
  assumes "runMiddleware entries (Some ss) r scheme host p path = Inr r'"
    and "grpcStage world (s\<lparr>gsFailClosed := True\<rparr>) addr \<in> set ss" and "matchesHost s host"
  shows "\<exists>ev result. unaryCall world addr ev = Inr (Some result) \<and> resDecision result = DecisionAllow \<and>
     evHost ev = host \<and> evMethod ev = reqMethod r \<and> evPath ev = path \<and> evPort ev = p mod 2 ^ 32"
proof -
  have "matchesHost (s\<lparr>gsFailClosed := True\<rparr>) host" using assms(3) by (simp add: matchesHost_def)
  then show ?thesis using grpc_closed.forwarded_approved [OF assms(1,2)] by (auto simp: grpcAllows_def)
qed

definition sampleWorld :: middleware_world where
  "sampleWorld =
     \<lparr>iterEntries = (\<lambda>_. []), httpService = sampleService,
      unaryCall = (\<lambda>_ _. Inr (Some \<lparr>resDecision = DecisionAllow, resReason = [], resMutations = [], resHasBody = False, resBody = []\<rparr>)),
      responseStream = (\<lambda>_. passingStream StreamBytes),
      wsStream = (\<lambda>_. \<lparr>wsOpens = True, wsSendFails = (\<lambda>_ _. False), wsRecv = (\<lambda>_. Some (WsMessageResult 7 DecisionAllow (TextReplacement ''ok'')))\<rparr>)\<rparr>"

definition sampleStage :: grpc_stage where
  "sampleStage = \<lparr>gsName = ''m'', gsTimeout = 1, gsFailClosed = True, gsMaxPayload = 16, gsInclude = [], gsExclude = []\<rparr>"

lemma grpc_stage_guards_witness:
  "\<exists>ev result. unaryCall sampleWorld ''a'' ev = Inr (Some result) \<and> resDecision result = DecisionAllow \<and>
     evHost ev = ''h'' \<and> evMethod ev = ''GET'' \<and> evPath ev = ''/'' \<and> evPort ev = 443"
proof -
  let ?s = "grpcStage sampleWorld (sampleStage\<lparr>gsFailClosed := True\<rparr>) ''a''"
  have "\<exists>r'. runMiddleware (\<lambda>_. []) (Some [?s]) sampleRequest ''https'' ''h'' 443 ''/'' = Inr r'"
    by (simp add: runMiddleware_def middlewareRequestBody_def sampleRequest_def grpcStage_def grpcEvaluate_def sampleWorld_def
        sampleStage_def matchesHost_def pbDecision_def Run_def absorbDecision_def applyMutateHeaders_def Let_def List.map_filter_simps)
  then obtain r' where run: "runMiddleware (\<lambda>_. []) (Some [?s]) sampleRequest ''https'' ''h'' 443 ''/'' = Inr r'" ..
  have "?s \<in> set [?s]" "matchesHost sampleStage ''h''" by (simp_all add: matchesHost_def sampleStage_def)
  from grpc_stage_guards [OF run this] show ?thesis by (simp add: sampleRequest_def)
qed

text \<open>
  While a fail-closed session is open, a message is forwarded only if the service allowed this
  sequence number, and what is forwarded is the service's replacement or the message itself.\<close>

lemma ws_message_fail_closed:
  assumes "grpcMessage s sequence payload txt = (Inr (True, out), s')" "\<not> sesClosed s" "gsFailClosed (sesStage s)"
  shows "\<exists>r. wsRecv (sesStream s) (sesSent s @ [WsMessage sequence txt payload]) = Some (WsMessageResult sequence DecisionAllow r) \<and>
     out = replacedPayload txt r payload \<and> \<not> sesClosed s'"
  using assms
  by (auto simp: grpcMessage_def failMessage_def wsSend_def split: option.splits ws_result.splits if_splits)

definition sampleSession :: grpc_session where
  "sampleSession = \<lparr>sesStage = sampleStage, sesStream = wsStream sampleWorld ''a'',
     sesReq = \<lparr>SessionID = ''s'', WsScheme = ''wss'', WsHost = ''h'', WsPort = 443, WsPath = ''/'', RequestedSubprotocols = []\<rparr>,
     sesClosed = False, sesSent = []\<rparr>"

lemma ws_message_fail_closed_witness:
  "\<exists>r. wsRecv (sesStream sampleSession) [WsMessage 7 True ''hi''] = Some (WsMessageResult 7 DecisionAllow r) \<and>
     ''ok'' = replacedPayload True r ''hi''"
proof -
  have "\<exists>s'. grpcMessage sampleSession 7 ''hi'' True = (Inr (True, ''ok''), s')"
    by (simp add: grpcMessage_def wsSend_def sampleSession_def sampleWorld_def replacedPayload_def)
  then show ?thesis using ws_message_fail_closed [of sampleSession 7 "''hi''" True "''ok''"]
    by (auto simp: sampleSession_def sampleStage_def)
qed

text \<open>
  A removed or unusable middleware configuration never turns into an allow: with the removed
  JWT variables set, or a supervisor configuration that does not decode, every request is denied.\<close>

lemma bad_configuration_denies:
  assumes "removedJWT (environMap environ) \<or>
     (trimSpace (environMap environ ''CAUTEUM_SUPERVISOR_MIDDLEWARES'') \<noteq> [] \<and>
      parseConfigs api (trimSpace (environMap environ ''CAUTEUM_SUPERVISOR_MIDDLEWARES'')) = None)"
  shows "\<exists>err. runMiddleware entries (FromEnviron api world environ) r scheme host p path = Inl err"
  using assms FromEnviron_jwt [of environ api world] FromEnviron_supervisor [of environ api world] rejected.unapproved_denied by metis

lemma bad_configuration_denies_witness:
  "\<exists>err. runMiddleware (\<lambda>_. []) (FromEnviron
       \<lparr>parseConfigs = (\<lambda>_. None), appendCerts = (\<lambda>_. False), newStruct = (\<lambda>_. False), parseURL = (\<lambda>_. None),
        parseDuration = (\<lambda>_. None), dialOk = (\<lambda>_. False)\<rparr> sampleWorld
       [''CAUTEUM_MIDDLEWARE_JWT_AUD=api'']) sampleRequest ''https'' ''h'' 443 ''/'' = Inl err"
proof -
  have "removedJWT (environMap [''CAUTEUM_MIDDLEWARE_JWT_AUD=api''])" by code_simp
  then show ?thesis using bad_configuration_denies by blast
qed

end
