(* ===== verification/Mcp.thy ===== *)
theory Mcp
  imports Secrets Go_Json
begin

text \<open>
  The inspection of JSON-RPC and MCP requests, \<^verbatim>\<open>proxy/jsonrpc.go\<close> and \<^verbatim>\<open>proxy/mcp.go\<close>: the envelope, the
  parameters of each method, the protocol version, and the method and tool names that the policy
  engine sees. The JSON syntax is an argument, as in \<^verbatim>\<open>Go_Json\<close>.
\<close>

section \<open>Validation results\<close>

type_synonym check = "string + unit"

definition reject :: "bool \<Rightarrow> string \<Rightarrow> check" where
  "reject b msg = (if b then Inl msg else Inr ())"

text \<open>Checks in the order of the code; the first error is the result.\<close>

fun firstError :: "check list \<Rightarrow> check" where
  "firstError [] = Inr ()"
| "firstError (c # cs) = (case c of Inl err \<Rightarrow> Inl err | Inr _ \<Rightarrow> firstError cs)"

text \<open>A check on a field that is present and not \<^verbatim>\<open>null\<close>.\<close>

definition whenSet :: "(string \<times> json) list \<Rightarrow> string \<Rightarrow> (json \<Rightarrow> check) \<Rightarrow> check" where
  "whenSet kvs k f = (case jsonKey kvs k of Some v \<Rightarrow> if v = JNull then Inr () else f v | None \<Rightarrow> Inr ())"

definition whenPresent :: "(string \<times> json) list \<Rightarrow> string \<Rightarrow> (json \<Rightarrow> check) \<Rightarrow> check" where
  "whenPresent kvs k f = (case jsonKey kvs k of Some v \<Rightarrow> f v | None \<Rightarrow> Inr ())"

definition stringField :: "string \<Rightarrow> json \<Rightarrow> check" where
  "stringField msg v = reject (jsonString (Some v) = None) msg"

section \<open>JSON-RPC\<close>

definition defaultJSONRPCMaxBodyBytes :: int where
  "defaultJSONRPCMaxBodyBytes = 64 * 2 ^ 10"

definition requestAcceptsJSONRPCStream :: "http_request \<Rightarrow> bool" where
  "requestAcceptsJSONRPCStream req =
     list_ex (\<lambda>header. list_ex (\<lambda>m. equalFold (trimSpace (fst (cutByte (trimSpace m) (CHR '';'')))) ''text/event-stream'')
       (splitByte (CHR '','') header)) (hdrValues (reqHeader req) ''Accept'')"

text \<open>A body read under a limit, and the request with the body restored and its length fixed.\<close>

definition readLimited :: "string \<Rightarrow> int \<Rightarrow> http_request \<Rightarrow> req_body \<Rightarrow> string + (string \<times> http_request)" where
  "readLimited label maxBytes req rb =
     (let body = bodyData rb; tooLong = int (length body) > maxBytes in
      if bodyReadErr rb \<and> \<not> tooLong then Inl (label @ '': read request body'')
      else if tooLong then Inl (label @ '': request body exceeds limit'')
      else Inr (body, (withBody req body)\<lparr>reqTransferEncoding := [], reqHeader := hdrDel (reqHeader req) ''Transfer-Encoding''\<rparr>))"

definition rpcItems :: "string \<Rightarrow> json \<Rightarrow> string + json list" where
  "rpcItems label v =
     (case v of
        JArr vs \<Rightarrow> if vs = [] then Inl (label @ '': batch must be a non-empty array'') else Inr vs
      | _ \<Rightarrow> Inr [v])"

definition jsonrpcMethod :: "json \<Rightarrow> string + string" where
  "jsonrpcMethod item =
     (case item of
        JObj fs \<Rightarrow>
          if jsonString (jsonKey fs ''jsonrpc'') \<noteq> Some ''2.0'' then Inl ''json-rpc: jsonrpc must be 2.0''
          else if jsonKey fs ''result'' \<noteq> None \<or> jsonKey fs ''error'' \<noteq> None then
            (if jsonKey fs ''method'' \<noteq> None then Inl ''json-rpc: message contains both method and response payload''
             else Inl ''json-rpc: response messages are not permitted from client to server'')
          else (case jsonString (jsonKey fs ''method'') of
                  None \<Rightarrow> Inl ''json-rpc: method must be a string''
                | Some m \<Rightarrow> Inr m)
      | _ \<Rightarrow> Inl ''json-rpc: each message must be an object'')"

definition parseJSONRPCRequest ::
    "json_parser \<Rightarrow> int option \<Rightarrow> http_request \<Rightarrow> string + (string list \<times> http_request)" where
  "parseJSONRPCRequest parseJSON maxBody req =
     (case (if reqContentLength req = 0 then None else reqBody req) of
        None \<Rightarrow>
          if equalFold (reqMethod req) ''GET'' \<and> requestAcceptsJSONRPCStream req then Inr ([''GET''], req)
          else Inl ''json-rpc: request body required (GET requires Accept: text/event-stream)''
      | Some rb \<Rightarrow>
          (let maxBytes = (case maxBody of Some m \<Rightarrow> if m > 0 then m else defaultJSONRPCMaxBodyBytes | None \<Rightarrow> defaultJSONRPCMaxBodyBytes) in
           bindR (readLimited ''json-rpc'' maxBytes req rb) (\<lambda>(body, req').
             (case parseJSON body of
                None \<Rightarrow> Inl ''json-rpc: invalid JSON''
              | Some root \<Rightarrow>
                  bindR (rpcItems ''json-rpc'' root) (\<lambda>items.
                    mapR (\<lambda>ms. (ms, req')) (traverseR jsonrpcMethod items))))))"

section \<open>Identifiers and versions\<close>

definition validateMCPRequestID :: "json option \<Rightarrow> check" where
  "validateMCPRequestID raw =
     (case raw of
        None \<Rightarrow> Inl ''mcp: request method requires an id''
      | Some (JStr _) \<Rightarrow> Inr ()
      | Some (JNum lit) \<Rightarrow> reject (atoi lit = None) ''mcp: request id number must be a signed integer''
      | Some _ \<Rightarrow> Inl ''mcp: request id must be a string or signed integer'')"

definition validateMCPResponseID :: "json option \<Rightarrow> bool \<Rightarrow> check" where
  "validateMCPResponseID raw allowNull =
     (case raw of
        None \<Rightarrow> Inl ''mcp: response id required''
      | Some v \<Rightarrow>
          if v = JNull \<and> allowNull then Inr ()
          else reject (validateMCPRequestID raw \<noteq> Inr ()) ''mcp: response id must be string or signed integer'')"

definition defaultMCPAllowedVersion :: string where
  "defaultMCPAllowedVersion = ''2025-11-25''"

definition mcpLegacyFallbackVersion :: string where
  "mcpLegacyFallbackVersion = ''2025-03-26''"

definition supportedMCPVersions :: "string list" where
  "supportedMCPVersions = [''2025-03-26'', ''2025-06-18'', ''2025-11-25'']"

record mcp_config =
  mcpMaxBodyBytes :: int
  mcpStrictToolNames :: "bool option"
  mcpVersions :: "string list option"

text \<open>The parameters that the envelope reads; absent when there are none.\<close>

record mcp_params =
  parName :: string
  parProtocolVersion :: string

definition headerVersion :: "string list \<Rightarrow> string + string" where
  "headerVersion values =
     (case values of
        [] \<Rightarrow> Inr mcpLegacyFallbackVersion
      | [v] \<Rightarrow> (let w = trimSet v [CHR '' '', CHR 0x09] in
                if w = [] then Inl ''mcp: protocol version header must not be empty'' else Inr w)
      | _ \<Rightarrow> Inl ''mcp: protocol version header must have one value'')"

definition connectionNominates :: "http_request \<Rightarrow> bool" where
  "connectionNominates req =
     list_ex (\<lambda>c. list_ex (\<lambda>n. equalFold (trimSpace n) ''MCP-Protocol-Version'') (splitByte (CHR '','') c))
       (hdrValues (reqHeader req) ''Connection'')"

definition validateMCPProtocolVersion ::
    "http_request \<Rightarrow> mcp_config option \<Rightarrow> string \<Rightarrow> json option \<Rightarrow> string \<Rightarrow> mcp_params option \<Rightarrow> check" where
  "validateMCPProtocolVersion req config jsonrpc idv method params =
     (if jsonrpc = ''2.0'' \<and> idv \<noteq> None \<and> method = ''initialize'' \<and>
         (case params of Some p \<Rightarrow> parProtocolVersion p \<noteq> [] | None \<Rightarrow> False)
      then Inr ()
      else
        (let values = hdrValues (reqHeader req) ''MCP-Protocol-Version'' in
         if length values > 1 then Inl ''mcp: protocol version header must have one value''
         else if connectionNominates req then Inl ''mcp: protocol version header cannot be connection-nominated''
         else
           bindR (headerVersion values) (\<lambda>version.
             (let allowed = (case config of
                  Some c \<Rightarrow> (case mcpVersions c of Some vs \<Rightarrow> vs | None \<Rightarrow> [defaultMCPAllowedVersion])
                | None \<Rightarrow> [defaultMCPAllowedVersion]) in
              if version \<notin> set supportedMCPVersions then Inl ''mcp: unsupported protocol version''
              else reject (version \<notin> set allowed) ''mcp: protocol version is not allowed by endpoint policy''))))"

section \<open>Parameter objects\<close>

definition validateMCPStringMap :: "json option \<Rightarrow> string \<Rightarrow> check" where
  "validateMCPStringMap raw field =
     (case jsonObject raw of
        None \<Rightarrow> Inl (''mcp: '' @ field @ '' must be an object of strings'')
      | Some kvs \<Rightarrow>
          reject (list_ex (\<lambda>k. jsonString (jsonKey kvs k) = None) (map fst kvs)) (''mcp: '' @ field @ '' must be a string''))"

definition validateMCPTaskParams :: "json option \<Rightarrow> check" where
  "validateMCPTaskParams raw =
     (case jsonObject raw of
        None \<Rightarrow> Inl ''mcp: task params must be an object''
      | Some kvs \<Rightarrow>
          whenSet kvs ''ttl'' (\<lambda>v. reject (decodeUint 64 v 0 = None) ''mcp: task.ttl must be an unsigned integer''))"

definition logLevels :: "string list" where
  "logLevels = [''debug'', ''info'', ''notice'', ''warning'', ''error'', ''critical'', ''alert'', ''emergency'']"

definition taskStates :: "string list" where
  "taskStates = [''working'', ''input_required'', ''completed'', ''failed'', ''cancelled'']"

definition validateMCPContentAnnotations :: "json option \<Rightarrow> check" where
  "validateMCPContentAnnotations raw =
     (case jsonObject raw of
        None \<Rightarrow> Inl ''mcp: content annotations must be an object''
      | Some kvs \<Rightarrow> firstError
          [whenSet kvs ''audience'' (\<lambda>v. case jsonStrings (Some v) of
              None \<Rightarrow> Inl ''mcp: content annotations audience must be an array''
            | Some roles \<Rightarrow> reject (\<not> list_all (\<lambda>r. r = ''user'' \<or> r = ''assistant'') roles)
                ''mcp: content annotations audience has an invalid role''),
           whenSet kvs ''priority'' (\<lambda>v. reject (decodeFloat v ''0'' = None) ''mcp: content annotations priority must be numeric''),
           whenSet kvs ''lastModified'' (stringField ''mcp: content annotations lastModified must be a string'')])"

definition validateMCPToolIcon :: "(string \<times> json) list \<Rightarrow> check" where
  "validateMCPToolIcon icon = firstError
     [reject (jsonString (jsonKey icon ''src'') = None) ''icon requires src string'',
      whenSet icon ''mimeType'' (stringField ''icon has invalid mimeType''),
      whenSet icon ''theme'' (\<lambda>v. reject (jsonString (Some v) \<notin> {Some ''light'', Some ''dark''}) ''icon has invalid theme''),
      whenSet icon ''sizes'' (\<lambda>v. reject (jsonStrings (Some v) = None) ''icon sizes must be an array of strings'')]"

definition validateMCPToolIcons :: "json option \<Rightarrow> check" where
  "validateMCPToolIcons raw =
     (case jsonObjects raw of None \<Rightarrow> Inl ''must be an array'' | Some icons \<Rightarrow> firstError (map validateMCPToolIcon icons))"

definition validateMCPToolAnnotations :: "json option \<Rightarrow> check" where
  "validateMCPToolAnnotations raw =
     (case jsonObject raw of
        None \<Rightarrow> Inl ''must be an object''
      | Some kvs \<Rightarrow> firstError
          (whenSet kvs ''title'' (stringField ''title must be a string'') #
           map (\<lambda>k. whenPresent kvs k (\<lambda>v. reject (\<not> (v \<noteq> JNull \<and> isBoolOrNull v)) (k @ '' must be a boolean'')))
             [''readOnlyHint'', ''destructiveHint'', ''idempotentHint'', ''openWorldHint'']))"

definition validateMCPModelPreferences :: "json option \<Rightarrow> check" where
  "validateMCPModelPreferences raw =
     (case jsonObject raw of
        None \<Rightarrow> Inl ''mcp: modelPreferences must be an object''
      | Some kvs \<Rightarrow> firstError
          (whenPresent kvs ''hints'' (\<lambda>v. case jsonObjects (Some v) of
              None \<Rightarrow> Inl ''mcp: modelPreferences hints must be an array of objects''
            | Some hints \<Rightarrow> firstError (map (\<lambda>hint. whenSet hint ''name'' (stringField ''mcp: modelPreferences hints name must be a string'')) hints)) #
           map (\<lambda>k. whenSet kvs k (\<lambda>v. case decodeFloat v ''0'' of
              None \<Rightarrow> Inl (''mcp: modelPreferences.'' @ k @ '' must be a number from 0 to 1'')
            | Some lit \<Rightarrow> reject (floatBelow0 lit \<or> floatAbove1 lit) (''mcp: modelPreferences.'' @ k @ '' must be a number from 0 to 1'')))
             [''costPriority'', ''speedPriority'', ''intelligencePriority'']))"

definition validateMCPSamplingTool :: "(string \<times> json) list \<Rightarrow> check" where
  "validateMCPSamplingTool tool = firstError
     [reject (jsonString (jsonKey tool ''name'') = None \<or> jsonObject (jsonKey tool ''inputSchema'') = None)
        ''mcp: sampling tool requires name and inputSchema object'',
      whenSet tool ''title'' (stringField ''mcp: sampling tool title must be a string''),
      whenSet tool ''description'' (stringField ''mcp: sampling tool description must be a string''),
      whenSet tool ''icons'' (\<lambda>v. validateMCPToolIcons (Some v)),
      whenSet tool ''annotations'' (\<lambda>v. validateMCPToolAnnotations (Some v)),
      whenSet tool ''execution'' (\<lambda>v. case jsonObject (Some v) of
          None \<Rightarrow> Inl ''mcp: sampling tool execution must be an object''
        | Some fs \<Rightarrow> whenSet fs ''taskSupport'' (\<lambda>w.
            reject (jsonString (Some w) \<notin> {Some ''required'', Some ''optional'', Some ''forbidden''})
              ''mcp: sampling tool execution.taskSupport is invalid''))]"

definition validateMCPSamplingOptions :: "json option \<Rightarrow> check" where
  "validateMCPSamplingOptions raw =
     (case jsonObject raw of
        None \<Rightarrow> Inl ''mcp: sampling/createMessage params must be an object''
      | Some kvs \<Rightarrow> firstError
          [whenSet kvs ''systemPrompt'' (stringField ''mcp: sampling systemPrompt must be a string''),
           whenSet kvs ''includeContext'' (\<lambda>v. reject (jsonString (Some v) \<notin> {Some ''none'', Some ''thisServer'', Some ''allServers''})
             ''mcp: sampling includeContext has an invalid value''),
           whenSet kvs ''temperature'' (\<lambda>v. reject (decodeFloat v ''0'' = None) ''mcp: sampling temperature must be a number''),
           whenPresent kvs ''stopSequences'' (\<lambda>v. reject (jsonStrings (Some v) = None) ''mcp: sampling stopSequences must be an array of strings''),
           whenSet kvs ''metadata'' (\<lambda>v. reject (jsonObject (Some v) = None) ''mcp: sampling metadata must be an object''),
           whenSet kvs ''modelPreferences'' (\<lambda>v. validateMCPModelPreferences (Some v)),
           whenSet kvs ''toolChoice'' (\<lambda>v. reject
             (structField ''mode'' (decodePtr decodeString []) None (Some v) \<in> {None, Some None} \<or>
              structField ''name'' (decodePtr decodeString []) None (Some v) = None)
             ''mcp: sampling toolChoice requires a mode string''),
           whenSet kvs ''tools'' (\<lambda>v. case jsonObjects (Some v) of
               None \<Rightarrow> Inl ''mcp: sampling tools must be an array of tool objects''
             | Some tools \<Rightarrow> firstError (map validateMCPSamplingTool tools)),
           whenSet kvs ''task'' (\<lambda>v. validateMCPTaskParams (Some v))])"

section \<open>Sampling messages\<close>

lemma decodeRaws_size:
  assumes "structField ''content'' decodeRaws None (Some v) = Some (Some items)" "item \<in> set items"
  shows "size item < size v"
proof -
  have field: "decodeField name decodeRaws kvs old = Some (Some items) \<Longrightarrow> old = Some items \<or> (\<exists>k. (k, JArr items) \<in> set kvs)"
    for name kvs old
  proof (induction name "decodeRaws" kvs old rule: decodeField.induct)
    case (2 name k v kvs x)
    then show ?case
      by (cases v) (auto simp: decodeRaws_def split: if_splits)
  qed simp
  have "size item < size (JArr items)" using assms(2) by (induction items) auto
  moreover obtain kvs k where "v = JObj kvs" "(k, JArr items) \<in> set kvs"
    using assms(1) field [of "''content''" _ None] that by (cases v) (simp_all add: structField_def decodeStruct_def, blast)
  moreover have "(k, w) \<in> set kvs \<Longrightarrow> size w < size (JObj kvs)" for k w
    by (induction kvs) auto
  ultimately show ?thesis by fastforce
qed

definition toolResultContent :: "json \<Rightarrow> json list option" where
  "toolResultContent raw =
     (case (structField ''content'' decodeRaws None (Some raw), structField ''structuredContent'' decodeMap None (Some raw),
            structField ''isError'' (decodePtr decodeBool False) None (Some raw)) of
        (Some (Some items), Some _, Some _) \<Rightarrow> Some items
      | _ \<Rightarrow> None)"

lemma toolResultContent_size: "toolResultContent v = Some items \<Longrightarrow> item \<in> set items \<Longrightarrow> size item < size v"
  using decodeRaws_size by (auto simp: toolResultContent_def split: option.splits)

definition nonEmptyString :: "json option \<Rightarrow> bool" where
  "nonEmptyString v = (case jsonString v of Some s \<Rightarrow> s \<noteq> [] | None \<Rightarrow> False)"

function validateMCPSamplingContentBlock :: "json \<Rightarrow> check" where
  "validateMCPSamplingContentBlock raw =
     (case jsonObject (Some raw) of
        None \<Rightarrow> Inl ''mcp: sampling content block must be an object''
      | Some kvs \<Rightarrow>
          (case jsonString (jsonKey kvs ''type'') of
             None \<Rightarrow> Inl ''mcp: sampling content block requires type''
           | Some kind \<Rightarrow> firstError
               [if kind \<noteq> ''tool_use'' \<and> kind \<noteq> ''tool_result''
                then whenSet kvs ''annotations'' (\<lambda>v. validateMCPContentAnnotations (Some v)) else Inr (),
                if kind = ''text'' then
                  reject (jsonString (jsonKey kvs ''text'') = None) ''mcp: text content block requires text''
                else if kind = ''image'' \<or> kind = ''audio'' then
                  reject (jsonString (jsonKey kvs ''data'') = None \<or> jsonString (jsonKey kvs ''mimeType'') = None)
                    (''mcp: '' @ kind @ '' content block requires data and mimeType'')
                else if kind = ''tool_use'' then
                  reject (\<not> nonEmptyString (jsonKey kvs ''id'') \<or> \<not> nonEmptyString (jsonKey kvs ''name'') \<or>
                          jsonObject (jsonKey kvs ''input'') = None)
                    ''mcp: tool_use content block requires id, name and input object''
                else if kind = ''tool_result'' then
                  (case (if nonEmptyString (jsonKey kvs ''toolUseId'') then toolResultContent raw else None) of
                     None \<Rightarrow> Inl ''mcp: tool_result content block requires toolUseId and content array''
                   | Some items \<Rightarrow> firstError (map validateMCPSamplingContentBlock items))
                else Inl ''mcp: unsupported sampling content block type'']))"
  by pat_completeness auto
termination
  by (relation "measure size") (auto dest: toolResultContent_size split: if_splits)

declare validateMCPSamplingContentBlock.simps [simp del]

definition validateMCPSamplingMessage :: "json \<Rightarrow> check" where
  "validateMCPSamplingMessage raw =
     (case (structField ''role'' decodeString [] (Some raw), structField ''content'' decodeRaw None (Some raw)) of
        (Some role, Some content) \<Rightarrow>
          if role \<noteq> ''user'' \<and> role \<noteq> ''assistant'' then Inl ''mcp: sampling message requires user or assistant role''
          else (case content of
            None \<Rightarrow> Inl ''mcp: sampling message requires content''
          | Some (JArr blocks) \<Rightarrow>
              if blocks = [] then Inl ''mcp: sampling message content must not be empty''
              else firstError (map validateMCPSamplingContentBlock blocks)
          | Some (JObj kvs) \<Rightarrow> validateMCPSamplingContentBlock (JObj kvs)
          | Some _ \<Rightarrow> Inl ''mcp: sampling message content must be a content block'')
      | _ \<Rightarrow> Inl ''mcp: sampling message requires user or assistant role'')"

section \<open>Parameters by method\<close>

definition validateNotification :: "string \<Rightarrow> json option \<Rightarrow> check" where
  "validateNotification method raw =
     (if method = ''notifications/cancelled'' then
        (case (structField ''requestId'' decodeRaw None raw, structField ''reason'' (decodePtr decodeString []) None raw) of
           (Some rid, Some _) \<Rightarrow> reject (validateMCPRequestID rid \<noteq> Inr ()) ''mcp: notifications/cancelled requires params.requestId''
         | _ \<Rightarrow> Inl ''mcp: notifications/cancelled requires params.requestId'')
      else if method = ''notifications/progress'' then
        (case (structField ''progressToken'' decodeRaw None raw, structField ''progress'' (decodePtr decodeFloat ''0'') None raw,
               structField ''total'' (decodePtr decodeFloat ''0'') None raw, structField ''message'' (decodePtr decodeString []) None raw) of
           (Some (Some token), Some (Some _), Some _, Some _) \<Rightarrow>
             reject (validateMCPRequestID (Some token) \<noteq> Inr ())
               ''mcp: notifications/progress progressToken must be a string or signed integer''
         | _ \<Rightarrow> Inl ''mcp: notifications/progress requires progressToken and progress'')
      else if method = ''notifications/message'' then
        (case (structField ''level'' decodeString [] raw, structField ''logger'' (decodePtr decodeString []) None raw,
               structField ''data'' decodeRaw None raw) of
           (Some level, Some _, Some (Some _)) \<Rightarrow>
             reject (level \<notin> set logLevels) ''mcp: notifications/message requires a valid level and data''
         | _ \<Rightarrow> Inl ''mcp: notifications/message requires a valid level and data'')
      else if method = ''notifications/resources/updated'' then
        (case structField ''uri'' decodeRaw None raw of
           Some uri \<Rightarrow> reject (jsonString uri = None) ''mcp: notifications/resources/updated requires params.uri''
         | None \<Rightarrow> Inl ''mcp: notifications/resources/updated requires params.uri'')
      else if method = ''notifications/elicitation/complete'' then
        reject (structField ''elicitationId'' decodeString [] raw \<in> {None, Some []})
          ''mcp: notifications/elicitation/complete requires elicitationId''
      else if method = ''notifications/tasks/status'' then
        reject
          (structField ''taskId'' decodeString [] raw \<in> {None, Some []} \<or>
           structField ''createdAt'' decodeString [] raw \<in> {None, Some []} \<or>
           structField ''lastUpdatedAt'' decodeString [] raw \<in> {None, Some []} \<or>
           structField ''ttl'' (decodePtr (decodeUint 64) 0) None raw = None \<or>
           structField ''statusMessage'' (decodePtr decodeString []) None raw = None \<or>
           structField ''pollInterval'' (decodePtr (decodeUint 64) 0) None raw = None \<or>
           structField ''status'' decodeString [] raw \<notin> Some ` set taskStates)
          ''mcp: notifications/tasks/status has invalid task status params''
      else Inr ())"

definition validateToolsCall :: "mcp_params option \<Rightarrow> json option \<Rightarrow> check" where
  "validateToolsCall params raw =
     (case params of
        None \<Rightarrow> Inl ''mcp: tools/call requires params.name''
      | Some p \<Rightarrow>
          if parName p = [] then Inl ''mcp: tools/call requires params.name''
          else (case jsonObject raw of
            None \<Rightarrow> Inl ''mcp: tools/call params must be an object''
          | Some kvs \<Rightarrow> firstError
              [whenPresent kvs ''arguments'' (\<lambda>v. reject (jsonObject (Some v) = None) ''mcp: tools/call params.arguments must be an object''),
               whenSet kvs ''task'' (\<lambda>v. validateMCPTaskParams (Some v))]))"

definition requiredFields :: "(string \<times> string) list" where
  "requiredFields =
     [(''resources/read'', ''uri''), (''resources/subscribe'', ''uri''), (''resources/unsubscribe'', ''uri''), (''prompts/get'', ''name''),
      (''tasks/get'', ''taskId''), (''tasks/result'', ''taskId''), (''tasks/cancel'', ''taskId''), (''tasks/update'', ''taskId'')]"

definition objectMethods :: "string list" where
  "objectMethods = map fst requiredFields @ [''logging/setLevel'', ''completion/complete'', ''sampling/createMessage'', ''elicitation/create'']"

definition validateCompletion :: "(string \<times> json) list \<Rightarrow> check" where
  "validateCompletion kvs =
     (let ref = jsonKey kvs ''ref''; arg = jsonKey kvs ''argument'' in
      (case (structField ''type'' decodeString [] ref, structField ''name'' decodeRaw None ref, structField ''uri'' decodeRaw None ref,
             structField ''name'' decodeRaw None arg, structField ''value'' decodeRaw None arg) of
         (Some typ, Some rname, Some ruri, Some aname, Some avalue) \<Rightarrow> firstError
           [reject (typ = ''ref/prompt'' \<and> jsonString rname = None \<or> typ = ''ref/resource'' \<and> jsonString ruri = None \<or>
                    typ \<noteq> ''ref/prompt'' \<and> typ \<noteq> ''ref/resource'' \<or> jsonString aname = None \<or> jsonString avalue = None)
              ''mcp: completion/complete has invalid ref'',
            whenSet kvs ''context'' (\<lambda>v. case jsonObject (Some v) of
                None \<Rightarrow> Inl ''mcp: completion/complete context must be an object''
              | Some context \<Rightarrow> whenSet context ''arguments'' (\<lambda>w. validateMCPStringMap (Some w) ''completion context arguments''))]
       | _ \<Rightarrow> Inl ''mcp: completion/complete requires ref and argument''))"

definition validateSampling :: "json \<Rightarrow> (string \<times> json) list \<Rightarrow> check" where
  "validateSampling raw kvs =
     (case (if jsonKey kvs ''maxTokens'' \<in> {None, Some JNull} then None
            else if structField ''maxTokens'' (decodeUint 32) 0 (Some raw) = None then None
            else structField ''messages'' decodeRaws None (Some raw)) of
        Some (Some (m # ms)) \<Rightarrow> firstError (map validateMCPSamplingMessage (m # ms) @ [validateMCPSamplingOptions (Some raw)])
      | _ \<Rightarrow> Inl ''mcp: sampling/createMessage requires messages and maxTokens'')"

definition validateElicitation :: "json \<Rightarrow> check" where
  "validateElicitation raw =
     (case (structField ''mode'' decodeString [] (Some raw), structField ''message'' decodeString [] (Some raw),
            structField ''requestedSchema'' decodeRaw None (Some raw), structField ''url'' decodeRaw None (Some raw),
            structField ''elicitationId'' decodeRaw None (Some raw)) of
        (Some mode, Some message, Some schema, Some url, Some eid) \<Rightarrow>
          if trimSpace message = [] then Inl ''mcp: elicitation/create requires message''
          else if mode = [] \<or> mode = ''form'' then
            reject (jsonObject schema = None) ''mcp: form elicitation requires requestedSchema object''
          else if mode = ''url'' then
            reject (\<not> nonEmptyString url \<or> \<not> nonEmptyString eid) ''mcp: URL elicitation requires url and elicitationId''
          else Inl ''mcp: elicitation/create has invalid mode''
      | _ \<Rightarrow> Inl ''mcp: elicitation/create requires message'')"

definition validateObjectParams :: "string \<Rightarrow> json \<Rightarrow> (string \<times> json) list \<Rightarrow> check" where
  "validateObjectParams method raw kvs = firstError
     (map (\<lambda>k. whenPresent kvs k (\<lambda>v. reject (\<not> nonEmptyString (Some v)) (''mcp: params.'' @ k @ '' must be a non-empty string'')))
        [''cursor'', ''uri'', ''name'', ''level'', ''taskId''] @
      [case map_of requiredFields method of
         Some field \<Rightarrow> reject (jsonKey kvs field = None) (''mcp: '' @ method @ '' requires params.'' @ field)
       | None \<Rightarrow> Inr (),
       if method = ''logging/setLevel'' then
         reject (jsonString (jsonKey kvs ''level'') \<notin> Some ` set logLevels) ''mcp: logging/setLevel has invalid params.level''
       else Inr (),
       if method = ''tasks/list'' then
         whenSet kvs ''status'' (\<lambda>v. reject (jsonString (Some v) \<notin> Some ` set taskStates) ''mcp: tasks/list has invalid params.status'')
       else Inr (),
       if method = ''tasks/cancel'' then whenSet kvs ''reason'' (stringField ''mcp: tasks/cancel params.reason must be a string'') else Inr (),
       if method = ''tasks/update'' then
         whenPresent kvs ''inputResponses'' (\<lambda>v. reject (jsonObject (Some v) = None) ''mcp: tasks/update params.inputResponses must be an object'')
       else Inr (),
       if method = ''completion/complete'' then validateCompletion kvs else Inr (),
       if method = ''prompts/get'' then
         whenSet kvs ''arguments'' (\<lambda>v. validateMCPStringMap (Some v) ''prompts/get arguments'')
       else Inr (),
       if method = ''sampling/createMessage'' then validateSampling raw kvs else Inr (),
       if method = ''elicitation/create'' then validateElicitation raw else Inr ()])"

definition validateMCPMethodParams :: "string \<Rightarrow> mcp_params option \<Rightarrow> json option \<Rightarrow> check" where
  "validateMCPMethodParams method params raw =
     (if hasPrefix method ''notifications/'' then validateNotification method raw
      else if method = ''initialize'' then Inr ()
      else if method = ''tools/call'' then validateToolsCall params raw
      else (case raw of
        Some (JObj kvs) \<Rightarrow> validateObjectParams method (JObj kvs) kvs
      | Some JNull \<Rightarrow> reject (method \<in> set objectMethods) (''mcp: '' @ method @ '' requires an object params'')
      | None \<Rightarrow> reject (method \<in> set objectMethods) (''mcp: '' @ method @ '' requires an object params'')
      | Some _ \<Rightarrow> Inl ''mcp: params must be an object''))"

section \<open>Messages\<close>

record mcp_message =
  msgMethod :: string
  msgTool :: string
  msgResponse :: bool
  msgReceiveStream :: bool

definition mcpToolName :: "string \<Rightarrow> bool" where
  "mcpToolName s \<longleftrightarrow>
     1 \<le> length s \<and> length s \<le> 128 \<and> list_all (\<lambda>c. isLowerAlpha c \<or> isUpperAlpha c \<or> isDigit c \<or> c \<in> set ''_.-'') s"

definition decodeParams :: "json option \<Rightarrow> string + mcp_params option" where
  "decodeParams raw =
     (case raw of
        None \<Rightarrow> Inr None
      | Some JNull \<Rightarrow> Inr None
      | Some (JObj kvs) \<Rightarrow>
          (case (structField ''name'' decodeString [] raw, structField ''protocolVersion'' decodeString [] raw) of
             (Some n, Some v) \<Rightarrow> Inr (Some \<lparr>parName = n, parProtocolVersion = v\<rparr>)
           | _ \<Rightarrow> Inl ''mcp: params must be an object'')
      | Some _ \<Rightarrow> Inl ''mcp: params must be an object'')"

definition validateInitialize :: "mcp_params option \<Rightarrow> json option \<Rightarrow> check" where
  "validateInitialize params raw =
     (case (params, jsonObject raw) of
        (Some p, Some ini) \<Rightarrow>
          reject
            (parProtocolVersion p = [] \<or> jsonObject (jsonKey ini ''capabilities'') = None \<or>
             structField ''name'' decodeString [] (jsonKey ini ''clientInfo'') \<in> {None, Some []} \<or>
             structField ''version'' decodeString [] (jsonKey ini ''clientInfo'') \<in> {None, Some []})
            ''mcp: initialize requires protocolVersion, capabilities, and clientInfo''
      | _ \<Rightarrow> Inl ''mcp: initialize requires protocolVersion, capabilities, and clientInfo'')"

definition validateEnvelope :: "bool \<Rightarrow> string \<Rightarrow> (string \<times> json) list \<Rightarrow> check" where
  "validateEnvelope batched method object = firstError
     [if hasPrefix method ''notifications/'' then reject (jsonKey object ''id'' \<noteq> None) ''mcp: notification must not contain an id''
      else validateMCPRequestID (jsonKey object ''id''),
      reject (jsonKey object ''result'' \<noteq> None) ''mcp: request cannot contain result'',
      reject (jsonKey object ''error'' \<noteq> None) ''mcp: request cannot contain error'',
      reject (batched \<and> method = ''initialize'') ''mcp: initialize must not appear in a batch'']"

definition messageTool :: "bool \<Rightarrow> string \<Rightarrow> mcp_params option \<Rightarrow> string + string" where
  "messageTool strictToolNames method params =
     (if method = ''tools/call''
      then (case params of
              None \<Rightarrow> Inl ''mcp: tools/call requires params.name''
            | Some p \<Rightarrow>
                if parName p = [] then Inl ''mcp: tools/call requires params.name''
                else if strictToolNames \<and> \<not> mcpToolName (parName p) then Inl ''mcp: invalid tool name''
                else Inr (parName p))
      else Inr [])"

definition mcpRequestMessage ::
    "http_request \<Rightarrow> mcp_config option \<Rightarrow> bool \<Rightarrow> bool \<Rightarrow> (string \<times> json) list \<Rightarrow> json \<Rightarrow> string + mcp_message" where
  "mcpRequestMessage req config strictToolNames batched object rawMethod =
     (case jsonString (Some rawMethod) of
        None \<Rightarrow> Inl ''mcp: method must be a non-empty string''
      | Some method \<Rightarrow>
          if trimSpace method = [] then Inl ''mcp: method must be a non-empty string''
          else
            bindR (validateEnvelope batched method object) (\<lambda>_.
            bindR (decodeParams (jsonKey object ''params'')) (\<lambda>params.
            bindR (validateMCPMethodParams method params (jsonKey object ''params'')) (\<lambda>_.
            bindR (messageTool strictToolNames method params) (\<lambda>tool.
            bindR (firstError
                [if method = ''initialize'' then
                   (case params of
                      Some p \<Rightarrow> reject (parProtocolVersion p \<notin> set supportedMCPVersions) ''mcp: unsupported initialize protocol version''
                    | None \<Rightarrow> Inr ())
                 else Inr (),
                 if method = ''initialize'' then validateInitialize params (jsonKey object ''params'') else Inr (),
                 validateMCPProtocolVersion req config ''2.0'' (jsonKey object ''id'') method params]) (\<lambda>_.
              Inr \<lparr>msgMethod = method, msgTool = tool, msgResponse = False, msgReceiveStream = False\<rparr>))))))"

definition responseMessage :: mcp_message where
  "responseMessage = \<lparr>msgMethod = [], msgTool = [], msgResponse = True, msgReceiveStream = False\<rparr>"

definition validErrorObject :: "json option \<Rightarrow> bool" where
  "validErrorObject raw =
     (case jsonObject raw of
        None \<Rightarrow> False
      | Some fs \<Rightarrow>
          (case (jsonKey fs ''code'', jsonKey fs ''message'') of
             (Some (JNum lit), Some (JStr _)) \<Rightarrow> (case atoi lit of Some c \<Rightarrow> - (2 ^ 31) \<le> c \<and> c < 2 ^ 31 | None \<Rightarrow> False)
           | _ \<Rightarrow> False))"

definition mcpMessage ::
    "http_request \<Rightarrow> mcp_config option \<Rightarrow> bool \<Rightarrow> bool \<Rightarrow> json \<Rightarrow> string + mcp_message" where
  "mcpMessage req config strictToolNames batched item =
     (case item of
        JObj object \<Rightarrow>
          if jsonString (jsonKey object ''jsonrpc'') \<noteq> Some ''2.0'' then Inl ''mcp: jsonrpc must be 2.0''
          else (case jsonKey object ''method'' of
            Some rawMethod \<Rightarrow> mcpRequestMessage req config strictToolNames batched object rawMethod
          | None \<Rightarrow>
              if jsonKey object ''result'' \<noteq> None then
                bindR (firstError
                  [reject (jsonKey object ''error'' \<noteq> None) ''mcp: response cannot contain both result and error'',
                   validateMCPResponseID (jsonKey object ''id'') False,
                   validateMCPProtocolVersion req config ''2.0'' None [] None]) (\<lambda>_. Inr responseMessage)
              else if jsonKey object ''error'' \<noteq> None then
                bindR (firstError
                  [validateMCPResponseID (jsonKey object ''id'') True,
                   reject (\<not> validErrorObject (jsonKey object ''error'')) ''mcp: response error requires int32 code and string message'',
                   validateMCPProtocolVersion req config ''2.0'' None [] None]) (\<lambda>_. Inr responseMessage)
              else Inl ''mcp: message requires method or response'')
      | _ \<Rightarrow> Inl ''mcp: batch item must be an object'')"

definition defaultMCPMaxBodyBytes :: int where
  "defaultMCPMaxBodyBytes = 64 * 2 ^ 10"

definition mcpMaxBytes :: "mcp_config option \<Rightarrow> int" where
  "mcpMaxBytes config =
     (case config of Some c \<Rightarrow> if mcpMaxBodyBytes c > 0 then mcpMaxBodyBytes c else defaultMCPMaxBodyBytes | None \<Rightarrow> defaultMCPMaxBodyBytes)"

definition mcpStrict :: "mcp_config option \<Rightarrow> bool" where
  "mcpStrict config = (case config of Some c \<Rightarrow> (case mcpStrictToolNames c of Some b \<Rightarrow> b | None \<Rightarrow> True) | None \<Rightarrow> True)"

text \<open>\<^verbatim>\<open>parseMCPMessages\<close>; the result carries the request with its body restored.\<close>

definition parseMCPMessages ::
    "json_parser \<Rightarrow> mcp_config option \<Rightarrow> http_request \<Rightarrow> string + (mcp_message list \<times> http_request)" where
  "parseMCPMessages parseJSON config req =
     (if equalFold (reqMethod req) ''GET'' \<and> (reqBody req = None \<or> reqContentLength req = 0) \<and> requestAcceptsJSONRPCStream req then
        mapR (\<lambda>_. ([\<lparr>msgMethod = [], msgTool = [], msgResponse = False, msgReceiveStream = True\<rparr>], req))
          (validateMCPProtocolVersion req config ''2.0'' None [] None)
      else (case reqBody req of
        None \<Rightarrow> Inl ''mcp: empty body''
      | Some rb \<Rightarrow>
          bindR (readLimited ''mcp'' (mcpMaxBytes config) req rb) (\<lambda>(body, req').
            (case parseJSON body of
               None \<Rightarrow> Inl ''mcp: invalid json-rpc''
             | Some payload \<Rightarrow>
                 bindR (rpcItems ''mcp'' payload) (\<lambda>items.
                   mapR (\<lambda>ms. (ms, req'))
                     (traverseR (mcpMessage req' config (mcpStrict config) (case payload of JArr _ \<Rightarrow> True | _ \<Rightarrow> False)) items))))))"

definition parseMCPRequest :: "json_parser \<Rightarrow> mcp_config option \<Rightarrow> http_request \<Rightarrow> string + (string \<times> string)" where
  "parseMCPRequest parseJSON config req =
     bindR (parseMCPMessages parseJSON config req) (\<lambda>(ms, _).
       (case ms of
          [m] \<Rightarrow> if msgResponse m then Inl ''mcp: expected one request message'' else Inr (msgMethod m, msgTool m)
        | _ \<Rightarrow> Inl ''mcp: expected one request message''))"

definition mcpDecidePath :: "string \<Rightarrow> string \<Rightarrow> string" where
  "mcpDecidePath urlPath tool =
     (let p = (if urlPath = [] then ''/'' else urlPath) in if tool = [] then p else p @ [CHR 0x00] @ tool)"

section \<open>Accepted messages\<close>

lemma firstError_ok [simp]: "firstError cs = Inr u \<longleftrightarrow> list_all (\<lambda>c. c = Inr ()) cs"
  by (induction cs) (auto split: sum.splits)

declare firstError.simps(2) [simp del]

lemma reject_ok [simp]: "reject b msg = Inr u \<longleftrightarrow> \<not> b"
  by (simp add: reject_def)

text \<open>The version that a request selects by its header is supported and allowed.\<close>

definition versionAllowed :: "http_request \<Rightarrow> mcp_config option \<Rightarrow> bool" where
  "versionAllowed req config \<longleftrightarrow>
     (\<exists>v. headerVersion (hdrValues (reqHeader req) ''MCP-Protocol-Version'') = Inr v \<and> v \<in> set supportedMCPVersions \<and>
       (case config of
          Some c \<Rightarrow> (case mcpVersions c of Some vs \<Rightarrow> v \<in> set vs | None \<Rightarrow> v = defaultMCPAllowedVersion)
        | None \<Rightarrow> v = defaultMCPAllowedVersion)) \<and>
     \<not> connectionNominates req"

lemma validateMCPProtocolVersion_ok:
  assumes "validateMCPProtocolVersion req config jsonrpc idv method params = Inr u" "method \<noteq> ''initialize''"
  shows "versionAllowed req config"
  using assms by (auto simp: validateMCPProtocolVersion_def versionAllowed_def Let_def split: if_splits option.splits)

definition messageOk :: "http_request \<Rightarrow> mcp_config option \<Rightarrow> bool \<Rightarrow> bool \<Rightarrow> mcp_message \<Rightarrow> bool" where
  "messageOk req config strict batched m \<longleftrightarrow>
     (msgMethod m = ''tools/call'' \<longleftrightarrow> msgTool m \<noteq> []) \<and> (strict \<and> msgTool m \<noteq> [] \<longrightarrow> mcpToolName (msgTool m)) \<and>
     (batched \<longrightarrow> msgMethod m \<noteq> ''initialize'') \<and> (msgMethod m \<noteq> ''initialize'' \<longrightarrow> versionAllowed req config)"

text \<open>An initialize request names a supported version in its parameters.\<close>

definition initializeVersion :: "json \<Rightarrow> bool" where
  "initializeVersion item \<longleftrightarrow>
     (\<exists>kvs v. item = JObj kvs \<and>
        structField ''protocolVersion'' decodeString [] (jsonKey kvs ''params'') = Some v \<and> v \<in> set supportedMCPVersions)"

lemma messageTool_ok:
  assumes "messageTool strict method params = Inr tool"
  shows "method = ''tools/call'' \<longleftrightarrow> tool \<noteq> []" "strict \<and> tool \<noteq> [] \<longrightarrow> mcpToolName tool"
  using assms by (auto simp: messageTool_def split: if_splits option.splits)

lemma mcpRequestMessage_ok:
  assumes "mcpRequestMessage req config strict batched object rawMethod = Inr m"
  shows "messageOk req config strict batched m" and "msgMethod m = ''initialize'' \<Longrightarrow> initializeVersion (JObj object)"
proof -
  obtain mth where mth: "jsonString (Some rawMethod) = Some mth" "trimSpace mth \<noteq> []"
    using assms by (cases "jsonString (Some rawMethod)") (auto simp: mcpRequestMessage_def split: if_splits)
  obtain params tool where
    par: "decodeParams (jsonKey object ''params'') = Inr params"
    and ini: "(if mth = ''initialize'' then validateInitialize params (jsonKey object ''params'') else Inr ()) = Inr ()"
      "(if mth = ''initialize'' then
          (case params of
             Some p \<Rightarrow> reject (parProtocolVersion p \<notin> set supportedMCPVersions) ''mcp: unsupported initialize protocol version''
           | None \<Rightarrow> Inr ())
        else Inr ()) = Inr ()"
    and env: "validateEnvelope batched mth object = Inr ()"
    and tool: "messageTool strict mth params = Inr tool"
    and ver: "validateMCPProtocolVersion req config ''2.0'' (jsonKey object ''id'') mth params = Inr ()"
    and m: "m = \<lparr>msgMethod = mth, msgTool = tool, msgResponse = False, msgReceiveStream = False\<rparr>"
    using assms unfolding mcpRequestMessage_def mth(1) option.case if_not_P [OF mth(2)] bindR_eq_Inr firstError_ok
    by auto
  have "batched \<longrightarrow> mth \<noteq> ''initialize''" using env by (auto simp: validateEnvelope_def)
  moreover have "mth \<noteq> ''initialize'' \<longrightarrow> versionAllowed req config" using validateMCPProtocolVersion_ok [OF ver] by blast
  ultimately show "messageOk req config strict batched m" using messageTool_ok [OF tool] by (simp add: messageOk_def m)
  assume "msgMethod m = ''initialize''"
  then have mth_ini: "mth = ''initialize''" by (simp add: m)
  then obtain q where q: "params = Some q" "parProtocolVersion q \<in> set supportedMCPVersions"
    using ini mth_ini by (cases params) (auto simp: validateInitialize_def split: if_splits)
  then have "structField ''protocolVersion'' decodeString [] (jsonKey object ''params'') = Some (parProtocolVersion q)"
    using par by (auto simp: decodeParams_def split: option.splits json.splits)
  then show "initializeVersion (JObj object)" using q by (simp add: initializeVersion_def)
qed

lemma mcpMessage_ok:
  assumes "mcpMessage req config strict batched item = Inr m"
  shows "messageOk req config strict batched m \<and> (msgMethod m = ''initialize'' \<longrightarrow> initializeVersion item)"
proof -
  obtain object where item: "item = JObj object" using assms by (cases item) (simp_all add: mcpMessage_def)
  show ?thesis
  proof (cases "jsonKey object ''method''")
    case (Some rawMethod)
    then show ?thesis using assms item mcpRequestMessage_ok by (simp add: mcpMessage_def split: if_splits)
  next
    case None
    then have "m = responseMessage" "validateMCPProtocolVersion req config ''2.0'' None [] None = Inr ()"
      using assms item by (auto simp: mcpMessage_def split: if_splits)
    then show ?thesis using validateMCPProtocolVersion_ok [of req config "''2.0''" None "[]" None "()"]
      by (simp add: messageOk_def responseMessage_def)
  qed
qed

lemma readLimited_headers:
  assumes "readLimited label n req rb = Inr (body, req')"
  shows "versionAllowed req' config = versionAllowed req config"
proof -
  have "reqHeader req' = hdrDel (reqHeader req) ''Transfer-Encoding''"
    using assms by (auto simp: readLimited_def withBody_def Let_def split: if_splits)
  moreover have "canonicalHeaderKey ''MCP-Protocol-Version'' \<noteq> canonicalHeaderKey ''Transfer-Encoding''"
    "canonicalHeaderKey ''Connection'' \<noteq> canonicalHeaderKey ''Transfer-Encoding''" by code_simp+
  ultimately show ?thesis by (simp add: versionAllowed_def connectionNominates_def hdrValues_hdrDel)
qed

lemma readLimited_body: "readLimited label n req rb = Inr (body, req') \<Longrightarrow> \<exists>rb'. reqBody req' = Some rb' \<and> bodyData rb' = body"
  by (auto simp: readLimited_def withBody_def Let_def split: if_splits)

lemma traverseR_all:
  assumes "traverseR f xs = Inr ys" "\<And>x y. f x = Inr y \<Longrightarrow> P x y"
  shows "list_all2 P xs ys"
  using assms(1)
proof (induction xs arbitrary: ys)
  case (Cons x xs)
  then show ?case using assms(2) by auto
qed simp

text \<open>
  What the inspection accepts: the opening of a receive stream, a message, or a batch; \<open>sent\<close> is the request
  that is forwarded, whose body is the one that was parsed.
\<close>

definition acceptedAs :: "json_parser \<Rightarrow> http_request \<Rightarrow> mcp_message list \<Rightarrow> bool" where
  "acceptedAs parseJSON sent ms \<longleftrightarrow>
     (\<exists>m. ms = [m] \<and> msgReceiveStream m \<and> msgMethod m = []) \<or>
     (\<exists>rb payload. reqBody sent = Some rb \<and> parseJSON (bodyData rb) = Some payload \<and>
        (case payload of
           JArr items \<Rightarrow> items \<noteq> [] \<and> length ms = length items \<and> (\<forall>m \<in> set ms. msgMethod m \<noteq> ''initialize'')
         | _ \<Rightarrow> \<exists>m. ms = [m] \<and> (msgMethod m = ''initialize'' \<longrightarrow> initializeVersion payload)))"

lemma parseMCPMessages_ok:
  assumes "parseMCPMessages parseJSON config req = Inr (ms, req')"
  shows "acceptedAs parseJSON req' ms \<and> (\<exists>b. list_all (messageOk req config (mcpStrict config) b) ms)"
proof (cases "equalFold (reqMethod req) ''GET'' \<and> (reqBody req = None \<or> reqContentLength req = 0) \<and> requestAcceptsJSONRPCStream req")
  case True
  then have "ms = [\<lparr>msgMethod = [], msgTool = [], msgResponse = False, msgReceiveStream = True\<rparr>]"
    "validateMCPProtocolVersion req config ''2.0'' None [] None = Inr ()"
    using assms by (auto simp: parseMCPMessages_def)
  then show ?thesis using validateMCPProtocolVersion_ok by (simp add: messageOk_def acceptedAs_def)
next
  case False
  then obtain rb body payload items where
    read: "readLimited ''mcp'' (mcpMaxBytes config) req rb = Inr (body, req')"
    and parsed: "parseJSON body = Some payload" and items: "rpcItems ''mcp'' payload = Inr items"
    and msgs: "traverseR (mcpMessage req' config (mcpStrict config) (case payload of JArr _ \<Rightarrow> True | _ \<Rightarrow> False)) items = Inr ms"
    using assms unfolding parseMCPMessages_def if_not_P [OF False] by (auto split: option.splits)
  let ?b = "case payload of JArr _ \<Rightarrow> True | _ \<Rightarrow> False"
  let ?ok = "\<lambda>item m. messageOk req' config (mcpStrict config) ?b m \<and> (msgMethod m = ''initialize'' \<longrightarrow> initializeVersion item)"
  have ok: "list_all2 ?ok items ms"
    using traverseR_all [OF msgs, of ?ok] mcpMessage_ok by blast
  then have all: "list_all (messageOk req' config (mcpStrict config) ?b) ms"
    by (auto simp: list_all_length list_all2_conv_all_nth)
  then have "list_all (messageOk req config (mcpStrict config) ?b) ms"
    using readLimited_headers [OF read, of config] by (auto simp: list_all_iff messageOk_def)
  moreover obtain rb' where "reqBody req' = Some rb'" "bodyData rb' = body" using readLimited_body [OF read] by blast
  moreover have "case payload of
       JArr items \<Rightarrow> items \<noteq> [] \<and> length ms = length items \<and> (\<forall>m \<in> set ms. msgMethod m \<noteq> ''initialize'')
     | _ \<Rightarrow> \<exists>m. ms = [m] \<and> (msgMethod m = ''initialize'' \<longrightarrow> initializeVersion payload)"
  proof (cases "\<exists>vs. payload = JArr vs")
    case True
    then show ?thesis
      using items all list_all2_lengthD [OF ok] by (auto simp: rpcItems_def list_all_iff messageOk_def split: if_splits)
  next
    case False
    then have "items = [payload]" using items by (cases payload) (auto simp: rpcItems_def)
    then show ?thesis using ok False by (auto simp: list_all2_Cons1 split: json.split)
  qed
  ultimately show ?thesis using parsed by (auto simp: acceptedAs_def)
qed

text \<open>The path that the policy engine sees determines the URL path and the tool.\<close>

lemma cutByte_absent: "t \<notin> set r \<Longrightarrow> cutByte r t = (r, [], False)"
  by (induction r) auto

lemma mcpDecidePath_cut:
  "CHR 0x00 \<notin> set p \<Longrightarrow> p \<noteq> [] \<Longrightarrow> cutByte (mcpDecidePath p t) (CHR 0x00) = (p, t, t \<noteq> [])"
  by (simp add: mcpDecidePath_def cutByte_append cutByte_absent)

lemma mcpDecidePath_inj:
  assumes "CHR 0x00 \<notin> set p" "CHR 0x00 \<notin> set q" "p \<noteq> []" "q \<noteq> []"
    and "mcpDecidePath p t = mcpDecidePath q u"
  shows "p = q \<and> t = u"
proof -
  have "(p, t, t \<noteq> []) = (q, u, u \<noteq> [])"
    unfolding mcpDecidePath_cut [OF assms(1,3), symmetric] mcpDecidePath_cut [OF assms(2,4), symmetric] assms(5) ..
  then show ?thesis by blast
qed

section \<open>Properties\<close>

text \<open>
  C28: every message that the MCP inspection accepts has a tool name exactly when it calls a tool, the
  name is well formed where strict names are configured, and for any message but an initialize request
  the header, or the fallback for a missing one, selects a supported version that the endpoint allows. An
  initialize request stands alone, in no batch, not even one of a single element, and names a supported
  version in its parameters; whether the endpoint allows that version is not checked. The messages are
  those of the body that is forwarded, one for each of its elements.\<close>

theorem mcp_accepted_messages:
  assumes "parseMCPMessages parseJSON config req = Inr (ms, req')"
  shows "list_all (\<lambda>m. (msgMethod m = ''tools/call'' \<longleftrightarrow> msgTool m \<noteq> []) \<and>
       (mcpStrict config \<and> msgTool m \<noteq> [] \<longrightarrow> mcpToolName (msgTool m)) \<and>
       (msgMethod m \<noteq> ''initialize'' \<longrightarrow> versionAllowed req config)) ms \<and>
     ((\<exists>m. ms = [m] \<and> msgReceiveStream m \<and> msgMethod m = []) \<or>
      (\<exists>rb payload. reqBody req' = Some rb \<and> parseJSON (bodyData rb) = Some payload \<and>
        (case payload of
           JArr items \<Rightarrow> items \<noteq> [] \<and> length ms = length items \<and> (\<forall>m \<in> set ms. msgMethod m \<noteq> ''initialize'')
         | _ \<Rightarrow> \<exists>m. ms = [m] \<and> (msgMethod m = ''initialize'' \<longrightarrow> initializeVersion payload))))"
  using parseMCPMessages_ok [OF assms] unfolding acceptedAs_def by (auto simp: list_all_iff messageOk_def)

text \<open>A call of a tool with a second parameter whose key differs from \<^verbatim>\<open>name\<close> in case only.\<close>

definition toolCall :: "string \<Rightarrow> string \<Rightarrow> string \<Rightarrow> (string \<times> json) list \<Rightarrow> json" where
  "toolCall named variant decided args =
     JObj [(''jsonrpc'', JStr ''2.0''), (''id'', JNum ''1''), (''method'', JStr ''tools/call''),
       (''params'', JObj [(''name'', JStr named), (''arguments'', JObj args), (variant, JStr decided)])]"

definition callRequest :: http_request where
  "callRequest = \<lparr>reqMethod = ''POST'', reqURL = None, reqHeader = [(''Mcp-Protocol-Version'', [''2025-11-25''])],
     reqBody = Some \<lparr>bodyData = ''x'', bodyReadErr = False, bodyCloseErr = False\<rparr>, reqContentLength = 1, reqTransferEncoding = []\<rparr>"

definition callParser :: json_parser where
  "callParser body = (if body = ''x'' then Some (toolCall ''danger'' ''Name'' ''safe'' []) else None)"

lemma callRequest_parses:
  "mapR fst (parseMCPMessages callParser None callRequest) =
     Inr [\<lparr>msgMethod = ''tools/call'', msgTool = ''safe'', msgResponse = False, msgReceiveStream = False\<rparr>]"
  by code_simp

theorem mcp_accepted_messages_witness:
  "list_all (\<lambda>m. msgMethod m = ''tools/call'' \<and> mcpToolName (msgTool m))
     [\<lparr>msgMethod = ''tools/call'', msgTool = ''safe'', msgResponse = False, msgReceiveStream = False\<rparr>]"
proof -
  obtain req' where "parseMCPMessages callParser None callRequest =
      Inr ([\<lparr>msgMethod = ''tools/call'', msgTool = ''safe'', msgResponse = False, msgReceiveStream = False\<rparr>], req')"
    using callRequest_parses by auto
  from mcp_accepted_messages [OF this] show ?thesis by (simp add: mcpStrict_def)
qed

lemma versionAllowed_validates:
  "versionAllowed req config \<Longrightarrow> method \<noteq> ''initialize'' \<Longrightarrow> validateMCPProtocolVersion req config jsonrpc idv method params = Inr ()"
  by (auto simp: validateMCPProtocolVersion_def versionAllowed_def headerVersion_def Let_def reject_def split: list.splits option.splits if_splits)

lemma toolCall_message:
  assumes "fieldMatches variant ''name''" "variant \<noteq> ''name''" "decided \<noteq> []" "strict \<longrightarrow> mcpToolName decided" "versionAllowed req config"
  shows "mcpMessage req config strict batched (toolCall named variant decided args) =
     Inr \<lparr>msgMethod = ''tools/call'', msgTool = decided, msgResponse = False, msgReceiveStream = False\<rparr>"
proof -
  let ?ps = "[(''name'', JStr named), (''arguments'', JObj args), (variant, JStr decided)]"
  have folded: "foldCase ''name'' \<noteq> foldCase ''arguments''" "foldCase ''name'' \<noteq> foldCase ''protocolVersion''"
    "foldCase ''name'' \<noteq> foldCase ''task''" "foldCase ''arguments'' \<noteq> foldCase ''protocolVersion''" by code_simp+
  have v: "foldCase variant = foldCase ''name''" using assms(1,2) by (simp add: fieldMatches_def equalFold_def)
  have keys: "\<not> fieldMatches variant ''protocolVersion''" "variant \<noteq> ''arguments''" "variant \<noteq> ''task''"
    "\<not> fieldMatches ''name'' ''protocolVersion''" "\<not> fieldMatches ''arguments'' ''protocolVersion''" "\<not> fieldMatches ''arguments'' ''name''"
    using v folded by (auto simp: fieldMatches_def equalFold_def)
  have par: "decodeParams (Some (JObj ?ps)) = Inr (Some \<lparr>parName = decided, parProtocolVersion = []\<rparr>)"
    using keys assms(1) by (simp add: decodeParams_def structField_def decodeStruct_def decodeString_def)
  have call: "validateToolsCall (Some \<lparr>parName = decided, parProtocolVersion = []\<rparr>) (Some (JObj ?ps)) = Inr ()"
    using keys assms(3) by (simp add: validateToolsCall_def jsonObject_def jsonKey_def whenPresent_def whenSet_def)
  have num: "atoi ''1'' \<noteq> None" "trimSpace ''tools/call'' \<noteq> []" "\<not> hasPrefix ''tools/call'' ''notifications/''" by code_simp+
  have m: "mcpRequestMessage req config strict batched
      [(''jsonrpc'', JStr ''2.0''), (''id'', JNum ''1''), (''method'', JStr ''tools/call''), (''params'', JObj ?ps)] (JStr ''tools/call'') =
     Inr \<lparr>msgMethod = ''tools/call'', msgTool = decided, msgResponse = False, msgReceiveStream = False\<rparr>"
    using num par call assms(3,4) versionAllowed_validates [OF assms(5)]
    by (simp add: mcpRequestMessage_def validateEnvelope_def jsonKey_def jsonString_def decodeString_def validateMCPRequestID_def
        validateMCPMethodParams_def messageTool_def)
  show ?thesis unfolding toolCall_def mcpMessage_def using m by (simp add: jsonKey_def jsonString_def decodeString_def)
qed

text \<open>
  C29: the tool that the policy engine sees need not be the tool that the request names. For every two
  tool names, every parser and every acceptable request whose body is a call that names the first one under
  \<^verbatim>\<open>name\<close> and the second one under a later key that differs in case, the inspection answers with the
  second, so that the policy decides on it, while the body that is forwarded is unchanged and its exact
  key \<^verbatim>\<open>name\<close> has the first.\<close>

theorem mcp_tool_confusion:
  assumes "parseJSON body = Some (toolCall named variant decided args)"
    and "equalFold variant ''name''" "variant \<noteq> ''name''" "mcpToolName decided"
    and "reqBody req = Some \<lparr>bodyData = body, bodyReadErr = False, bodyCloseErr = False\<rparr>" "\<not> equalFold (reqMethod req) ''GET''"
    and "int (length body) \<le> mcpMaxBytes config" "versionAllowed req config"
  shows "\<exists>req' rb kvs ps. parseMCPMessages parseJSON config req =
       Inr ([\<lparr>msgMethod = ''tools/call'', msgTool = decided, msgResponse = False, msgReceiveStream = False\<rparr>], req') \<and>
     reqBody req' = Some rb \<and> parseJSON (bodyData rb) = Some (JObj kvs) \<and> bodyData rb = body \<and>
     jsonKey kvs ''params'' = Some (JObj ps) \<and> jsonKey ps ''name'' = Some (JStr named)"
proof -
  let ?req' = "(withBody req body)\<lparr>reqTransferEncoding := [], reqHeader := hdrDel (reqHeader req) ''Transfer-Encoding''\<rparr>"
  have read: "readLimited ''mcp'' (mcpMaxBytes config) req \<lparr>bodyData = body, bodyReadErr = False, bodyCloseErr = False\<rparr> = Inr (body, ?req')"
    using assms(7) by (simp add: readLimited_def Let_def)
  have "decided \<noteq> []" using assms(4) by (auto simp: mcpToolName_def)
  then have "mcpMessage ?req' config (mcpStrict config) False (toolCall named variant decided args) =
     Inr \<lparr>msgMethod = ''tools/call'', msgTool = decided, msgResponse = False, msgReceiveStream = False\<rparr>"
    using assms(2-4,8) readLimited_headers [OF read] by (intro toolCall_message) (simp_all add: fieldMatches_def)
  then have "parseMCPMessages parseJSON config req =
     Inr ([\<lparr>msgMethod = ''tools/call'', msgTool = decided, msgResponse = False, msgReceiveStream = False\<rparr>], ?req')"
    using assms(1,5,6) read by (simp add: parseMCPMessages_def rpcItems_def toolCall_def)
  then show ?thesis using assms(1,3) by (auto simp: toolCall_def withBody_def jsonKey_def)
qed

theorem mcp_tool_confusion_witness:
  "\<exists>req' rb kvs ps. parseMCPMessages callParser None callRequest =
       Inr ([\<lparr>msgMethod = ''tools/call'', msgTool = ''safe'', msgResponse = False, msgReceiveStream = False\<rparr>], req') \<and>
     reqBody req' = Some rb \<and> callParser (bodyData rb) = Some (JObj kvs) \<and> bodyData rb = ''x'' \<and>
     jsonKey kvs ''params'' = Some (JObj ps) \<and> jsonKey ps ''name'' = Some (JStr ''danger'')"
proof -
  have "callParser ''x'' = Some (toolCall ''danger'' ''Name'' ''safe'' [])" "equalFold ''Name'' ''name''" "mcpToolName ''safe''"
    "\<not> equalFold (reqMethod callRequest) ''GET''" "int (length ''x'') \<le> mcpMaxBytes None"
    by code_simp+
  moreover have "validateMCPProtocolVersion callRequest None ''2.0'' None [] None = Inr ()" by code_simp
  then have "versionAllowed callRequest None" using validateMCPProtocolVersion_ok by blast
  ultimately show ?thesis
    by (intro mcp_tool_confusion [where variant = "''Name''" and args = "[]"]) (simp_all add: callRequest_def)
qed

end
