(* ===== verification/HTTP_Exchange.thy ===== *)
theory HTTP_Exchange
  imports Ssrf Mcp GraphQL Middleware Server_Policy
begin

text \<open>
  The path of a request through the proxy: \<^verbatim>\<open>decideHTTP\<close>, \<^verbatim>\<open>serveHTTP\<close> and \<^verbatim>\<open>handleAbsoluteHTTP\<close> of \<^verbatim>\<open>proxy/proxy.go\<close>,
  the request part of \<^verbatim>\<open>mitmHTTPS\<close> of \<^verbatim>\<open>proxy/terminate.go\<close>, and the token grants of \<^verbatim>\<open>proxy/token_grant.go\<close>. The
  policy engine is an argument; its rules are records of the fields and methods that the proxy reads.
\<close>

section \<open>Policy decisions\<close>

record endpoint_rule =
  ruleProtocol :: string
  ruleNeedsL7 :: bool
  ruleAllowEncodedSlash :: bool
  ruleCredentialKeys :: "string list"
  ruleAllowUninspectedCredentials :: bool
  ruleMCP :: "mcp_config option"
  ruleJSONRPC :: "int option option"
  ruleGraphQLMaxBody :: "int option"
  ruleBodyRewrite :: bool
  ruleTLS :: string

record matched_rule =
  mRule :: endpoint_rule
  mAllowedIPs :: "string list"

record eng_decision =
  EngAllow :: bool
  EngReason :: string
  EngAudit :: bool
  EngMatched :: "matched_rule option"

record http_query =
  qHost :: string
  qPort :: int
  qMethod :: string
  qPath :: string
  qBinary :: string
  qQuery :: query_map
  qGraphQL :: "graphql_operation option"

text \<open>The engine, with the protocol names of the policy package.\<close>

record policy_engine =
  ProtocolMCP :: string
  ProtocolJSONRPC :: string
  ProtocolGraphQL :: string
  ProtocolSQL :: string
  TLSTerminate :: string
  TLSPassthrough :: string
  Decide :: "string \<Rightarrow> int \<Rightarrow> string \<Rightarrow> string + eng_decision"
  DecideHTTP :: "http_query \<Rightarrow> string + eng_decision"

definition deniedBy :: "matched_rule option \<Rightarrow> string \<Rightarrow> eng_decision" where
  "deniedBy m reason = \<lparr>EngAllow = False, EngReason = reason, EngAudit = False, EngMatched = m\<rparr>"

definition blocksUninspectedCredentials :: "endpoint_rule \<Rightarrow> bool" where
  "blocksUninspectedCredentials rule \<longleftrightarrow>
     ruleCredentialKeys rule \<noteq> [] \<and> \<not> ruleNeedsL7 rule \<and> \<not> ruleAllowUninspectedCredentials rule"

definition isMCPRule :: "policy_engine \<Rightarrow> endpoint_rule \<Rightarrow> bool" where
  "isMCPRule pe rule = equalFold (trimSpace (ruleProtocol rule)) (ProtocolMCP pe)"

text \<open>The members of a batch, each decided on its own; the first refusal is the result.\<close>

fun decideAll ::
    "policy_engine \<Rightarrow> http_query list \<Rightarrow> bool \<Rightarrow> string \<Rightarrow> matched_rule option \<Rightarrow> string + eng_decision" where
  "decideAll pe [] audit reason m = Inr \<lparr>EngAllow = True, EngReason = reason, EngAudit = audit, EngMatched = m\<rparr>"
| "decideAll pe (q # qs) audit reason m =
     (case DecideHTTP pe q of
        Inl err \<Rightarrow> Inl err
      | Inr d \<Rightarrow> if \<not> EngAllow d then Inr d else decideAll pe qs (audit \<or> EngAudit d) reason m)"

text \<open>What the request line and its URL say besides the path: \<^verbatim>\<open>RequestURI\<close>, \<^verbatim>\<open>IsAbs\<close> and the fragment.\<close>

record request_target =
  requestURI :: string
  urlIsAbs :: bool
  urlFragment :: string

definition rawQueryOf :: "http_request \<Rightarrow> string" where
  "rawQueryOf r = (case reqURL r of Some u \<Rightarrow> RawQuery u | None \<Rightarrow> [])"

definition withPath :: "http_request \<Rightarrow> string \<Rightarrow> string \<Rightarrow> http_request" where
  "withPath r decoded canonical = r\<lparr>reqURL := map_option (\<lambda>u. u\<lparr>Path := decoded, RawPath := canonical\<rparr>) (reqURL r)\<rparr>"

definition mcpConfigOf :: "endpoint_rule \<Rightarrow> mcp_config option" where
  "mcpConfigOf rule =
     (case ruleMCP rule of
        Some c \<Rightarrow> Some c
      | None \<Rightarrow> (case ruleJSONRPC rule of
          Some (Some n) \<Rightarrow> Some \<lparr>mcpMaxBodyBytes = n, mcpStrictToolNames = None, mcpVersions = None\<rparr>
        | _ \<Rightarrow> None))"

text \<open>
  The inspected part of a decision, by the protocol of the rule. \<open>mk\<close> builds the query for a method, a
  path and an operation.
\<close>

definition decideProtocol ::
    "json_parser \<Rightarrow> policy_engine \<Rightarrow> (string \<Rightarrow> string \<Rightarrow> graphql_operation option \<Rightarrow> http_query) \<Rightarrow> matched_rule option \<Rightarrow>
       http_request \<Rightarrow> string \<Rightarrow> (string + eng_decision) \<times> http_request" where
  "decideProtocol parseJSON pe mk m r pathOnly =
     (case m of
        None \<Rightarrow> (DecideHTTP pe (mk (reqMethod r) pathOnly None), r)
      | Some mr \<Rightarrow>
          (let rule = mRule mr; protocol = trimSpace (ruleProtocol rule) in
           if isMCPRule pe rule then
             (case parseMCPMessages parseJSON (mcpConfigOf rule) r of
                 Inl err \<Rightarrow> (Inr (deniedBy m err), r)
               | Inr (messages, r') \<Rightarrow>
                   (decideAll pe (map (\<lambda>msg. mk (msgMethod msg) (mcpDecidePath pathOnly (msgTool msg)) None)
                      (filter (\<lambda>msg. \<not> msgResponse msg \<and> \<not> msgReceiveStream msg) messages)) False ''all MCP messages allowed'' m, r'))
           else if equalFold protocol (ProtocolJSONRPC pe) then
             (case parseJSONRPCRequest parseJSON (case ruleJSONRPC rule of Some n \<Rightarrow> n | None \<Rightarrow> None) r of
                Inl err \<Rightarrow> (Inr (deniedBy m err), r)
              | Inr (methods, r') \<Rightarrow>
                  (decideAll pe (map (\<lambda>meth. mk meth pathOnly None) methods) False ''all JSON-RPC methods allowed'' m, r'))
           else if equalFold protocol (ProtocolGraphQL pe) then
             (case parseGraphQLRequest parseJSON r (ruleGraphQLMaxBody rule) of
                Inl err \<Rightarrow> (Inr (deniedBy m (gqlErrorMsg err)), r)
              | Inr (ops, r') \<Rightarrow>
                  (decideAll pe (map (\<lambda>op. mk (reqMethod r) pathOnly (Some op)) ops) False ''all GraphQL operations allowed'' m, r'))
           else (DecideHTTP pe (mk (reqMethod r) pathOnly None), r)))"

fun queryErrorMsg :: "query_error \<Rightarrow> string" where
  "queryErrorMsg QueryBadEscape = ''invalid percent encoding''"
| "queryErrorMsg QueryNotUTF8 = ''component is not valid UTF-8''"

definition decideHTTP ::
    "json_parser \<Rightarrow> policy_engine \<Rightarrow> request_target \<Rightarrow> http_request \<Rightarrow> string \<Rightarrow> int \<Rightarrow> string \<Rightarrow> string \<Rightarrow>
       (string + eng_decision) \<times> http_request" where
  "decideHTTP parseJSON pe target r host p pathOnly bin =
     (let mk = (\<lambda>query meth path op. \<lparr>qHost = host, qPort = p, qMethod = meth, qPath = path, qBinary = bin, qQuery = query, qGraphQL = op\<rparr>) in
      case Decide pe host p bin of
        Inl err \<Rightarrow> (Inl err, r)
      | Inr l4 \<Rightarrow>
          if \<not> EngAllow l4 then (Inr l4, r)
          else (case EngMatched l4 of
            None \<Rightarrow> decideProtocol parseJSON pe (mk Map.empty) None r pathOnly
          | Some m \<Rightarrow>
              if blocksUninspectedCredentials (mRule m)
              then (Inr (deniedBy (Some m) ''credentialed endpoint requires L7 inspection; set allow_uninspected_credentials: true to opt in''), r)
              else if \<not> ruleNeedsL7 (mRule m) then decideProtocol parseJSON pe (mk Map.empty) (Some m) r pathOnly
              else if urlFragment target \<noteq> [] \<or> contains (requestURI target) ''#''
              then (Inr (deniedBy (Some m) ''http path: request target contains a fragment''), r)
              else
                (case canonicalizeL7Path (requestTargetPath (requestURI target) (urlIsAbs target) pathOnly) (ruleAllowEncodedSlash (mRule m)) of
                   Inl err \<Rightarrow> (Inr (deniedBy (Some m) (''http path: '' @ pathErrorMsg err)), r)
                 | Inr canonical \<Rightarrow>
                     (case pathUnescape canonical of
                        None \<Rightarrow> (Inl ''canonical path'', r)
                      | Some decoded \<Rightarrow>
                          (let r1 = withPath r decoded canonical in
                           (case parsePolicyQuery (rawQueryOf r1) of
                              Inl err \<Rightarrow> (Inr (deniedBy (Some m) (''http query: '' @ queryErrorMsg err)), r1)
                            | Inr query \<Rightarrow> decideProtocol parseJSON pe (mk query) (Some m) r1 canonical))))))"

section \<open>Token grants\<close>

text \<open>
  The dynamic credentials of the server: grants by key, and the resolver, absent until installed. The
  resolver exchanges a grant for a target and fails or returns a token.
\<close>

record 'g token_grants =
  grants :: "string \<rightharpoonup> 'g"
  grantsEmpty :: bool
  resolver :: "('g \<Rightarrow> string \<Rightarrow> int \<Rightarrow> string \<Rightarrow> string + string) option"

definition SetTokenGrants :: "(string \<times> 'g) list \<Rightarrow> 'g token_grants \<Rightarrow> 'g token_grants" where
  "SetTokenGrants gs tg = tg\<lparr>grants := map_of gs, grantsEmpty := (gs = [])\<rparr>"

definition SetTokenGrantResolver ::
    "('g \<Rightarrow> string \<Rightarrow> int \<Rightarrow> string \<Rightarrow> string + string) option \<Rightarrow> 'g token_grants \<Rightarrow> 'g token_grants" where
  "SetTokenGrantResolver f tg = tg\<lparr>resolver := f\<rparr>"

text \<open>\<open>parseGrants\<close> is \<^verbatim>\<open>json.Unmarshal\<close> into the map of grants.\<close>

fun loadTokenGrantsFromEnviron :: "(string \<Rightarrow> (string \<times> 'g) list option) \<Rightarrow> string list \<Rightarrow> (string \<times> 'g) list option" where
  "loadTokenGrantsFromEnviron parseGrants [] = None"
| "loadTokenGrantsFromEnviron parseGrants (entry # rest) =
     (case cutByte entry (CHR ''='') of
        (key, raw, ok) \<Rightarrow>
          if \<not> ok \<or> key \<noteq> ''CAUTEUM_TOKEN_GRANTS'' \<or> trimSpace raw = [] then loadTokenGrantsFromEnviron parseGrants rest
          else parseGrants raw)"

datatype grant_error =
    ResolverUnavailable
  | GrantNotBound string
  | GrantFailed string
  | GrantEmptyToken

fun resolveKeys ::
    "'g token_grants \<Rightarrow> ('g \<Rightarrow> string \<Rightarrow> int \<Rightarrow> string \<Rightarrow> string + string) \<Rightarrow> string \<Rightarrow> int \<Rightarrow> string \<Rightarrow> string list \<Rightarrow>
       string list \<Rightarrow> secret_store \<Rightarrow> grant_error + secret_store" where
  "resolveKeys tg f host p path bound [] store = Inr store"
| "resolveKeys tg f host p path bound (key # used) store =
     (case grants tg key of
        None \<Rightarrow> resolveKeys tg f host p path bound used store
      | Some grant \<Rightarrow>
          if key \<notin> set bound then Inl (GrantNotBound key)
          else (case f grant host p path of
            Inl _ \<Rightarrow> Inl (GrantFailed key)
          | Inr v \<Rightarrow> if trimSpace v = [] then Inl GrantEmptyToken
              else resolveKeys tg f host p path bound used (store(key \<mapsto> v))))"

definition resolveTokenGrantKeys ::
    "'g token_grants \<Rightarrow> string \<Rightarrow> int \<Rightarrow> string \<Rightarrow> string list \<Rightarrow> string list \<Rightarrow> secret_store \<Rightarrow> grant_error + secret_store" where
  "resolveTokenGrantKeys tg host p path used bound secrets =
     (if used = [] \<or> grantsEmpty tg then Inr secrets
      else (case resolver tg of
        None \<Rightarrow> Inl ResolverUnavailable
      | Some f \<Rightarrow> resolveKeys tg f host p path bound used secrets))"

definition resolveTokenGrantPlaceholders ::
    "env_pkg \<Rightarrow> 'g token_grants \<Rightarrow> string \<Rightarrow> int \<Rightarrow> string \<Rightarrow> http_request \<Rightarrow> string list \<Rightarrow> secret_store \<Rightarrow>
       (grant_error + secret_store) option" where
  "resolveTokenGrantPlaceholders env tg host p path req bound secrets =
     map_option (\<lambda>used. resolveTokenGrantKeys tg host p path used bound secrets) (PlaceholderKeysInRequest env req)"

section \<open>From the decision to the outgoing request\<close>

text \<open>
  What a request needs from the server: the packages that it calls, the pipeline, the secrets and the
  grants.
\<close>

record ('s, 'g) exchange_env =
  xJSON :: json_parser
  xEnv :: env_pkg
  xMediaType :: "string \<Rightarrow> string"
  xEntries :: "(string \<rightharpoonup> string) \<Rightarrow> (string \<times> string) list"
  xEngine :: policy_engine
  xPipeline :: "'s stage list option"
  xSecrets :: secret_store
  xGrants :: "'g token_grants"

text \<open>A refusal with the body sent to the client, or the request to send upstream and the rule's addresses.\<close>

datatype exchange_outcome =
    Refuse int string
  | Forward http_request "matched_rule option"

definition auditEvent :: "string \<Rightarrow> string \<Rightarrow> int \<Rightarrow> string \<Rightarrow> bool \<Rightarrow> string \<Rightarrow> string \<Rightarrow> string \<Rightarrow> audit_event" where
  "auditEvent action host p reason allow meth path bin =
     \<lparr>Action = action, Host = host, Port = p, Method = meth, AuditPath = path, Binary = bin, Allow = allow, Reason = reason\<rparr>"

definition escapedOrRoot :: "http_request \<Rightarrow> string" where
  "escapedOrRoot r = (let p = (case reqURL r of Some u \<Rightarrow> escapedPath u | None \<Rightarrow> []) in if p = [] then ''/'' else p)"

definition rewriteCredentials ::
    "('s, 'g) exchange_env \<Rightarrow> matched_rule option \<Rightarrow> string \<Rightarrow> int \<Rightarrow> string \<Rightarrow> string \<Rightarrow> http_request \<Rightarrow>
       (exchange_outcome \<times> audit_event list) option" where
  "rewriteCredentials x m host p pathOnly bin r =
     (let bound = (case m of Some mr \<Rightarrow> ruleCredentialKeys (mRule mr) | None \<Rightarrow> []);
          rewriteBody = (case m of Some mr \<Rightarrow> ruleProtocol (mRule mr) = ''rest'' \<and> ruleBodyRewrite (mRule mr) | None \<Rightarrow> False);
          ev = (\<lambda>action reason. auditEvent action host p reason False (reqMethod r) pathOnly bin) in
      Option.bind (PlaceholderKeysInRequest (xEnv x) r) (\<lambda>used.
      Option.bind (resolveTokenGrantPlaceholders (xEnv x) (xGrants x) host p pathOnly r bound (xSecrets x)) (\<lambda>resolved.
        (case resolved of
           Inl _ \<Rightarrow> Some (Refuse 403 ''cauteum-proxy: token grant failed'', [ev ''deny'' ''token grant failed''])
         | Inr secrets \<Rightarrow>
             (case SecretsForEndpoint secrets bound used of
                Inl err \<Rightarrow>
                  Some (Refuse 403 ''cauteum-proxy: credential_endpoint_mismatch'',
                        [ev ''deny'' (secretErrorMsg (xEnv x) err), ev ''finding'' ''credential_endpoint_mismatch''])
              | Inr rewSecrets \<Rightarrow>
                  map_option (\<lambda>rewritten.
                    (case rewritten of
                       Inl err \<Rightarrow>
                         (Refuse 403 ''cauteum-proxy: credential rewrite failed'',
                          [ev ''deny'' (''credential rewrite: '' @ secretErrorMsg (xEnv x) err)])
                     | Inr out \<Rightarrow> (Forward out m, [])))
                    (RewriteHTTPRequestWithOptions (xEnv x) (xMediaType x) r rewSecrets rewriteBody))))))"

text \<open>The steps after an allowing decision; \<open>scheme\<close> is that of the listener.\<close>

definition afterAllow ::
    "('s, 'g) exchange_env \<Rightarrow> string \<Rightarrow> eng_decision \<Rightarrow> string \<Rightarrow> int \<Rightarrow> string \<Rightarrow> http_request \<Rightarrow>
       (exchange_outcome \<times> audit_event list) option" where
  "afterAllow x scheme dec host p bin r =
     (let pathOnly = escapedOrRoot r;
          audited = (if EngAudit dec then [auditEvent ''audit'' host p (EngReason dec) True (reqMethod r) pathOnly bin] else []) in
      (case runMiddleware (xEntries x) (xPipeline x) r scheme host p pathOnly of
         Inl err \<Rightarrow>
           Some (Refuse 403 ''cauteum-proxy: middleware denied'',
                 audited @ [auditEvent ''deny'' host p err False (reqMethod r) pathOnly bin])
       | Inr r' \<Rightarrow> map_option (\<lambda>(out, log). (out, audited @ log)) (rewriteCredentials x (EngMatched dec) host p pathOnly bin r')))"

text \<open>The request part of an iteration of the loop of \<^verbatim>\<open>mitmHTTPS\<close>.\<close>

definition mitmRequest ::
    "('s, 'g) exchange_env \<Rightarrow> request_target \<Rightarrow> http_request \<Rightarrow> string \<Rightarrow> int \<Rightarrow> string \<Rightarrow> (exchange_outcome \<times> audit_event list) option" where
  "mitmRequest x target r host p bin =
     (case decideHTTP (xJSON x) (xEngine x) target r host p (escapedOrRoot r) bin of
        (Inl err, r') \<Rightarrow>
          Some (Refuse 403 ''cauteum-proxy: denied'', [auditEvent ''deny'' host p err False (reqMethod r') (escapedOrRoot r') bin])
      | (Inr dec, r') \<Rightarrow>
          if \<not> EngAllow dec
          then Some (Refuse 403 ''cauteum-proxy: denied'', [auditEvent ''deny'' host p (EngReason dec) False (reqMethod r') (escapedOrRoot r') bin])
          else afterAllow x ''https'' dec host p bin r')"

text \<open>The checks of an absolute-form target: a refusal, or the port.\<close>

definition absoluteTarget :: "string \<Rightarrow> string \<Rightarrow> string \<Rightarrow> (int \<times> string) + int" where
  "absoluteTarget scheme host portStr =
     (if scheme \<noteq> [] \<and> scheme \<noteq> ''http'' then Inl (400, ''absolute-form HTTPS not supported; use CONNECT'')
      else if host = [] then Inl (400, ''missing host'')
      else (case atoi (if portStr = [] then ''80'' else portStr) of None \<Rightarrow> Inl (400, ''bad port'') | Some p \<Rightarrow> Inr p))"

text \<open>\<^verbatim>\<open>handleAbsoluteHTTP\<close> up to the dial: the URL's scheme, host name and port come with the request.\<close>

definition absoluteRequest ::
    "('s, 'g) exchange_env \<Rightarrow> request_target \<Rightarrow> string \<Rightarrow> int \<Rightarrow> http_request \<Rightarrow> string \<Rightarrow> (exchange_outcome \<times> audit_event list) option" where
  "absoluteRequest x target host p r bin =
     (case decideHTTP (xJSON x) (xEngine x) target r host p (escapedOrRoot r) bin of
        (Inl err, r') \<Rightarrow> Some (Refuse 500 ''policy error'', [auditEvent ''error'' host p err False [] [] bin])
      | (Inr dec, r') \<Rightarrow>
          if \<not> EngAllow dec
          then Some (Refuse 403 ''cauteum-proxy: denied'', [auditEvent ''deny'' host p (EngReason dec) False (reqMethod r') (escapedOrRoot r') bin])
          else afterAllow x ''http'' dec host p bin r')"

text \<open>The request as it is written upstream by \<^verbatim>\<open>handleAbsoluteHTTP\<close>: its host and the headers of the proxy hop removed.\<close>

definition absoluteUpstream :: "string \<Rightarrow> string \<Rightarrow> http_request \<Rightarrow> string \<times> http_request" where
  "absoluteUpstream host portStr r =
     (let p = (if portStr = [] then ''80'' else portStr) in
      (if p \<noteq> ''80'' then joinHostPort host p else host,
       r\<lparr>reqHeader := hdrDel (hdrDel (hdrDel (reqHeader r) ''Proxy-Connection'') ''Proxy-Authenticate'') ''Proxy-Authorization''\<rparr>))"

datatype route = Healthz | CAPem | ConnectTunnel | AbsoluteForm | MethodNotAllowed

definition serveHTTP :: "string \<Rightarrow> string \<Rightarrow> string \<Rightarrow> bool \<Rightarrow> string \<Rightarrow> route" where
  "serveHTTP meth uhost scheme isAbs path =
     (if meth = ''GET'' \<and> uhost = [] \<and> path = ''/healthz'' then Healthz
      else if meth = ''GET'' \<and> uhost = [] \<and> path = ''/ca.pem'' then CAPem
      else if meth = ''CONNECT'' then ConnectTunnel
      else if isAbs \<or> scheme \<noteq> [] then AbsoluteForm
      else MethodNotAllowed)"

section \<open>CONNECT\<close>

text \<open>
  \<^verbatim>\<open>handleCONNECT\<close>. Its surroundings answer through an input record: whether the server has an engine and a CA,
  whether the dial, the hijack and the registration of the tunnel succeed, and what peeking at the
  first two bytes of the tunnel gives. The outcome says what happens to the connection; the tunnel is
  registered from the registration on and released when the outcome closes it. Any outcome without a
  tunnel leaves the backend closed; \<open>CloseBackend\<close> also answers nothing to the client.
\<close>

datatype hijack_result = HijackUnsupported | HijackFailed | Hijacked

record connect_input =
  inEngine :: "policy_engine option"
  inCA :: bool
  inInferenceLocal :: "string \<Rightarrow> bool"
  inPolicyLocal :: "string \<Rightarrow> bool"
  inDial :: "string list \<Rightarrow> string + unit"
  inHijack :: hijack_result
  inCurrent :: bool
  inPeek :: "string + string"

datatype connect_outcome =
    HttpError int string
  | DenyJSON int string
  | ServeInferenceLocal
  | ServePolicyLocal
  | CloseBackend
  | CloseTunnel
  | Intercept
  | RawTunnel

text \<open>Taking over the client connection for a local adapter.\<close>

definition hijackFor :: "hijack_result \<Rightarrow> connect_outcome \<Rightarrow> connect_outcome" where
  "hijackFor h out =
     (case h of HijackUnsupported \<Rightarrow> HttpError 500 ''hijack unsupported'' | HijackFailed \<Rightarrow> HttpError 500 ''hijack failed'' | Hijacked \<Rightarrow> out)"

lemma hijackFor_outcome [simp]:
  "hijackFor h ServeInferenceLocal \<noteq> Intercept" "hijackFor h ServeInferenceLocal \<noteq> RawTunnel"
  "hijackFor h ServePolicyLocal \<noteq> Intercept" "hijackFor h ServePolicyLocal \<noteq> RawTunnel"
  by (simp_all add: hijackFor_def split: hijack_result.splits)

definition tunnelStartsTLS :: "string \<Rightarrow> bool" where
  "tunnelStartsTLS pre \<longleftrightarrow> (case pre of a # b # _ \<Rightarrow> a = CHR 0x16 \<and> b = CHR 0x03 | _ \<Rightarrow> False)"

definition establishTunnel ::
    "connect_input \<Rightarrow> policy_engine \<Rightarrow> eng_decision \<Rightarrow> string \<Rightarrow> int \<Rightarrow> string \<Rightarrow> connect_outcome \<times> audit_event list" where
  "establishTunnel i pe dec host p bin =
     (let needsL7 = (case EngMatched dec of Some m \<Rightarrow> ruleNeedsL7 (mRule m) | None \<Rightarrow> False);
          tlsMode = (case EngMatched dec of Some m \<Rightarrow> toLower (trimSpace (ruleTLS (mRule m))) | None \<Rightarrow> []);
          protocol = (case EngMatched dec of Some m \<Rightarrow> toLower (trimSpace (ruleProtocol (mRule m))) | None \<Rightarrow> []);
          failed = (\<lambda>reason. auditEvent ''error'' host p reason False [] [] []);
          allowed = (\<lambda>reason. auditEvent ''allow'' host p reason True [] [] bin) in
      if needsL7 \<and> tlsMode \<noteq> ''skip'' then
        (if \<not> inCA i then (CloseTunnel, [failed ''mitm ca missing''])
         else
           (Intercept,
            [allowed (EngReason dec @ '' tls:auto'' @
               (if tlsMode = TLSTerminate pe then ''; 'tls: terminate' is deprecated; TLS termination is now automatic'' else []) @
               (if tlsMode = TLSPassthrough pe then ''; 'tls: passthrough' is deprecated; TLS termination is now automatic'' else []))]))
      else if \<not> needsL7 \<and> tlsMode \<noteq> ''skip'' \<and> protocol \<noteq> ProtocolSQL pe \<and> isl (inPeek i) then
        (CloseTunnel, [auditEvent ''error'' host p (''TLS auto-detection: '' @ projl (inPeek i)) False [] [] bin])
      else if \<not> needsL7 \<and> tlsMode \<noteq> ''skip'' \<and> protocol \<noteq> ProtocolSQL pe \<and> tunnelStartsTLS (projr (inPeek i)) then
        (if \<not> inCA i then (CloseTunnel, [auditEvent ''error'' host p ''TLS auto-detection requires MITM CA'' False [] [] bin])
         else (Intercept, [allowed (EngReason dec @ '' tls:auto-detected'')]))
      else
        (RawTunnel,
         [allowed (EngReason dec @ (if needsL7 \<and> tlsMode = ''skip'' then '' tls:skip (L7 bypass)'' else []))]))"

text \<open>The addresses that the dial may use: those of the matched rule.\<close>

definition allowedIPsOf :: "matched_rule option \<Rightarrow> string list" where
  "allowedIPsOf m = (case m of Some mr \<Rightarrow> mAllowedIPs mr | None \<Rightarrow> [])"

definition handleCONNECT ::
    "connect_input \<Rightarrow> string \<Rightarrow> (string \<times> string) option \<Rightarrow> string \<Rightarrow> connect_outcome \<times> audit_event list" where
  "handleCONNECT i reqHost split bin =
     (let (host, portStr) = (case split of Some hp \<Rightarrow> hp | None \<Rightarrow> (reqHost, ''443'')) in
      case atoi portStr of
        None \<Rightarrow> (HttpError 400 ''bad port'', [auditEvent ''reject'' reqHost 0 ''bad port'' False [] [] []])
      | Some p \<Rightarrow>
          if p \<le> 0 \<or> p > 65535
          then (HttpError 400 ''bad port'', [auditEvent ''reject'' reqHost 0 ''bad port'' False [] [] []])
          else (case inEngine i of
            None \<Rightarrow> (HttpError 503 ''proxy not configured'', [])
          | Some pe \<Rightarrow>
              if inInferenceLocal i host then (hijackFor (inHijack i) ServeInferenceLocal, [])
              else if inPolicyLocal i host then (hijackFor (inHijack i) ServePolicyLocal, [])
              else (case Decide pe host p bin of
                Inl err \<Rightarrow> (HttpError 500 ''policy error'', [auditEvent ''error'' host p err False [] [] bin])
              | Inr dec \<Rightarrow>
                  if \<not> EngAllow dec
                  then (DenyJSON 403 (EngReason dec), [auditEvent ''deny'' host p (EngReason dec) False [] [] bin])
                  else
                    (let audited = (if EngAudit dec then [auditEvent ''audit'' host p (EngReason dec) True [] [] bin] else []) in
                     if (case EngMatched dec of Some m \<Rightarrow> blocksUninspectedCredentials (mRule m) | None \<Rightarrow> False)
                     then (HttpError 403 ''cauteum-proxy: credentialed endpoint requires L7 inspection'',
                           audited @ [auditEvent ''deny'' host p ''credentialed endpoint requires L7 inspection'' False [] [] bin])
                     else (case inDial i (allowedIPsOf (EngMatched dec)) of
                       Inl err \<Rightarrow> (HttpError 502 ''dial failed'', audited @ [auditEvent ''dial_error'' host p err True [] [] []])
                     | Inr _ \<Rightarrow>
                         if inHijack i = HijackUnsupported then (HttpError 500 ''hijack unsupported'', audited)
                         else if inHijack i = HijackFailed then (CloseBackend, audited)
                         else if \<not> inCurrent i then (CloseTunnel, audited)
                         else (case establishTunnel i pe dec host p bin of (out, log) \<Rightarrow> (out, audited @ log)))))))"

section \<open>Every member is authorized on the canonical path\<close>

lemma canonical_validEncoded:
  assumes "canonicalizeL7Path raw allow = Inr c"
  shows "c \<noteq> []" "validEncodedPath c"
proof -
  obtain stack where c: "c = renderPath stack" using assms by (rule canonicalizeL7Path_Inr) blast
  show "c \<noteq> []" by (simp add: c renderPath_def)
  have "isCanonicalByte b \<Longrightarrow> b \<in> set (CHR 0x27 # ''!$&()*+,;=:@[]%'') \<or> \<not> pathShouldEscape b" for b
    by (auto simp: isCanonicalByte_def isPathPChar_def pcharPunct_def pathShouldEscape_def isUnreserved_def)
  then show "validEncodedPath c" using renderPath_alphabet by (simp add: c validEncodedPath_def list_all_iff)
qed

lemma escapedPath_canonical:
  assumes "canonicalizeL7Path raw allow = Inr c" "pathUnescape c = Some d"
  shows "escapedPath (u\<lparr>Path := d, RawPath := c\<rparr>) = c"
  using canonical_validEncoded [OF assms(1)] assms(2) by (simp add: escapedPath_def)

lemma readLimited_url: "readLimited label n r rb = Inr (body, r') \<Longrightarrow> reqURL r' = reqURL r"
  by (auto simp: readLimited_def withBody_def Let_def split: if_splits)

lemma parseMCPMessages_url: "parseMCPMessages parseJSON config r = Inr (ms, r') \<Longrightarrow> reqURL r' = reqURL r"
  by (auto simp: parseMCPMessages_def dest: readLimited_url split: if_splits option.splits)

lemma parseJSONRPCRequest_url: "parseJSONRPCRequest parseJSON n r = Inr (ms, r') \<Longrightarrow> reqURL r' = reqURL r"
  by (auto simp: parseJSONRPCRequest_def Let_def dest!: readLimited_url split: if_splits option.splits)

lemma parseGraphQLRequest_url: "parseGraphQLRequest parseJSON r n = Inr (ops, r') \<Longrightarrow> reqURL r' = reqURL r"
  by (auto simp: parseGraphQLRequest_def fixLength_def Let_def split: if_splits option.splits)

definition authorized :: "policy_engine \<Rightarrow> http_query \<Rightarrow> bool" where
  "authorized pe q \<longleftrightarrow> (case DecideHTTP pe q of Inl _ \<Rightarrow> False | Inr d \<Rightarrow> EngAllow d)"

lemma decideAll_authorized:
  "decideAll pe qs audit reason m = Inr d \<Longrightarrow> EngAllow d \<Longrightarrow> list_all (authorized pe) qs"
  by (induction qs arbitrary: audit) (auto simp: authorized_def split: sum.splits if_splits)

text \<open>
  What the policy has to allow of a request, where \<open>mk\<close> builds the query for a method, a path and an
  operation: for MCP every message but responses and the opening of a receive stream, a call of a tool
  on the path followed by a zero byte and the name of the tool; every JSON-RPC method; every GraphQL
  operation; and the request itself for other protocols.
\<close>

definition membersAuthorized ::
    "json_parser \<Rightarrow> policy_engine \<Rightarrow> (string \<Rightarrow> string \<Rightarrow> graphql_operation option \<Rightarrow> http_query) \<Rightarrow> endpoint_rule \<Rightarrow> http_request \<Rightarrow> string \<Rightarrow> bool" where
  "membersAuthorized parseJSON pe mk rule r path \<longleftrightarrow>
     (if isMCPRule pe rule then
        (\<exists>ms r'. parseMCPMessages parseJSON (mcpConfigOf rule) r = Inr (ms, r') \<and>
           (\<forall>msg \<in> set ms. msgResponse msg \<or> msgReceiveStream msg \<or>
              authorized pe (mk (msgMethod msg) (if msgTool msg = [] then path else path @ CHR 0x00 # msgTool msg) None)))
      else if equalFold (trimSpace (ruleProtocol rule)) (ProtocolJSONRPC pe) then
        (\<exists>methods r'. parseJSONRPCRequest parseJSON (case ruleJSONRPC rule of Some n \<Rightarrow> n | None \<Rightarrow> None) r = Inr (methods, r') \<and>
           (\<forall>meth \<in> set methods. authorized pe (mk meth path None)))
      else if equalFold (trimSpace (ruleProtocol rule)) (ProtocolGraphQL pe) then
        (\<exists>ops r'. parseGraphQLRequest parseJSON r (ruleGraphQLMaxBody rule) = Inr (ops, r') \<and>
           (\<forall>op \<in> set ops. authorized pe (mk (reqMethod r) path (Some op))))
      else authorized pe (mk (reqMethod r) path None))"

lemma decideProtocol_authorized:
  assumes "decideProtocol parseJSON pe mk (Some m) r path = (Inr d, r')" "EngAllow d" "path \<noteq> []"
  shows "membersAuthorized parseJSON pe mk (mRule m) r path" and "reqURL r' = reqURL r"
proof -
  note defs = decideProtocol_def membersAuthorized_def Let_def
  consider (mcp) "isMCPRule pe (mRule m)"
    | (rpc) "\<not> isMCPRule pe (mRule m)" "equalFold (trimSpace (ruleProtocol (mRule m))) (ProtocolJSONRPC pe)"
    | (gql) "\<not> isMCPRule pe (mRule m)" "\<not> equalFold (trimSpace (ruleProtocol (mRule m))) (ProtocolJSONRPC pe)"
        "equalFold (trimSpace (ruleProtocol (mRule m))) (ProtocolGraphQL pe)"
    | (plain) "\<not> isMCPRule pe (mRule m)" "\<not> equalFold (trimSpace (ruleProtocol (mRule m))) (ProtocolJSONRPC pe)"
        "\<not> equalFold (trimSpace (ruleProtocol (mRule m))) (ProtocolGraphQL pe)"
    by blast
  then have "membersAuthorized parseJSON pe mk (mRule m) r path \<and> reqURL r' = reqURL r"
  proof cases
    case mcp
    have "mcpDecidePath path t = (if t = [] then path else path @ CHR 0x00 # t)" for t
      using assms(3) by (simp add: mcpDecidePath_def)
    with mcp show ?thesis
      using assms by (cases "parseMCPMessages parseJSON (mcpConfigOf (mRule m)) r")
        (auto simp: defs deniedBy_def list_all_iff dest: parseMCPMessages_url dest!: decideAll_authorized split del: if_split)
  next
    case rpc
    then show ?thesis
      using assms by (cases "parseJSONRPCRequest parseJSON (case ruleJSONRPC (mRule m) of Some n \<Rightarrow> n | None \<Rightarrow> None) r")
        (auto simp: defs deniedBy_def list_all_iff dest: parseJSONRPCRequest_url dest!: decideAll_authorized)
  next
    case gql
    then show ?thesis
      using assms by (cases "parseGraphQLRequest parseJSON r (ruleGraphQLMaxBody (mRule m))")
        (auto simp: defs deniedBy_def list_all_iff dest: parseGraphQLRequest_url dest!: decideAll_authorized)
  next
    case plain
    then show ?thesis using assms by (auto simp: defs authorized_def)
  qed
  then show "membersAuthorized parseJSON pe mk (mRule m) r path" "reqURL r' = reqURL r" by auto
qed

lemma rewriteCredentials_Forward:
  assumes "rewriteCredentials x m host p path bin r = Some (Forward out m', log)"
  shows "m' = m \<and> (\<exists>store. dom store \<subseteq> set (case m of Some mr \<Rightarrow> ruleCredentialKeys (mRule mr) | None \<Rightarrow> []) \<and>
     RewriteHTTPRequestWithOptions (xEnv x) (xMediaType x) r store
       (case m of Some mr \<Rightarrow> ruleProtocol (mRule mr) = ''rest'' \<and> ruleBodyRewrite (mRule mr) | None \<Rightarrow> False) = Some (Inr out))"
proof -
  let ?bound = "case m of Some mr \<Rightarrow> ruleCredentialKeys (mRule mr) | None \<Rightarrow> []"
  obtain used resolved where u: "PlaceholderKeysInRequest (xEnv x) r = Some used"
    and g: "resolveTokenGrantPlaceholders (xEnv x) (xGrants x) host p path r ?bound (xSecrets x) = Some resolved"
    using assms by (auto simp: rewriteCredentials_def Let_def bind_eq_Some_conv)
  obtain secrets where sec: "resolved = Inr secrets"
    using assms u g by (cases resolved) (auto simp: rewriteCredentials_def Let_def)
  obtain store where store: "SecretsForEndpoint secrets ?bound used = Inr store"
    using assms u g sec by (cases "SecretsForEndpoint secrets ?bound used") (auto simp: rewriteCredentials_def Let_def)
  then have "dom store \<subseteq> set ?bound" by (auto simp: SecretsForEndpoint_Inr)
  moreover obtain z where z: "RewriteHTTPRequestWithOptions (xEnv x) (xMediaType x) r store
      (case m of Some mr \<Rightarrow> ruleProtocol (mRule mr) = ''rest'' \<and> ruleBodyRewrite (mRule mr) | None \<Rightarrow> False) = Some z"
    using assms u g sec store by (auto simp: rewriteCredentials_def Let_def)
  moreover have "m' = m \<and> z = Inr out"
    using assms u g sec store z by (cases z) (simp_all add: rewriteCredentials_def Let_def)
  ultimately show ?thesis by blast
qed

text \<open>A tunnel that is established, whichever way it is then relayed.\<close>

lemma handleCONNECT_established:
  assumes "handleCONNECT i reqHost split bin = (out, log)" "out = Intercept \<or> out = RawTunnel"
  obtains pe host portStr p dec log' where
    "(case split of Some hp \<Rightarrow> hp | None \<Rightarrow> (reqHost, ''443'')) = (host, portStr)" "atoi portStr = Some p" "0 < p" "p \<le> 65535"
    "inEngine i = Some pe" "Decide pe host p bin = Inr dec" "EngAllow dec"
    "\<not> (case EngMatched dec of Some m \<Rightarrow> blocksUninspectedCredentials (mRule m) | None \<Rightarrow> False)"
    "inDial i (allowedIPsOf (EngMatched dec)) = Inr ()" "inCurrent i" "establishTunnel i pe dec host p bin = (out, log')"
proof -
  obtain host portStr where hp: "(case split of Some hp \<Rightarrow> hp | None \<Rightarrow> (reqHost, ''443'')) = (host, portStr)" by fastforce
  note unf = assms(1) [unfolded handleCONNECT_def Let_def hp prod.case]
  obtain p where p: "atoi portStr = Some p" "0 < p" "p \<le> 65535"
    using unf assms(2) by (auto split: option.splits if_splits)
  obtain pe where pe: "inEngine i = Some pe" "\<not> inInferenceLocal i host" "\<not> inPolicyLocal i host"
    using unf p assms(2) by (auto split: option.splits if_splits)
  obtain dec where dec: "Decide pe host p bin = Inr dec" "EngAllow dec"
    using unf p pe assms(2) by (auto split: sum.splits if_splits)
  have blk: "\<not> (case EngMatched dec of Some m \<Rightarrow> blocksUninspectedCredentials (mRule m) | None \<Rightarrow> False)"
    using unf p pe dec assms(2) by (auto split: if_splits)
  have "inDial i (allowedIPsOf (EngMatched dec)) = Inr ()" "inCurrent i" "\<exists>log'. establishTunnel i pe dec host p bin = (out, log')"
    using unf p pe dec blk assms(2) by (auto split: sum.splits if_splits prod.splits)
  then show thesis using that hp p pe dec blk by blast
qed

section \<open>Properties\<close>

text \<open>
  C5: bytes of a CONNECT tunnel are relayed without inspection only if the engine allowed the
  destination, the rule does not need inspection or skips TLS, the endpoint's credentials may go
  uninspected, and the first bytes are not a TLS record unless the rule skips TLS or is for SQL.\<close>

theorem raw_tunnel_only:
  assumes "handleCONNECT i reqHost split bin = (RawTunnel, log)"
  shows "\<exists>pe host p dec. inEngine i = Some pe \<and> 0 < p \<and> p \<le> 65535 \<and> Decide pe host p bin = Inr dec \<and> EngAllow dec \<and>
     inCurrent i \<and> inDial i (allowedIPsOf (EngMatched dec)) = Inr () \<and>
     (case EngMatched dec of
        None \<Rightarrow> True
      | Some m \<Rightarrow>
          \<not> blocksUninspectedCredentials (mRule m) \<and> (\<not> ruleNeedsL7 (mRule m) \<or> toLower (trimSpace (ruleTLS (mRule m))) = ''skip'')) \<and>
     ((\<exists>pre. inPeek i = Inr pre \<and> \<not> tunnelStartsTLS pre) \<or>
      (\<exists>m. EngMatched dec = Some m \<and>
        (toLower (trimSpace (ruleTLS (mRule m))) = ''skip'' \<or> toLower (trimSpace (ruleProtocol (mRule m))) = ProtocolSQL pe)) \<or>
      ProtocolSQL pe = [])"
proof -
  obtain pe host portStr p dec log' where
    "(case split of Some hp \<Rightarrow> hp | None \<Rightarrow> (reqHost, ''443'')) = (host, portStr)" "atoi portStr = Some p" "0 < p" "p \<le> 65535"
    "inEngine i = Some pe" "Decide pe host p bin = Inr dec" "EngAllow dec"
    "\<not> (case EngMatched dec of Some m \<Rightarrow> blocksUninspectedCredentials (mRule m) | None \<Rightarrow> False)"
    "inDial i (allowedIPsOf (EngMatched dec)) = Inr ()" "inCurrent i" "establishTunnel i pe dec host p bin = (RawTunnel, log')"
    by (rule handleCONNECT_established [OF assms disjI2 [OF refl]])
  then show ?thesis
    by (intro exI [of _ pe] exI [of _ host] exI [of _ p] exI [of _ dec]; cases "inPeek i")
      (auto simp: establishTunnel_def Let_def split: option.splits if_splits)
qed

definition sampleConnect :: connect_input where
  "sampleConnect =
     \<lparr>inEngine = Some
        \<lparr>ProtocolMCP = ''mcp'', ProtocolJSONRPC = ''json-rpc'', ProtocolGraphQL = ''graphql'', ProtocolSQL = ''sql'',
         TLSTerminate = ''terminate'', TLSPassthrough = ''passthrough'',
         Decide = (\<lambda>h p b. Inr \<lparr>EngAllow = (h = ''db''), EngReason = [], EngAudit = False, EngMatched = None\<rparr>),
         DecideHTTP = (\<lambda>q. Inl ''none'')\<rparr>,
      inCA = True, inInferenceLocal = (\<lambda>_. False), inPolicyLocal = (\<lambda>_. False), inDial = (\<lambda>_. Inr ()), inHijack = Hijacked,
      inCurrent = True, inPeek = Inr ''SSH''\<rparr>"

theorem raw_tunnel_only_witness:
  "fst (handleCONNECT sampleConnect ''db:22'' (Some (''db'', ''22'')) []) = RawTunnel \<and> inCurrent sampleConnect"
proof -
  have f: "fst (handleCONNECT sampleConnect ''db:22'' (Some (''db'', ''22'')) []) = RawTunnel" by code_simp
  have "handleCONNECT sampleConnect ''db:22'' (Some (''db'', ''22'')) [] =
      (RawTunnel, snd (handleCONNECT sampleConnect ''db:22'' (Some (''db'', ''22'')) []))"
    by (rule prod_eqI) (simp_all only: f fst_conv snd_conv)
  from raw_tunnel_only [OF this] have "inCurrent sampleConnect" by blast
  with f show ?thesis ..
qed

text \<open>
  C3: if a request to an inspected endpoint is allowed, the path of the request as it leaves the decision
  is the canonical form of its target, its query is the one it came with, and the engine allowed for that
  path and the parsed query every JSON-RPC method, every GraphQL operation, every MCP message other than
  a response or the opening of a receive stream, and the request itself for other protocols; a call of
  an MCP tool is decided on the path followed by a zero byte and the name of the tool. What is done to
  the request after the decision, the middleware and the credentials in its path, is not part of this.\<close>

theorem allowed_members_authorized:
  assumes "decideHTTP parseJSON pe target r host p pathOnly bin = (Inr d, r')" "EngAllow d"
    and "Decide pe host p bin = Inr l4" "EngMatched l4 = Some m" "ruleNeedsL7 (mRule m)" "reqURL r = Some u"
  shows "\<exists>canonical decoded query u'.
     canonicalizeL7Path (requestTargetPath (requestURI target) (urlIsAbs target) pathOnly) (ruleAllowEncodedSlash (mRule m)) = Inr canonical \<and>
     parsePolicyQuery (RawQuery u) = Inr query \<and>
     reqURL r' = Some u' \<and> escapedPath u' = canonical \<and> RawQuery u' = RawQuery u \<and>
     membersAuthorized parseJSON pe
       (\<lambda>meth path op. \<lparr>qHost = host, qPort = p, qMethod = meth, qPath = path, qBinary = bin, qQuery = query, qGraphQL = op\<rparr>)
       (mRule m) (withPath r decoded canonical) canonical"
proof -
  let ?t = "requestTargetPath (requestURI target) (urlIsAbs target) pathOnly"
  have l4: "EngAllow l4" "\<not> blocksUninspectedCredentials (mRule m)"
    using assms by (auto simp: decideHTTP_def Let_def deniedBy_def split: if_splits)
  have frag: "\<not> (urlFragment target \<noteq> [] \<or> contains (requestURI target) ''#'')"
    using assms l4 by (auto simp: decideHTTP_def Let_def deniedBy_def split: if_splits)
  note unf = assms(1) [unfolded decideHTTP_def Let_def assms(3,4) sum.case option.case, simplified l4 assms(5), simplified, unfolded if_not_P [OF frag]]
  obtain canonical where c: "canonicalizeL7Path ?t (ruleAllowEncodedSlash (mRule m)) = Inr canonical"
    using unf assms(2) frag by (cases "canonicalizeL7Path ?t (ruleAllowEncodedSlash (mRule m))") (auto simp: deniedBy_def)
  obtain decoded where dec: "pathUnescape canonical = Some decoded"
    using unf c frag by (cases "pathUnescape canonical") auto
  obtain query where q: "parsePolicyQuery (RawQuery u) = Inr query"
    using unf c dec frag assms(2,6) by (cases "parsePolicyQuery (RawQuery u)") (auto simp: deniedBy_def rawQueryOf_def withPath_def)
  have run: "decideProtocol parseJSON pe
      (\<lambda>meth path op. \<lparr>qHost = host, qPort = p, qMethod = meth, qPath = path, qBinary = bin, qQuery = query, qGraphQL = op\<rparr>)
      (Some m) (withPath r decoded canonical) canonical = (Inr d, r')"
    using unf c dec q frag assms(6) by (simp add: rawQueryOf_def withPath_def)
  have "reqURL r' = Some (u\<lparr>Path := decoded, RawPath := canonical\<rparr>)"
    using decideProtocol_authorized(2) [OF run assms(2) canonical_validEncoded(1) [OF c]] assms(6) by (simp add: withPath_def)
  moreover have "escapedPath (u\<lparr>Path := decoded, RawPath := canonical\<rparr>) = canonical" by (rule escapedPath_canonical [OF c dec])
  ultimately show ?thesis using c q decideProtocol_authorized(1) [OF run assms(2) canonical_validEncoded(1) [OF c]] by force
qed

definition sampleRule :: endpoint_rule where
  "sampleRule = \<lparr>ruleProtocol = ''rest'', ruleNeedsL7 = True, ruleAllowEncodedSlash = False, ruleCredentialKeys = [''KEY''],
     ruleAllowUninspectedCredentials = False, ruleMCP = None, ruleJSONRPC = None, ruleGraphQLMaxBody = None, ruleBodyRewrite = False, ruleTLS = []\<rparr>"

definition sampleEngine :: policy_engine where
  "sampleEngine =
     \<lparr>ProtocolMCP = ''mcp'', ProtocolJSONRPC = ''json-rpc'', ProtocolGraphQL = ''graphql'', ProtocolSQL = ''sql'',
      TLSTerminate = ''terminate'', TLSPassthrough = ''passthrough'',
      Decide = (\<lambda>h p b. Inr \<lparr>EngAllow = True, EngReason = [], EngAudit = False, EngMatched = Some \<lparr>mRule = sampleRule, mAllowedIPs = []\<rparr>\<rparr>),
      DecideHTTP = (\<lambda>q. Inr \<lparr>EngAllow = (qPath q = ''/b''), EngReason = [], EngAudit = False,
        EngMatched = Some \<lparr>mRule = sampleRule, mAllowedIPs = []\<rparr>\<rparr>)\<rparr>"

definition sampleGet :: http_request where
  "sampleGet = \<lparr>reqMethod = ''GET'', reqURL = Some \<lparr>Path = ''/a/../b'', RawPath = [], RawQuery = []\<rparr>, reqHeader = [],
     reqBody = None, reqContentLength = 0, reqTransferEncoding = []\<rparr>"

definition sampleTarget :: request_target where
  "sampleTarget = \<lparr>requestURI = ''/a/../b'', urlIsAbs = False, urlFragment = []\<rparr>"

lemma sample_decided:
  "decideHTTP (\<lambda>_. None) sampleEngine sampleTarget sampleGet ''h'' 443 ''/a/../b'' [] =
     (Inr \<lparr>EngAllow = True, EngReason = [], EngAudit = False, EngMatched = Some \<lparr>mRule = sampleRule, mAllowedIPs = []\<rparr>\<rparr>,
      sampleGet\<lparr>reqURL := Some \<lparr>Path = ''/b'', RawPath = ''/b'', RawQuery = []\<rparr>\<rparr>)"
proof -
  have "canonicalizeL7Path (requestTargetPath ''/a/../b'' False ''/a/../b'') False = Inr ''/b''" "pathUnescape ''/b'' = Some ''/b''"
    "\<not> contains ''/a/../b'' ''#''" "\<not> equalFold (trimSpace ''rest'') ''mcp''" "\<not> equalFold (trimSpace ''rest'') ''json-rpc''"
    "\<not> equalFold (trimSpace ''rest'') ''graphql''"
    by code_simp+
  moreover have "\<exists>query. parsePolicyQuery [] = Inr query" by (simp add: parsePolicyQuery_def)
  ultimately show ?thesis
    by (auto simp: decideHTTP_def sampleEngine_def sampleRule_def sampleTarget_def sampleGet_def blocksUninspectedCredentials_def
        rawQueryOf_def withPath_def decideProtocol_def isMCPRule_def Let_def)
qed

theorem allowed_members_authorized_witness:
  "\<exists>u'. reqURL (snd (decideHTTP (\<lambda>_. None) sampleEngine sampleTarget sampleGet ''h'' 443 ''/a/../b'' [])) = Some u' \<and> escapedPath u' = ''/b''"
proof -
  let ?m = "\<lparr>mRule = sampleRule, mAllowedIPs = []\<rparr>"
  let ?d = "\<lparr>EngAllow = True, EngReason = [], EngAudit = False, EngMatched = Some ?m\<rparr>"
  have c: "canonicalizeL7Path (requestTargetPath (requestURI sampleTarget) (urlIsAbs sampleTarget) ''/a/../b'')
      (ruleAllowEncodedSlash (mRule ?m)) = Inr ''/b''" by code_simp
  have "EngAllow ?d" "Decide sampleEngine ''h'' 443 [] = Inr ?d" "EngMatched ?d = Some ?m" "ruleNeedsL7 (mRule ?m)"
    "reqURL sampleGet = Some \<lparr>Path = ''/a/../b'', RawPath = [], RawQuery = []\<rparr>"
    by (simp_all add: sampleEngine_def sampleGet_def sampleRule_def)
  from allowed_members_authorized [OF sample_decided this] c show ?thesis by (auto simp: sample_decided)
qed

text \<open>
  A request as it may be sent: the engine allowed it, the middleware accepted it as decided, and its
  placeholders were replaced from a store of the matched rule's keys.
\<close>

definition sentCleared ::
    "('s, 'g) exchange_env \<Rightarrow> string \<Rightarrow> request_target \<Rightarrow> string \<Rightarrow> int \<Rightarrow> string \<Rightarrow> http_request \<Rightarrow> http_request \<Rightarrow> matched_rule option \<Rightarrow> bool" where
  "sentCleared x scheme target host p bin r out m \<longleftrightarrow>
     (\<exists>dec r1 r2 store. decideHTTP (xJSON x) (xEngine x) target r host p (escapedOrRoot r) bin = (Inr dec, r1) \<and>
        EngAllow dec \<and> EngMatched dec = m \<and>
        runMiddleware (xEntries x) (xPipeline x) r1 scheme host p (escapedOrRoot r1) = Inr r2 \<and>
        dom store \<subseteq> set (case m of Some mr \<Rightarrow> ruleCredentialKeys (mRule mr) | None \<Rightarrow> []) \<and>
        RewriteHTTPRequestWithOptions (xEnv x) (xMediaType x) r2 store
          (case m of Some mr \<Rightarrow> ruleProtocol (mRule mr) = ''rest'' \<and> ruleBodyRewrite (mRule mr) | None \<Rightarrow> False) = Some (Inr out))"

lemma afterAllow_Forward:
  assumes "decideHTTP (xJSON x) (xEngine x) target r host p (escapedOrRoot r) bin = (Inr dec, r1)" "EngAllow dec"
    and "afterAllow x scheme dec host p bin r1 = Some (Forward out m, log)"
  shows "sentCleared x scheme target host p bin r out m"
proof -
  from assms(3) obtain r2 log' where mw: "runMiddleware (xEntries x) (xPipeline x) r1 scheme host p (escapedOrRoot r1) = Inr r2"
    and cred: "rewriteCredentials x (EngMatched dec) host p (escapedOrRoot r1) bin r2 = Some (Forward out m, log')"
    by (auto simp: afterAllow_def Let_def split: sum.splits)
  note rewriteCredentials_Forward [OF cred]
  then show ?thesis using assms mw unfolding sentCleared_def by blast
qed

lemma mitmRequest_Forward:
  "mitmRequest x target r host p bin = Some (Forward out m, log) \<Longrightarrow> sentCleared x ''https'' target host p bin r out m"
  by (auto simp: mitmRequest_def split: prod.splits sum.splits if_splits intro: afterAllow_Forward)

lemma absoluteRequest_Forward:
  "absoluteRequest x target host p r bin = Some (Forward out m, log) \<Longrightarrow> sentCleared x ''http'' target host p bin r out m"
  by (auto simp: absoluteRequest_def split: prod.splits sum.splits if_splits intro: afterAllow_Forward)

definition sampleExchange :: "(unit, unit) exchange_env" where
  "sampleExchange =
     \<lparr>xJSON = (\<lambda>_. None), xEnv = sampleEnv, xMediaType = (\<lambda>s. s), xEntries = (\<lambda>_. []), xEngine = sampleEngine, xPipeline = None,
      xSecrets = Map.empty, xGrants = \<lparr>grants = Map.empty, grantsEmpty = True, resolver = None\<rparr>\<rparr>"

end
