(* ===== verification/Policy_Local.thy ===== *)
theory Policy_Local
  imports Server_Policy Go_Json Go_Http
begin

text \<open>
  The audit log and the policy advisor that the sandbox talks to: \<^verbatim>\<open>proxy/audit.go\<close> and \<^verbatim>\<open>proxy/policy_local.go\<close>.
  The redaction of audit texts, the YAML and JSON encoders, the policy package and the gateway are
  arguments; time is a number of milliseconds that the caller gives. Error texts are kept without
  the parts that come from a decoder or repeat the offending host.
\<close>

section \<open>Audit lines\<close>

definition ocsfClassActivity :: "audit_event \<Rightarrow> string \<times> string" where
  "ocsfClassActivity ev =
     (if Action ev = ''reload'' then (''CONFIG'', ''LOADED'')
      else if Action ev = ''finding'' then (''FINDING'', ''CREATE'')
      else if Action ev = ''lifecycle'' then (''LIFECYCLE'', ''START'')
      else if Action ev = ''proc'' then (''PROC'', ''LAUNCH'')
      else if Action ev = ''proc_exit'' then (''PROC'', ''EXIT'')
      else if Method ev \<noteq> [] then (''HTTP'', if toUpper (Method ev) = [] \<and> Action ev \<noteq> ''reject'' then ''OTHER'' else toUpper (Method ev))
      else (''NET'', ''OPEN''))"

definition ocsfSeverity :: "audit_event \<Rightarrow> string" where
  "ocsfSeverity ev =
     (if Action ev \<in> set [''deny'', ''reject'', ''finding''] then ''MED''
      else if Action ev = ''error'' then ''HIGH''
      else if Action ev = ''dial_error'' then ''LOW''
      else if Action ev \<in> set [''audit'', ''reload'', ''lifecycle'', ''proc'', ''proc_exit''] then ''INFO''
      else if Allow ev then ''INFO'' else ''MED'')"

definition ocsfAction :: "audit_event \<Rightarrow> string" where
  "ocsfAction ev =
     (if Action ev \<in> set [''deny'', ''reject'', ''finding''] then ''DENIED''
      else if Action ev \<in> set [''allow'', ''audit'', ''proc'', ''proc_exit'', ''lifecycle''] then ''ALLOWED''
      else if Action ev = ''reload'' then ''LOADED''
      else if Action ev \<in> set [''error'', ''dial_error''] then (if Allow ev then ''FAILED'' else ''DENIED'')
      else if Allow ev then ''ALLOWED'' else ''DENIED'')"

definition hostPort :: "string \<Rightarrow> int \<Rightarrow> string" where
  "hostPort h p = h @ '':'' @ itoa p"

definition ocsfDetails :: "audit_event \<Rightarrow> string" where
  "ocsfDetails ev =
     (let bin = (if trimSpace (Binary ev) = [] then ''-'' else trimSpace (Binary ev)) in
      if Action ev = ''reload'' then (if Reason ev \<noteq> [] then Reason ev else ''policy reloaded'')
      else if Method ev \<noteq> [] \<and> AuditPath ev \<noteq> [] then
        toUpper (Method ev) @ '' '' @ (if Port ev = 443 then ''https'' else ''http'') @ ''://'' @
          (if Port ev > 0 \<and> Port ev \<noteq> 80 \<and> Port ev \<noteq> 443 then hostPort (Host ev) (Port ev) else Host ev) @ AuditPath ev
      else if Host ev \<noteq> [] then bin @ '' -> '' @ (if Port ev > 0 then hostPort (Host ev) (Port ev) else Host ev)
      else if Reason ev \<noteq> [] then Reason ev else ''-'')"

definition ocsfContext :: "audit_event \<Rightarrow> string" where
  "ocsfContext ev =
     (let parts = (if Reason ev \<noteq> [] \<and> Action ev \<noteq> ''reload'' \<and> (Host ev \<noteq> [] \<or> Method ev \<noteq> []) then [''reason:'' @ Reason ev] else []) @
                  (if Action ev = ''audit'' then [''enforcement:audit''] else []) in
      if parts = [] then [] else ''['' @ join parts '' '' @ '']'')"

text \<open>\<open>redact\<close> is \<^verbatim>\<open>slogx.RedactAuditText\<close>, \<open>ts\<close> the formatted time.\<close>

definition formatOCSF :: "(string \<Rightarrow> string) \<Rightarrow> string \<Rightarrow> audit_event \<Rightarrow> string" where
  "formatOCSF redact ts ev0 =
     (let ev = ev0\<lparr>AuditPath := redact (AuditPath ev0), Reason := redact (Reason ev0)\<rparr>;
          msg = ''OCSF '' @ fst (ocsfClassActivity ev) @ '':'' @ snd (ocsfClassActivity ev) @ '' ['' @ ocsfSeverity ev @ ''] '' @
                ocsfAction ev @ '' '' @ ocsfDetails ev @ (if ocsfContext ev \<noteq> [] then '' '' @ ocsfContext ev else []) in
      ts @ '' '' @ trimSpace msg)"

section \<open>State\<close>

record denial_line =
  dTS :: int
  dText :: string

record local_proposal =
  propID :: string
  propSandbox :: string
  propStatus :: string
  propIntent :: string
  propRuleName :: string
  propRuleYAML :: string
  propHosts :: "string list"
  propRejection :: string
  propValidation :: string
  propCreatedAt :: int
  propDecidedAt :: int
  propReloadGen :: int

text \<open>The parts of the policy document that the advisor reads: rules by host and identifier, and policy names.\<close>

record policy_view =
  viewRules :: "(string \<times> string) list"
  viewPolicies :: "string list"

record advisor =
  denials :: "denial_line list"
  proposals :: "string \<rightharpoonup> local_proposal"
  advDoc :: policy_view
  advGen :: int
  auditOn :: bool
  auditLines :: "string list"

definition policyLocalDenialsMax :: nat where
  "policyLocalDenialsMax = 100"

definition recordDenial :: "int \<Rightarrow> string \<Rightarrow> advisor \<Rightarrow> advisor" where
  "recordDenial now line s =
     (let ds = denials s @ [\<lparr>dTS = now, dText = line\<rparr>] in
      s\<lparr>denials := (if length ds > policyLocalDenialsMax then drop (length ds - policyLocalDenialsMax) ds else ds)\<rparr>)"

text \<open>Without an audit writer nothing is logged, and no denial is recorded either.\<close>

definition logAudit :: "(string \<Rightarrow> string) \<Rightarrow> (int \<Rightarrow> string) \<Rightarrow> int \<Rightarrow> audit_event \<Rightarrow> advisor \<Rightarrow> advisor" where
  "logAudit redact fmtTime now ev s =
     (let line = formatOCSF redact (fmtTime now) ev; s' = s\<lparr>auditLines := auditLines s @ [line]\<rparr> in
      if \<not> auditOn s then s
      else if Action ev = ''deny'' \<or> Action ev = ''reject'' then recordDenial now line s' else s')"

definition isPolicyLocal :: "string \<Rightarrow> bool" where
  "isPolicyLocal host = (let h = toLower (trimSpace host) in h = ''policy.local'' \<or> h = ''policy.cauteum.local'')"

section \<open>Denials\<close>

type_synonym local_response = "int \<times> json"

text \<open>\<open>lastParam\<close> is the query value \<^verbatim>\<open>last\<close>, empty when absent.\<close>

definition denialLimit :: "string \<Rightarrow> int" where
  "denialLimit lastParam =
     (let n = (case atoi lastParam of Some n \<Rightarrow> if lastParam \<noteq> [] \<and> n > 0 then n else 10 | None \<Rightarrow> 10) in
      if n > int policyLocalDenialsMax then int policyLocalDenialsMax else n)"

definition policyLocalDenials :: "string \<Rightarrow> advisor \<Rightarrow> local_response" where
  "policyLocalDenials lastParam s =
     (let n = denialLimit lastParam; den = denials s;
          den' = (if n < int (length den) then drop (nat (int (length den) - n)) den else den) in
      (200, JObj [(''denials'', JArr (map (\<lambda>d. JStr (dText d)) (rev den')))]))"

section \<open>Proposals\<close>

text \<open>What the advisor uses of the policy package: an endpoint decoded from JSON, validation and encoding of the rule.\<close>

record allow_rule =
  arHost :: string
  arPort :: int
  arPorts :: "int list"

record policy_pkg =
  decodeRule :: "json \<Rightarrow> string + allow_rule"
  validateRules :: "string \<Rightarrow> allow_rule list \<Rightarrow> string option"
  encodeRules :: "string \<Rightarrow> allow_rule list \<Rightarrow> string + string"

definition defaultPort :: "allow_rule \<Rightarrow> allow_rule" where
  "defaultPort ar = (if arPort ar = 0 \<and> arPorts ar = [] then ar\<lparr>arPort := 443\<rparr> else ar)"

definition decodeEndpoint :: "policy_pkg \<Rightarrow> string \<Rightarrow> string \<Rightarrow> json \<Rightarrow> string + allow_rule" where
  "decodeEndpoint pkg label missing ep =
     (case decodeRule pkg ep of
        Inl err \<Rightarrow> Inl (label @ err)
      | Inr ar \<Rightarrow> if arHost ar = [] then Inl missing else Inr (defaultPort ar))"

text \<open>The rule is a map, nil (\<^const>\<open>None\<close>) when absent; a nil map encodes as \<^verbatim>\<open>null\<close>.\<close>

definition normalizeAddRuleYAML :: "policy_pkg \<Rightarrow> string \<Rightarrow> (string \<times> json) list option \<Rightarrow> string + (string list \<times> string)" where
  "normalizeAddRuleYAML pkg name rule =
     (let eps = (case rule of None \<Rightarrow> None | Some kvs \<Rightarrow> jsonKey kvs ''endpoints'') in
      bindR (case eps of
               Some (JArr (e # es)) \<Rightarrow> traverseR (decodeEndpoint pkg ''endpoint: '' ''endpoint host required'') (e # es)
             | _ \<Rightarrow> mapR (\<lambda>ar. [ar]) (decodeEndpoint pkg [] ''rule.host required'' (case rule of Some kvs \<Rightarrow> JObj kvs | None \<Rightarrow> JNull)))
        (\<lambda>endpoints.
          (case validateRules pkg name endpoints of
             Some err \<Rightarrow> Inl err
           | None \<Rightarrow> mapR (\<lambda>yaml. (map arHost endpoints, yaml)) (encodeRules pkg name endpoints))))"

definition ssrfSensitive :: "string \<Rightarrow> bool" where
  "ssrfSensitive h \<longleftrightarrow> equalFold h ''metadata.google.internal'' \<or> hasPrefix h ''169.254.''"

text \<open>\<open>raw\<close> is the operation's value as re-encoded JSON; \<open>chunk\<close> the new identifier, absent when no randomness is available.\<close>

definition addRuleName :: "string \<Rightarrow> (string \<times> json) list option \<Rightarrow> string" where
  "addRuleName ruleName rule =
     (let name = trimSpace ruleName in
      if name \<noteq> [] then name
      else (case rule of
        Some kvs \<Rightarrow> (case jsonKey kvs ''name'' of Some (JStr n) \<Rightarrow> trimSpace n | _ \<Rightarrow> [])
      | None \<Rightarrow> []))"

definition proposalFromAddRule :: "policy_pkg \<Rightarrow> json \<Rightarrow> string \<Rightarrow> string option \<Rightarrow> int \<Rightarrow> string + local_proposal" where
  "proposalFromAddRule pkg raw intent chunk now =
     (case (structField ''ruleName'' decodeString [] (Some raw), structField ''rule'' decodeMap None (Some raw)) of
        (Some ruleName, Some rule) \<Rightarrow>
          (let name = addRuleName ruleName rule in
           if name = [] then Inl ''addRule.ruleName or rule.name is required''
           else
             bindR (normalizeAddRuleYAML pkg name rule) (\<lambda>(hosts, yaml).
               if list_ex ssrfSensitive hosts then Inl ''refusing SSRF-sensitive host''
               else (case chunk of
                 None \<Rightarrow> Inl ''no randomness''
               | Some cid \<Rightarrow>
                   Inr \<lparr>propID = cid, propSandbox = [], propStatus = ''pending'', propIntent = intent, propRuleName = name,
                        propRuleYAML = yaml, propHosts = hosts, propRejection = [],
                        propValidation = ''ok: narrow addRule accepted for human review'',
                        propCreatedAt = now, propDecidedAt = 0, propReloadGen = 0\<rparr>)))
      | _ \<Rightarrow> Inl ''addRule'')"

definition newChunkID :: "string \<Rightarrow> string" where
  "newChunkID bytes =
     ''chk_'' @ concat (map (\<lambda>b. [lowerHexDigit (int (byteVal b) div 16), lowerHexDigit (int (byteVal b) mod 16)]) bytes)"

text \<open>
  The gateway: the environment variables, and its answers to a posted proposal (code, status line and
  body) and to a status request (code and decoded body). \<open>Inl\<close> is an error before the request is
  sent, \<open>Inr None\<close> one of the transport.
\<close>

record gateway =
  gwURL :: string
  gwSandbox :: string
  gwPost :: "local_proposal \<Rightarrow> string + (int \<times> string \<times> string) option"
  gwGet :: "string \<Rightarrow> (int \<times> local_proposal option) option"

definition persistProposal :: "gateway \<Rightarrow> local_proposal \<Rightarrow> advisor \<Rightarrow> string option \<times> advisor" where
  "persistProposal gw p s =
     (let s' = s\<lparr>proposals := (proposals s)(propID p \<mapsto> p)\<rparr> in
      if trimSpace (gwURL gw) = [] \<or> trimSpace (gwSandbox gw) = [] then (None, s')
      else (case gwPost gw p of
        Inl err \<Rightarrow> (Some err, s')
      | Inr None \<Rightarrow> (None, s')
      | Inr (Some (code, status, body)) \<Rightarrow>
          if code \<ge> 300 then (Some (''gateway proposals: '' @ status @ '': '' @ trimSpace (take 2048 body)), s') else (None, s')))"

text \<open>One operation of a submission: an identifier, or an error.\<close>

definition submitOperation ::
    "policy_pkg \<Rightarrow> gateway \<Rightarrow> string \<Rightarrow> string option \<Rightarrow> int \<Rightarrow> (string \<times> json) list \<Rightarrow> advisor \<Rightarrow> (string + string) \<times> advisor" where
  "submitOperation pkg gw intent chunk now op s =
     (case jsonKey op ''addRule'' of
        None \<Rightarrow> (Inl ''only addRule operations are supported'', s)
      | Some raw \<Rightarrow>
          (case proposalFromAddRule pkg raw intent chunk now of
             Inl err \<Rightarrow> (Inl err, s)
           | Inr p \<Rightarrow>
               (let p' = p\<lparr>propSandbox := trimSpace (gwSandbox gw)\<rparr> in
                case persistProposal gw p' s of
                  (Some err, s') \<Rightarrow> (Inl err, s')
                | (None, s') \<Rightarrow> (Inr (propID p'), s'))))"

fun submitOperations ::
    "policy_pkg \<Rightarrow> gateway \<Rightarrow> string \<Rightarrow> int \<Rightarrow> ((string \<times> json) list \<times> string option) list \<Rightarrow> advisor \<Rightarrow> (string + string) list \<times> advisor" where
  "submitOperations pkg gw intent now [] s = ([], s)"
| "submitOperations pkg gw intent now ((op, chunk) # ops) s =
     (case submitOperation pkg gw intent chunk now op s of
        (r, s') \<Rightarrow> (case submitOperations pkg gw intent now ops s' of (rs, s'') \<Rightarrow> (r # rs, s'')))"

text \<open>
  \<open>chunk i\<close> is the identifier that the random source gives for operation \<open>i\<close>. The body decodes into
  a summary and a list of maps.
\<close>

definition policyLocalSubmit ::
    "policy_pkg \<Rightarrow> gateway \<Rightarrow> json_parser \<Rightarrow> (nat \<Rightarrow> string option) \<Rightarrow> int \<Rightarrow> string \<Rightarrow> advisor \<Rightarrow> local_response \<times> advisor" where
  "policyLocalSubmit pkg gw parseJSON chunk now body s =
     (case (structField ''intent_summary'' decodeString [] (parseJSON body),
            Option.bind (structField ''operations'' decodeRaws None (parseJSON body))
              (\<lambda>ops. case ops of None \<Rightarrow> Some [] | Some vs \<Rightarrow> jsonObjects (Some (JArr vs)))) of
        (Some intent, Some ops) \<Rightarrow>
          if ops = [] then ((400, JObj [(''error'', JStr ''proposal requires at least one operation'')]), s)
          else
            (case submitOperations pkg gw intent now (zip ops (map chunk [0..<length ops])) s of
               (rs, s') \<Rightarrow>
                 (let accepted = List.map_filter (\<lambda>r. case r of Inr i \<Rightarrow> Some (JStr i) | Inl _ \<Rightarrow> None) rs;
                      rejected = List.map_filter (\<lambda>r. case r of Inl e \<Rightarrow> Some (JObj [(''error'', JStr e)]) | Inr _ \<Rightarrow> None) rs in
                  ((if accepted = [] then 400 else 202,
                    JObj [(''accepted_chunk_ids'', if accepted = [] then JNull else JArr accepted),
                          (''rejection_reasons'', if rejected = [] then JNull else JArr rejected)]), s')))
      | _ \<Rightarrow> ((400, JObj [(''error'', JStr ''invalid json'')]), s))"

definition lookupProposal :: "string \<Rightarrow> advisor \<Rightarrow> local_proposal option" where
  "lookupProposal pid s = proposals s pid"

text \<open>The address of a status request; the identifier is taken over as it stands.\<close>

definition proposalURL :: "gateway \<Rightarrow> string \<Rightarrow> string" where
  "proposalURL gw pid =
     trimRightSet (trimSpace (gwURL gw)) ''/'' @ ''/v1/sandboxes/'' @ trimSpace (gwSandbox gw) @ ''/proposals/'' @ pid"

definition mergeRemote :: "int \<Rightarrow> local_proposal \<Rightarrow> local_proposal \<Rightarrow> local_proposal" where
  "mergeRemote gen cur remote =
     (let status = (if propStatus remote \<noteq> [] then propStatus remote else propStatus cur) in
      cur\<lparr>propStatus := status, propRejection := propRejection remote, propValidation := propValidation remote,
          propDecidedAt := (if propDecidedAt remote \<noteq> 0 then propDecidedAt remote else propDecidedAt cur),
          propReloadGen := (if status = ''approved'' \<and> propReloadGen cur = 0 then gen else propReloadGen cur)\<rparr>)"

definition refreshProposalFromGateway :: "gateway \<Rightarrow> string \<Rightarrow> advisor \<Rightarrow> advisor" where
  "refreshProposalFromGateway gw pid s =
     (if trimSpace (gwURL gw) = [] \<or> trimSpace (gwSandbox gw) = [] \<or> pid = [] then s
      else (case gwGet gw (proposalURL gw pid) of
        None \<Rightarrow> s
      | Some (status, decoded) \<Rightarrow>
          if status \<ge> 300 then s
          else (case decoded of
            None \<Rightarrow> s
          | Some remote \<Rightarrow>
              (case proposals s pid of
                 None \<Rightarrow> s\<lparr>proposals := (proposals s)(pid \<mapsto> remote\<lparr>propReloadGen := 0\<rparr>)\<rparr>
               | Some cur \<Rightarrow> s\<lparr>proposals := (proposals s)(pid \<mapsto> mergeRemote (advGen s) cur remote)\<rparr>))))"

definition policyReloaded :: "local_proposal \<Rightarrow> advisor \<Rightarrow> bool" where
  "policyReloaded p s \<longleftrightarrow>
     propStatus p = ''approved'' \<and>
     (list_ex (\<lambda>h. list_ex (\<lambda>(rh, rid). equalFold rh h \<or> rid = propRuleName p) (viewRules (advDoc s)) \<or>
                  propRuleName p \<in> set (viewPolicies (advDoc s))) (propHosts p) \<or>
      propReloadGen p > 0 \<and> advGen s > propReloadGen p)"

definition proposalStatusJSON :: "local_proposal \<Rightarrow> bool \<Rightarrow> (string \<times> json) list" where
  "proposalStatusJSON p reloaded =
     [(''id'', JStr (propID p)), (''status'', JStr (propStatus p)), (''rule_name'', JStr (propRuleName p)),
      (''intent_summary'', JStr (propIntent p)), (''validation_result'', JStr (propValidation p)),
      (''rejection_reason'', JStr (propRejection p))] @
     (if propStatus p = ''approved'' then [(''policy_reloaded'', JBool reloaded)] else [])"

definition notFound :: "string \<Rightarrow> local_response" where
  "notFound pid = (404, JObj [(''error'', JStr ''not_found''), (''id'', JStr pid)])"

definition policyLocalGet :: "string \<Rightarrow> advisor \<Rightarrow> local_response" where
  "policyLocalGet pid s =
     (case lookupProposal pid s of
        None \<Rightarrow> notFound pid
      | Some p \<Rightarrow> (200, JObj (proposalStatusJSON p (policyReloaded p s))))"

section \<open>Waiting for a decision\<close>

text \<open>
  What happens around a request: the packages, the time at which it arrives, the gateway's answers at
  each turn of the waiting loop, what other goroutines do to the state before that turn, and by how
  many milliseconds a turn takes longer than its sleep.
\<close>

record local_env =
  lePkg :: policy_pkg
  leParse :: json_parser
  leMarshal :: "json \<Rightarrow> string"
  leYAML :: "policy_view \<Rightarrow> string + string"
  leChunk :: "nat \<Rightarrow> string option"
  leNow :: int
  leGateway :: "nat \<Rightarrow> gateway"
  leOthers :: "nat \<Rightarrow> advisor \<Rightarrow> advisor"
  leSlack :: "nat \<Rightarrow> nat"

definition policyLocalWaitDefault :: int where
  "policyLocalWaitDefault = 60"

definition policyLocalWaitMin :: int where
  "policyLocalWaitMin = 1"

definition policyLocalWaitMax :: int where
  "policyLocalWaitMax = 300"

definition policyPollInterval :: int where
  "policyPollInterval = 500"

definition waitTimeout :: "string \<Rightarrow> int" where
  "waitTimeout v =
     (let timeout = (if v \<noteq> [] then (case atoi v of Some n \<Rightarrow> n | None \<Rightarrow> policyLocalWaitDefault) else policyLocalWaitDefault) in
      min policyLocalWaitMax (max policyLocalWaitMin timeout))"

definition waitRefresh :: "gateway \<Rightarrow> string \<Rightarrow> advisor \<Rightarrow> advisor" where
  "waitRefresh gw pid s =
     (case lookupProposal pid s of
        None \<Rightarrow> refreshProposalFromGateway gw pid s
      | Some p \<Rightarrow> if propStatus p = ''pending'' then refreshProposalFromGateway gw pid s else s)"

text \<open>One turn of the loop: \<open>Inl d\<close> sleeps for \<open>d\<close> milliseconds, \<open>Inr\<close> answers.\<close>

definition waitTurn :: "gateway \<Rightarrow> int \<Rightarrow> int \<Rightarrow> string \<Rightarrow> advisor \<Rightarrow> (int + local_response) \<times> advisor" where
  "waitTurn gw now deadline pid s =
     (let s' = waitRefresh gw pid s in
      (case lookupProposal pid s' of
         None \<Rightarrow> Inr (notFound pid)
       | Some p \<Rightarrow>
           if propStatus p = ''approved'' \<or> propStatus p = ''rejected'' then
             (let reloaded = policyReloaded p s' in
              if propStatus p = ''approved'' \<and> \<not> reloaded \<and> now < deadline then Inl policyPollInterval
              else Inr (200, JObj (proposalStatusJSON p reloaded)))
           else if now > deadline then Inr (200, JObj (proposalStatusJSON p False @ [(''timed_out'', JBool True)]))
           else Inl 1000, s'))"

text \<open>The loop, with the time at which it answers: a turn that sleeps takes its sleep and the slack of that turn.\<close>

fun waitLoop :: "nat \<Rightarrow> local_env \<Rightarrow> nat \<Rightarrow> int \<Rightarrow> int \<Rightarrow> string \<Rightarrow> advisor \<Rightarrow> (int \<times> local_response \<times> advisor) option" where
  "waitLoop 0 env k now deadline pid s = None"
| "waitLoop (Suc n) env k now deadline pid s =
     (case waitTurn (leGateway env k) now deadline pid (leOthers env k s) of
        (Inr r, s') \<Rightarrow> Some (now, r, s')
      | (Inl d, s') \<Rightarrow> waitLoop n env (Suc k) (now + d + int (leSlack env k)) deadline pid s')"

definition policyLocalWait :: "nat \<Rightarrow> local_env \<Rightarrow> string \<Rightarrow> string \<Rightarrow> advisor \<Rightarrow> (int \<times> local_response \<times> advisor) option" where
  "policyLocalWait fuel env timeoutParam pid s =
     waitLoop fuel env 0 (leNow env) (leNow env + waitTimeout timeoutParam * 1000) pid s"

section \<open>Requests to the advisor\<close>

definition policyLocalMaxBody :: nat where
  "policyLocalMaxBody = 64 * 1024"

definition statusText :: "int \<Rightarrow> string" where
  "statusText code =
     (if code = 200 then ''OK'' else if code = 202 then ''Accepted'' else if code = 400 then ''Bad Request''
      else if code = 404 then ''Not Found'' else if code = 500 then ''Internal Server Error'' else [])"

definition crlf :: string where
  "crlf = [CHR 0x0D, CHR 0x0A]"

definition localResponseBytes :: "string \<Rightarrow> string \<Rightarrow> string \<Rightarrow> string" where
  "localResponseBytes status ctype body =
     ''HTTP/1.1 '' @ status @ crlf @ ''Content-Type: '' @ ctype @ crlf @
     ''Content-Length: '' @ itoa (int (length body)) @ crlf @ crlf @ body"

definition writePolicyLocalJSON :: "(json \<Rightarrow> string) \<Rightarrow> local_response \<Rightarrow> string" where
  "writePolicyLocalJSON marshal r =
     localResponseBytes (itoa (fst r) @ '' '' @ statusText (fst r)) ''application/json'' (marshal (snd r))"

definition policyLocalCurrent :: "local_env \<Rightarrow> advisor \<Rightarrow> string" where
  "policyLocalCurrent env s =
     (case leYAML env (advDoc s) of
        Inl err \<Rightarrow> writePolicyLocalJSON (leMarshal env) (500, JObj [(''error'', JStr err)])
      | Inr yaml \<Rightarrow> localResponseBytes ''200 OK'' ''application/yaml'' yaml)"

record local_request =
  lrMethod :: string
  lrPath :: string
  lrQuery :: "string \<Rightarrow> string"
  lrBody :: string

definition waitTarget :: "string \<Rightarrow> string" where
  "waitTarget rest = trimSuffix (trimSuffix rest ''/wait'') ''/''"

definition servePolicyLocalRequest :: "nat \<Rightarrow> local_env \<Rightarrow> local_request \<Rightarrow> advisor \<Rightarrow> (string \<times> advisor) option" where
  "servePolicyLocalRequest fuel env req s =
     (let body = take policyLocalMaxBody (lrBody req); path = lrPath req; write = writePolicyLocalJSON (leMarshal env) in
      if lrMethod req = ''GET'' \<and> path = ''/v1/policy/current'' then Some (policyLocalCurrent env s, s)
      else if lrMethod req = ''GET'' \<and> path = ''/v1/denials'' then Some (write (policyLocalDenials (lrQuery req ''last'') s), s)
      else if lrMethod req = ''POST'' \<and> path = ''/v1/proposals'' then
        (case policyLocalSubmit (lePkg env) (leGateway env 0) (leParse env) (leChunk env) (leNow env) body s of
           (r, s') \<Rightarrow> Some (write r, s'))
      else if lrMethod req = ''GET'' \<and> hasPrefix path ''/v1/proposals/'' then
        (let rest = trimPrefix path ''/v1/proposals/'' in
         if hasSuffix rest ''/wait'' then
           map_option (\<lambda>(now, r, s'). (write r, s')) (policyLocalWait fuel env (lrQuery req ''timeout'') (waitTarget rest) s)
         else Some (write (policyLocalGet rest s), s))
      else Some (write (404, JObj [(''error'', JStr ''not_found''), (''path'', JStr path)]), s))"

text \<open>
  A CONNECT to the advisor: the answer to the client, the handshake, and the requests of the
  intercepted connection in order until one cannot be read.
\<close>

fun serveLocalRequests :: "nat \<Rightarrow> (local_env \<times> local_request) list \<Rightarrow> advisor \<Rightarrow> (string list \<times> advisor) option" where
  "serveLocalRequests fuel [] s = Some ([], s)"
| "serveLocalRequests fuel ((env, req) # reqs) s =
     (case servePolicyLocalRequest fuel env req s of
        None \<Rightarrow> None
      | Some (out, s') \<Rightarrow> map_option (\<lambda>(outs, s''). (out # outs, s'')) (serveLocalRequests fuel reqs s'))"

definition handlePolicyLocal ::
    "nat \<Rightarrow> (string \<Rightarrow> string) \<Rightarrow> (int \<Rightarrow> string) \<Rightarrow> int \<Rightarrow> string option \<Rightarrow> (local_env \<times> local_request) list \<Rightarrow> advisor \<Rightarrow> (string list \<times> advisor) option" where
  "handlePolicyLocal fuel redact fmtTime now handshakeErr reqs s =
     (let established = ''HTTP/1.1 200 Connection Established'' @ crlf @ crlf in
      case handshakeErr of
        Some err \<Rightarrow> Some ([established], logAudit redact fmtTime now ((auditOf ''error'' err False)\<lparr>Host := ''policy.local''\<rparr>) s)
      | None \<Rightarrow> map_option (\<lambda>(outs, s'). (established # outs, s')) (serveLocalRequests fuel reqs s))"

definition gatewayAuth :: "string \<Rightarrow> http_header \<Rightarrow> http_header" where
  "gatewayAuth token hs = (if trimSpace token \<noteq> [] then hdrSet hs ''Authorization'' (''Bearer '' @ trimSpace token) else hs)"

definition policyLocalAgentGuidance :: string where
  "policyLocalAgentGuidance =
     ''cauteum blocked this request with sandbox policy. If the user task still needs this network action, read /etc/cauteum/skills/policy_advisor.md, submit the narrowest proposal to http://policy.local/v1/proposals, wait for approval with policy_reloaded: true, then retry.''"

definition DenyBodyJSON :: "(json \<Rightarrow> string) \<Rightarrow> string \<Rightarrow> int \<Rightarrow> string \<Rightarrow> string" where
  "DenyBodyJSON marshal host port reason =
     marshal (JObj [(''error'', JStr ''policy_denied''), (''host'', JStr host), (''port'', JNum (itoa port)), (''detail'', JStr reason),
       (''guidance'', JStr policyLocalAgentGuidance),
       (''next_steps'', JArr (map JStr [''GET http://policy.local/v1/policy/current'',
          ''GET http://policy.local/v1/denials?last=10'', ''POST http://policy.local/v1/proposals'',
          ''GET http://policy.local/v1/proposals/{chunk_id}/wait?timeout=300'']))])"

section \<open>The denial window\<close>

text \<open>
  The specification keeps the whole history of lines that were recorded; the ring is its last hundred
  entries.
\<close>

definition lastN :: "nat \<Rightarrow> 'a list \<Rightarrow> 'a list" where
  "lastN n xs = drop (length xs - n) xs"

lemma lastN_lastN: "lastN m (lastN n xs) = lastN (min m n) xs"
  by (cases "n \<le> length xs"; cases "m \<le> n") (auto simp: lastN_def min_def)

lemma lastN_snoc_lastN: "n > 0 \<Longrightarrow> lastN n (lastN n xs @ [x]) = lastN n (xs @ [x])"
  by (cases "n \<le> length xs") (auto simp: lastN_def Suc_diff_le)

lemma lastN_all: "length xs \<le> n \<Longrightarrow> lastN n xs = xs"
  by (simp add: lastN_def)

lemma rev_lastN: "rev (lastN n xs) = take n (rev xs)"
  by (simp add: lastN_def take_rev)

lemma lastN_map: "lastN n (map f xs) = map f (lastN n xs)"
  by (simp add: lastN_def drop_map)

lemma recordDenial_ring: "denials (recordDenial now line s) = lastN 100 (denials s @ [\<lparr>dTS = now, dText = line\<rparr>])"
  by (auto simp: recordDenial_def policyLocalDenialsMax_def lastN_def Let_def)

text \<open>The lines of a sequence of audit events that a denial is recorded for, oldest first.\<close>

definition isDenial :: "audit_event \<Rightarrow> bool" where
  "isDenial ev \<longleftrightarrow> Action ev = ''deny'' \<or> Action ev = ''reject''"

definition denialHistory :: "(string \<Rightarrow> string) \<Rightarrow> (int \<Rightarrow> string) \<Rightarrow> (int \<times> audit_event) list \<Rightarrow> string list" where
  "denialHistory redact fmtTime evs =
     map (\<lambda>(now, ev). formatOCSF redact (fmtTime now) ev) (filter (\<lambda>(now, ev). isDenial ev) evs)"

fun logAll :: "(string \<Rightarrow> string) \<Rightarrow> (int \<Rightarrow> string) \<Rightarrow> (int \<times> audit_event) list \<Rightarrow> advisor \<Rightarrow> advisor" where
  "logAll redact fmtTime [] s = s"
| "logAll redact fmtTime ((now, ev) # evs) s = logAll redact fmtTime evs (logAudit redact fmtTime now ev s)"

lemma logAudit_denials:
  "auditOn s \<Longrightarrow> map dText (denials s) = lastN 100 xs \<Longrightarrow>
   map dText (denials (logAudit redact fmtTime now ev s)) =
     lastN 100 (xs @ (if isDenial ev then [formatOCSF redact (fmtTime now) ev] else []))"
  by (auto simp: logAudit_def isDenial_def recordDenial_ring Let_def lastN_map [symmetric] lastN_snoc_lastN)

lemma logAudit_on [simp]: "auditOn (logAudit redact fmtTime now ev s) = auditOn s"
  by (simp add: logAudit_def recordDenial_def Let_def)

lemma logAll_denials:
  "auditOn s \<Longrightarrow> map dText (denials s) = lastN 100 xs \<Longrightarrow>
   map dText (denials (logAll redact fmtTime evs s)) = lastN 100 (xs @ denialHistory redact fmtTime evs)"
proof (induction evs arbitrary: s xs)
  case (Cons e evs)
  obtain now ev where e: "e = (now, ev)" by (cases e)
  show ?case
    using Cons.IH [OF _ logAudit_denials [OF Cons.prems, of redact fmtTime now ev]] Cons.prems(1)
    by (simp add: e denialHistory_def)
qed (simp add: denialHistory_def)

lemma denialLimit_range: "1 \<le> denialLimit v \<and> denialLimit v \<le> 100"
  by (auto simp: denialLimit_def policyLocalDenialsMax_def Let_def split: option.splits)

lemma policyLocalDenials_lines:
  assumes "map dText (denials s) = lastN 100 xs"
  shows "policyLocalDenials v s = (200, JObj [(''denials'', JArr (map JStr (take (nat (denialLimit v)) (rev xs))))])"
proof -
  have r: "1 \<le> denialLimit v" "denialLimit v \<le> 100"
    using denialLimit_range by auto
  have "(if denialLimit v < int (length (denials s)) then drop (nat (int (length (denials s)) - denialLimit v)) (denials s) else denials s) =
        lastN (nat (denialLimit v)) (denials s)"
    using r by (auto simp: lastN_def nat_diff_distrib)
  moreover have "map dText (rev (lastN (nat (denialLimit v)) (denials s))) = take (nat (denialLimit v)) (rev xs)"
  proof -
    have "map dText (rev (lastN (nat (denialLimit v)) (denials s))) = rev (lastN (nat (denialLimit v)) (lastN 100 xs))"
      by (simp add: rev_map [symmetric] lastN_map [symmetric] assms)
    then show ?thesis
      using r by (simp add: lastN_lastN rev_lastN min_def)
  qed
  ultimately show ?thesis
    unfolding policyLocalDenials_def Let_def by (simp only: map_map [symmetric, unfolded comp_def, of JStr dText])
qed

section \<open>Waiting ends\<close>

lemma waitTimeout_range: "1 \<le> waitTimeout v \<and> waitTimeout v \<le> 300"
  by (auto simp: waitTimeout_def policyLocalWaitMin_def policyLocalWaitMax_def Let_def)

lemma waitTurn_sleeps:
  "waitTurn gw now deadline pid s = (Inl d, s') \<Longrightarrow> 500 \<le> d \<and> d \<le> 1000 \<and> now \<le> deadline"
  by (auto simp: waitTurn_def policyPollInterval_def Let_def split: option.splits if_splits)

lemma waitLoop_returns:
  "deadline < now + int n * 500 \<Longrightarrow> waitLoop (Suc n) env k now deadline pid s \<noteq> None"
proof (induction n arbitrary: k now s)
  case 0
  then show ?case
    using waitTurn_sleeps [of "leGateway env k" now deadline pid "leOthers env k s"]
    by (fastforce split: prod.splits sum.splits)
next
  case (Suc n)
  obtain r s' where turn: "waitTurn (leGateway env k) now deadline pid (leOthers env k s) = (r, s')"
    by (cases "waitTurn (leGateway env k) now deadline pid (leOthers env k s)")
  show ?case
  proof (cases r)
    case (Inl d)
    have "500 \<le> d" using waitTurn_sleeps turn Inl by blast
    then have "deadline < now + d + int (leSlack env k) + int n * 500"
      using Suc.prems by simp
    from Suc.IH [OF this, of "Suc k" s'] show ?thesis
      using turn Inl by simp
  next
    case (Inr a)
    then show ?thesis using turn by simp
  qed
qed

text \<open>
  An answer of the loop is that of a turn at the time it is reported with, and that time is the first
  one or follows a turn that slept before the deadline.
\<close>

lemma waitLoop_answer:
  "waitLoop n env k now deadline pid s = Some (t, r, s') \<Longrightarrow>
   (\<exists>k' u. waitTurn (leGateway env k') t deadline pid u = (Inr r, s')) \<and> now \<le> t \<and>
   (t = now \<or> (\<exists>k'. t \<le> deadline + 1000 + int (leSlack env k')))"
proof (induction n arbitrary: k now s)
  case (Suc n)
  obtain w u where turn: "waitTurn (leGateway env k) now deadline pid (leOthers env k s) = (w, u)"
    by (cases "waitTurn (leGateway env k) now deadline pid (leOthers env k s)")
  show ?case
  proof (cases w)
    case (Inl d)
    have d: "500 \<le> d" "d \<le> 1000" "now \<le> deadline" using waitTurn_sleeps turn Inl by blast+
    from Suc.prems turn Inl
    have "waitLoop n env (Suc k) (now + d + int (leSlack env k)) deadline pid u = Some (t, r, s')"
      by simp
    note ih = Suc.IH [OF this]
    then have "now \<le> t" "t = now + d + int (leSlack env k) \<or> (\<exists>k'. t \<le> deadline + 1000 + int (leSlack env k'))"
      using d by auto
    then have "\<exists>k'. t \<le> deadline + 1000 + int (leSlack env k')" using d by (auto intro: exI [of _ k])
    with ih \<open>now \<le> t\<close> show ?thesis by blast
  next
    case (Inr a)
    then show ?thesis using Suc.prems turn by auto
  qed
qed simp

text \<open>
  What an answer at time \<open>now\<close> says about the state it leaves: a decided proposal with its reload
  mark, an approved one that is not in force only after the deadline, an undecided one only after
  the deadline and marked as timed out.
\<close>

definition waitAnswerOk :: "int \<Rightarrow> int \<Rightarrow> string \<Rightarrow> local_response \<Rightarrow> advisor \<Rightarrow> bool" where
  "waitAnswerOk now deadline pid r s =
     (case proposals s pid of
        None \<Rightarrow> r = notFound pid
      | Some p \<Rightarrow>
          if propStatus p = ''approved'' \<or> propStatus p = ''rejected''
          then r = (200, JObj (proposalStatusJSON p (policyReloaded p s))) \<and>
               (propStatus p = ''rejected'' \<or> policyReloaded p s \<or> deadline \<le> now)
          else r = (200, JObj (proposalStatusJSON p False @ [(''timed_out'', JBool True)])) \<and> deadline < now)"

lemma waitTurn_answer:
  "waitTurn gw now deadline pid s = (Inr r, s') \<Longrightarrow> waitAnswerOk now deadline pid r s'"
  by (auto simp: waitTurn_def waitAnswerOk_def lookupProposal_def Let_def split: option.splits if_splits)

section \<open>Runs of the advisor\<close>

text \<open>
  The lock sections of the advisor in any order: an event is logged, one operation of a submission is
  handled, a proposal is refreshed from the gateway, the policy is reloaded. The first argument
  collects what the gateway answered, the identifier with the status.
\<close>

definition gatewayAnswer :: "gateway \<Rightarrow> string \<Rightarrow> (string \<times> string) set" where
  "gatewayAnswer gw pid =
     {(pid, propStatus remote) |remote code. gwGet gw (proposalURL gw pid) = Some (code, Some remote) \<and> code < 300}"

inductive advisor_run :: "(string \<times> string) set \<Rightarrow> advisor \<Rightarrow> bool" where
  start: "proposals s = Map.empty \<Longrightarrow> advisor_run {} s"
| audited: "advisor_run A s \<Longrightarrow> advisor_run A (logAudit redact fmtTime now ev s)"
| submitted: "advisor_run A s \<Longrightarrow> submitOperation pkg gw intent chunk now op s = (r, s') \<Longrightarrow> advisor_run A s'"
| refreshed: "advisor_run A s \<Longrightarrow> advisor_run (A \<union> gatewayAnswer gw pid) (refreshProposalFromGateway gw pid s)"
| reloaded: "advisor_run A s \<Longrightarrow> advisor_run A (s\<lparr>advDoc := view, advGen := g\<rparr>)"

definition localProposalOk :: "local_proposal \<Rightarrow> bool" where
  "localProposalOk p \<longleftrightarrow> propRuleName p \<noteq> [] \<and> propHosts p \<noteq> [] \<and> \<not> list_ex ssrfSensitive (propHosts p)"

definition proposalOk :: "(string \<times> string) set \<Rightarrow> string \<Rightarrow> local_proposal \<Rightarrow> bool" where
  "proposalOk A pid p \<longleftrightarrow>
     (propStatus p = ''pending'' \<or> (pid, propStatus p) \<in> A) \<and> (pid \<in> fst ` A \<or> localProposalOk p)"

lemma proposalOk_mono: "proposalOk A pid p \<Longrightarrow> A \<subseteq> B \<Longrightarrow> proposalOk B pid p"
  by (auto simp: proposalOk_def)

lemma logAudit_proposals [simp]: "proposals (logAudit redact fmtTime now ev s) = proposals s"
  by (simp add: logAudit_def recordDenial_def Let_def)

lemma normalizeAddRuleYAML_hosts:
  assumes "normalizeAddRuleYAML pkg name rule = Inr (hosts, yaml)"
  shows "hosts \<noteq> []"
proof -
  define eps where "eps = (case rule of None \<Rightarrow> None | Some kvs \<Rightarrow> jsonKey kvs ''endpoints'')"
  obtain endpoints where e: "hosts = map arHost endpoints"
      "(case eps of
          Some (JArr (e # es)) \<Rightarrow> traverseR (decodeEndpoint pkg ''endpoint: '' ''endpoint host required'') (e # es)
        | _ \<Rightarrow> mapR (\<lambda>ar. [ar]) (decodeEndpoint pkg [] ''rule.host required'' (case rule of Some kvs \<Rightarrow> JObj kvs | None \<Rightarrow> JNull))) =
       Inr endpoints"
    using assms unfolding normalizeAddRuleYAML_def Let_def eps_def [symmetric] bindR_eq_Inr
    by (auto split: option.splits)
  have "endpoints \<noteq> []"
    using e(2) by (auto split: option.splits json.splits list.splits)
  then show ?thesis using e(1) by simp
qed

lemma proposalFromAddRule_ok:
  assumes "proposalFromAddRule pkg raw intent chunk now = Inr p"
  shows "propStatus p = ''pending'' \<and> localProposalOk p"
proof -
  obtain ruleName rule where f: "structField ''ruleName'' decodeString [] (Some raw) = Some ruleName"
      "structField ''rule'' decodeMap None (Some raw) = Some rule"
    using assms unfolding proposalFromAddRule_def by (auto split: option.splits)
  define name where "name = addRuleName ruleName rule"
  obtain hosts yaml where n: "normalizeAddRuleYAML pkg name rule = Inr (hosts, yaml)" "name \<noteq> []" "\<not> list_ex ssrfSensitive hosts"
    and p: "propStatus p = ''pending''" "propHosts p = hosts" "propRuleName p = name"
    using assms unfolding proposalFromAddRule_def f Let_def option.case prod.case name_def [symmetric]
    by (auto split: if_splits option.splits)
  show ?thesis
    using p n normalizeAddRuleYAML_hosts [OF n(1)] by (simp add: localProposalOk_def)
qed

lemma persistProposal_proposals:
  "persistProposal gw p s = (e, s') \<Longrightarrow> proposals s' = (proposals s)(propID p \<mapsto> p)"
  by (auto simp: persistProposal_def Let_def split: if_splits sum.splits option.splits prod.splits)

lemma submitOperation_proposals:
  assumes "submitOperation pkg gw intent chunk now op s = (r, s')" and "proposals s' pid = Some p"
  shows "proposals s pid = Some p \<or> propStatus p = ''pending'' \<and> localProposalOk p"
  using assms
  by (auto simp: submitOperation_def Let_def localProposalOk_def split: option.splits sum.splits prod.splits if_splits
        dest!: persistProposal_proposals proposalFromAddRule_ok)

lemma refresh_proposals:
  assumes "proposals (refreshProposalFromGateway gw pid s) q = Some p"
    and "\<And>p. proposals s q = Some p \<Longrightarrow> proposalOk A q p"
  shows "proposalOk (A \<union> gatewayAnswer gw pid) q p"
proof (cases "proposals s q = Some p")
  case True
  then show ?thesis using assms(2) proposalOk_mono by blast
next
  case False
  then obtain code remote where ans: "gwGet gw (proposalURL gw pid) = Some (code, Some remote)" "code < 300" "q = pid"
    and p: "case proposals s pid of None \<Rightarrow> p = remote\<lparr>propReloadGen := 0\<rparr> | Some cur \<Rightarrow> p = mergeRemote (advGen s) cur remote"
    using assms(1) by (auto simp: refreshProposalFromGateway_def split: if_splits option.splits)
  then have mem: "(q, propStatus remote) \<in> A \<union> gatewayAnswer gw pid"
    by (auto simp: gatewayAnswer_def)
  then have "q \<in> fst ` (A \<union> gatewayAnswer gw pid)"
    by (metis fst_conv image_eqI)
  moreover have "propStatus p = ''pending'' \<or> (q, propStatus p) \<in> A \<union> gatewayAnswer gw pid"
  proof (cases "proposals s pid")
    case (Some cur)
    then have "proposalOk A q cur" using assms(2) ans(3) by simp
    then show ?thesis
      using mem p Some by (auto simp: mergeRemote_def Let_def proposalOk_def)
  qed (use mem p in auto)
  ultimately show ?thesis
    by (simp add: proposalOk_def)
qed

lemma advisor_run_ok: "advisor_run A s \<Longrightarrow> proposals s pid = Some p \<Longrightarrow> proposalOk A pid p"
proof (induction arbitrary: pid p rule: advisor_run.induct)
  case (submitted A s pkg gw intent chunk now op r s')
  then show ?case
    using submitOperation_proposals by (fastforce simp: proposalOk_def)
next
  case (refreshed A s gw qid)
  then show ?case using refresh_proposals by blast
qed simp_all

section \<open>Properties\<close>

text \<open>
  C32: After any sequence of audit events, the denials endpoint answers with the newest recorded
  denials first, as many as were asked for and at most a hundred: the ring of the code is the window
  of the whole history.
\<close>

theorem recent_denials:
  assumes "auditOn s" and "denials s = []"
  shows "policyLocalDenials v (logAll redact fmtTime evs s) =
           (200, JObj [(''denials'', JArr (map JStr (take (nat (denialLimit v)) (rev (denialHistory redact fmtTime evs)))))])"
proof -
  have "map dText (denials (logAll redact fmtTime evs s)) = lastN 100 ([] @ denialHistory redact fmtTime evs)"
    using assms by (intro logAll_denials) (simp_all add: lastN_def)
  then show ?thesis
    by (simp add: policyLocalDenials_lines)
qed

definition exampleAdvisor :: advisor where
  "exampleAdvisor =
     \<lparr>denials = [], proposals = Map.empty, advDoc = \<lparr>viewRules = [], viewPolicies = []\<rparr>, advGen = 1, auditOn = True, auditLines = []\<rparr>"

definition exampleEvent :: "string \<Rightarrow> string \<Rightarrow> audit_event" where
  "exampleEvent action host = (auditOf action ''no rule'' False)\<lparr>Host := host, Port := 443\<rparr>"

theorem recent_denials_witness:
  "policyLocalDenials ''1'' (logAll id (\<lambda>n. itoa n) [(1, exampleEvent ''deny'' ''a.org''), (2, exampleEvent ''allow'' ''b.org'')] exampleAdvisor) =
     (200, JObj [(''denials'', JArr [JStr ''1 OCSF NET:OPEN [MED] DENIED - -> a.org:443 [reason:no rule]''])])"
proof -
  have "auditOn exampleAdvisor" "denials exampleAdvisor = []"
    by (simp_all add: exampleAdvisor_def)
  note r = recent_denials [OF this, of "''1''" id "\<lambda>n. itoa n" "[(1, exampleEvent ''deny'' ''a.org''), (2, exampleEvent ''allow'' ''b.org'')]"]
  have "take (nat (denialLimit ''1'')) (rev (denialHistory id (\<lambda>n. itoa n) [(1, exampleEvent ''deny'' ''a.org''), (2, exampleEvent ''allow'' ''b.org'')])) =
          [''1 OCSF NET:OPEN [MED] DENIED - -> a.org:443 [reason:no rule]'']"
    by code_simp
  then show ?thesis using r by simp
qed

text \<open>
  C31: Waiting for a proposal always answers: after at most 602 turns of its loop, whatever the
  gateway answers, the other goroutines do and the turns take. The time of the answer is that of the
  turn which gives it, the arrival of the request and the sleeps and slacks of the turns before. The answer tells the
  proposal's status at that moment; an approved proposal that is not yet in force and an undecided one
  are answered only once the deadline has come, and no answer comes later than the deadline by more than
  one second and the slack of a turn.
\<close>

theorem policyLocalWait_answers:
  "\<exists>now r s'. policyLocalWait 602 env timeoutParam pid s = Some (now, r, s') \<and> leNow env \<le> now \<and>
     (\<exists>k. now \<le> leNow env + waitTimeout timeoutParam * 1000 + 1000 + int (leSlack env k)) \<and>
     waitAnswerOk now (leNow env + waitTimeout timeoutParam * 1000) pid r s'"
proof -
  let ?d = "leNow env + waitTimeout timeoutParam * 1000"
  have "?d < leNow env + int 601 * 500" "leNow env \<le> ?d"
    using waitTimeout_range [of timeoutParam] by simp_all
  from waitLoop_returns [OF this(1), of env 0 pid s] obtain now r s'
    where w: "waitLoop (Suc 601) env 0 (leNow env) ?d pid s = Some (now, r, s')"
    by auto
  note answer = waitLoop_answer [OF w]
  then have "\<exists>k. now \<le> ?d + 1000 + int (leSlack env k)" using \<open>leNow env \<le> ?d\<close> by auto
  moreover have "policyLocalWait 602 env timeoutParam pid s = Some (now, r, s')"
    using w by (simp add: policyLocalWait_def)
  moreover have "waitAnswerOk now ?d pid r s'" using answer waitTurn_answer by blast
  ultimately show ?thesis using answer by blast
qed

text \<open>
  C30: Nothing inside the sandbox decides a proposal: in every state the advisor can reach, a
  proposal is pending or has a status that the gateway answered for its identifier, and a proposal
  the gateway has not answered for has a rule name and hosts, none of them a metadata address.
\<close>

theorem proposals_decided_by_gateway:
  assumes "advisor_run A s" and "proposals s pid = Some p"
  shows "(propStatus p = ''pending'' \<or> (pid, propStatus p) \<in> A) \<and>
         (pid \<in> fst ` A \<or> propRuleName p \<noteq> [] \<and> propHosts p \<noteq> [] \<and> \<not> list_ex ssrfSensitive (propHosts p))"
  using advisor_run_ok [OF assms] by (simp add: proposalOk_def localProposalOk_def)

definition examplePkg :: policy_pkg where
  "examplePkg =
     \<lparr>decodeRule = (\<lambda>j. case structField ''host'' decodeString [] (Some j) of
                      Some h \<Rightarrow> Inr \<lparr>arHost = h, arPort = 0, arPorts = []\<rparr> | None \<Rightarrow> Inl ''host''),
      validateRules = (\<lambda>_ _. None), encodeRules = (\<lambda>n _. Inr n)\<rparr>"

definition exampleGateway :: gateway where
  "exampleGateway = \<lparr>gwURL = [], gwSandbox = [], gwPost = (\<lambda>_. Inr None), gwGet = (\<lambda>_. None)\<rparr>"

definition exampleOp :: "(string \<times> json) list" where
  "exampleOp = [(''addRule'', JObj [(''ruleName'', JStr ''r''), (''rule'', JObj [(''host'', JStr ''a.org'')])])]"

theorem proposals_decided_by_gateway_witness:
  "\<exists>p. proposals (snd (submitOperation examplePkg exampleGateway [] (Some ''chk'') 0 exampleOp exampleAdvisor)) ''chk'' = Some p \<and>
     propStatus p = ''pending'' \<and> propHosts p = [''a.org'']"
proof -
  let ?r = "submitOperation examplePkg exampleGateway [] (Some ''chk'') 0 exampleOp exampleAdvisor"
  have "advisor_run {} (snd ?r)"
    by (rule advisor_run.submitted [OF advisor_run.start [of exampleAdvisor], of examplePkg exampleGateway "[]" "Some ''chk''" 0 exampleOp "fst ?r"])
      (simp_all add: exampleAdvisor_def)
  moreover obtain p where p: "proposals (snd ?r) ''chk'' = Some p" "propHosts p = [''a.org'']"
  proof -
    have "map_option propHosts (proposals (snd ?r) ''chk'') = Some [''a.org'']"
      by code_simp
    then show thesis using that by auto
  qed
  ultimately have "propStatus p = ''pending''"
    using proposals_decided_by_gateway [of "{}" "snd ?r" "''chk''" p] by simp
  then show ?thesis using p by blast
qed

end
