(* ===== verification/WS_Relay.thy ===== *)
theory WS_Relay
  imports HTTP_Exchange Grpc_Stage WS_Frame
begin

text \<open>
  The WebSocket part of \<^verbatim>\<open>proxy/terminate.go\<close>: the response half of a turn of \<^verbatim>\<open>mitmHTTPS\<close>, the upgrade, and
  \<^verbatim>\<open>relayWebsocket\<close> with its two directions. A direction reads frames from the bytes of its reader and adds
  what it writes and logs to a list of events; whether a write fails is a function of the events so
  far. The sessions of the middleware are state that every message passes through.
\<close>

section \<open>Bytes and text\<close>

definition bytesString :: "byte list \<Rightarrow> string" where
  "bytesString bs = map (\<lambda>b. char_of (unat b)) bs"

definition stringBytes :: "string \<Rightarrow> byte list" where
  "stringBytes s = map (\<lambda>c. of_nat (byteVal c)) s"

section \<open>GraphQL over WebSocket\<close>

text \<open>
  No operation stands for a message that passes without a decision. The escapes that \<^verbatim>\<open>%q\<close> adds within an
  unsupported type are left out of its message.
\<close>

definition wsControlTypes :: "string list" where
  "wsControlTypes = [''connection_init'', ''ping'', ''pong'', ''complete'', ''stop'', ''connection_terminate'']"

definition classifyGraphQLWS :: "json_parser \<Rightarrow> string \<Rightarrow> string + graphql_operation option" where
  "classifyGraphQLWS parseJSON payload =
     (let v = parseJSON payload in
      case (structField ''id'' decodeString [] v, structField ''type'' decodeString [] v, structField ''payload'' decodeRaw None v) of
        (Some mid, Some typ, Some body) \<Rightarrow>
          if typ \<in> set wsControlTypes then Inr None
          else if typ = ''subscribe'' \<or> typ = ''start'' then
            (if trimSpace mid = [] \<or> (case body of Some (JObj _) \<Rightarrow> False | _ \<Rightarrow> True)
             then Inl ''graphql-ws: operation requires a non-empty id and object payload''
             else
               bindR (mapLR gqlErrorMsg id (decodeGraphQLEnvelope (the body))) (\<lambda>envelope.
                 (case classifyGraphQLEnvelopes [envelope] of
                    Inr [op] \<Rightarrow> Inr (Some op)
                  | _ \<Rightarrow> Inl ''graphql-ws: invalid operation payload'')))
          else Inl (''graphql-ws: unsupported type '' @ [CHR 0x22] @ typ @ [CHR 0x22])
      | _ \<Rightarrow> Inl ''graphql-ws: invalid json'')"

section \<open>Messages from the client\<close>

text \<open>What the upgrade hands to the relay.\<close>

record relay_args =
  raHost :: string
  raPort :: int
  raPath :: string
  raQuery :: query_map
  raBound :: "string list"
  raRewrite :: bool
  raProtocol :: string
  raGraphQLOps :: bool
  raBinary :: string
  raTextMethod :: string

datatype relay_event =
    ToUpstream byte "byte list"
  | ToClient byte "byte list"
  | Logged audit_event

definition policyClose :: relay_event where
  "policyClose = ToClient wsOpcodeClose [0x03, 0xef]"

definition protocolClose :: relay_event where
  "protocolClose = ToClient wsOpcodeClose [0x03, 0xea]"

definition relayDeny :: "relay_args \<Rightarrow> string \<Rightarrow> string \<Rightarrow> string \<Rightarrow> relay_event" where
  "relayDeny a reason meth bin = Logged (auditEvent ''deny'' (raHost a) (raPort a) reason False meth (raPath a) bin)"

text \<open>
  A payload to send with the events before it, or no payload when the relay ends. The outer option is
  \<^const>\<open>None\<close> only where the placeholder package makes no progress.
\<close>

type_synonym text_result = "(byte list option \<times> relay_event list) option"

definition rewriteWSText :: "('s, 'g) exchange_env \<Rightarrow> relay_args \<Rightarrow> byte list \<Rightarrow> text_result" where
  "rewriteWSText x a payload =
     (let deny = (\<lambda>reason. relayDeny a reason (raTextMethod a) []) in
      Option.bind (placeholderKeysInString (xEnv x) (bytesString payload)) (\<lambda>used.
        (case resolveTokenGrantKeys (xGrants x) (raHost a) (raPort a) (raPath a) used (raBound a) (xSecrets x) of
           Inl _ \<Rightarrow> Some (None, [deny ''token grant failed'', policyClose])
         | Inr secrets \<Rightarrow>
             (case SecretsForEndpoint secrets (raBound a) used of
                Inl err \<Rightarrow> Some (None, [deny (secretErrorMsg (xEnv x) err), policyClose])
              | Inr store \<Rightarrow>
                  map_option (\<lambda>r. case r of
                      Inl err \<Rightarrow> (None, [deny (''ws credential rewrite: '' @ secretErrorMsg (xEnv x) err)])
                    | Inr out \<Rightarrow> (Some (stringBytes out), []))
                    (RewriteText (xEnv x) (bytesString payload) store)))))"

definition relayQuery :: "relay_args \<Rightarrow> graphql_operation option \<Rightarrow> http_query" where
  "relayQuery a op =
     \<lparr>qHost = raHost a, qPort = raPort a, qMethod = raTextMethod a, qPath = raPath a, qBinary = raBinary a,
      qQuery = raQuery a, qGraphQL = op\<rparr>"

definition authorizeText :: "('s, 'g) exchange_env \<Rightarrow> relay_args \<Rightarrow> byte list \<Rightarrow> graphql_operation option \<Rightarrow> text_result" where
  "authorizeText x a payload op =
     (case DecideHTTP (xEngine x) (relayQuery a op) of
        Inl _ \<Rightarrow> Some (None, [relayDeny a ''websocket text denied'' (raTextMethod a) (raBinary a), policyClose])
      | Inr dec \<Rightarrow>
          if \<not> EngAllow dec then Some (None, [relayDeny a (EngReason dec) (raTextMethod a) (raBinary a), policyClose])
          else
            (let audited = (if EngAudit dec
                 then [Logged (auditEvent ''audit'' (raHost a) (raPort a) (EngReason dec) True (raTextMethod a) (raPath a) (raBinary a))] else []) in
             if raRewrite a \<and> ContainsPlaceholder (xEnv x) (bytesString payload)
             then map_option (\<lambda>(r, evs). (r, audited @ evs)) (rewriteWSText x a payload)
             else Some (Some payload, audited)))"

definition relayText :: "('s, 'g) exchange_env \<Rightarrow> relay_args \<Rightarrow> byte list \<Rightarrow> text_result" where
  "relayText x a payload =
     (if equalFold (raProtocol a) (ProtocolGraphQL (xEngine x)) \<or> raGraphQLOps a then
        (case classifyGraphQLWS (xJSON x) (bytesString payload) of
           Inl err \<Rightarrow> Some (None, [relayDeny a err ''graphql'' [], policyClose])
         | Inr None \<Rightarrow> Some (Some payload, [])
         | Inr (Some op) \<Rightarrow> authorizeText x a payload (Some op))
      else authorizeText x a payload None)"

text \<open>The sessions of the middleware: starting, passing a message on, closing.\<close>

record 's relay_ops =
  StartSession :: "'s \<Rightarrow> bool \<times> 's"
  MessageSession :: "'s \<Rightarrow> 64 word \<Rightarrow> string \<Rightarrow> bool \<Rightarrow> (string + (bool \<times> string)) \<times> 's"
  EndSession :: "string \<Rightarrow> 's \<Rightarrow> 's"

fun inspectMessage :: "'s relay_ops \<Rightarrow> 64 word \<Rightarrow> bool \<Rightarrow> 's list \<Rightarrow> string \<Rightarrow> string option \<times> 's list" where
  "inspectMessage ops sq txt [] payload = (Some payload, [])"
| "inspectMessage ops sq txt (s # ss) payload =
     (case MessageSession ops s sq payload txt of
        (Inl _, s') \<Rightarrow> (None, s' # ss)
      | (Inr (allow, replacement), s') \<Rightarrow>
          if \<not> allow then (None, s' # ss)
          else (case inspectMessage ops sq txt ss replacement of (r, ss') \<Rightarrow> (r, s' # ss')))"

record 's relay_state =
  rlFragments :: wsFragmentBuffer
  rlSequence :: "64 word"
  rlSessions :: "'s list"
  rlEvents :: "relay_event list"

definition emit :: "relay_event list \<Rightarrow> 's relay_state \<Rightarrow> 's relay_state" where
  "emit evs st = st\<lparr>rlEvents := rlEvents st @ evs\<rparr>"

text \<open>A frame to the upstream; the relay goes on unless the write fails.\<close>

definition sendUp :: "(relay_event list \<Rightarrow> bool) \<Rightarrow> byte \<Rightarrow> byte list \<Rightarrow> 's relay_state \<Rightarrow> bool \<times> 's relay_state" where
  "sendUp fails op payload st =
     (let st' = emit [ToUpstream op payload] st in (\<not> fails (rlEvents st'), st'))"

text \<open>
  One logical frame of the client: whether the loop goes on, and the state. Pings, pongs and frames
  with another opcode are handed on as they are.
\<close>

definition relayFrame ::
    "('s, 'g) exchange_env \<Rightarrow> 'm relay_ops \<Rightarrow> relay_args \<Rightarrow> (relay_event list \<Rightarrow> bool) \<Rightarrow> wsFrame \<Rightarrow> 'm relay_state \<Rightarrow>
       (bool \<times> 'm relay_state) option" where
  "relayFrame x ops a fails fr st =
     (let sq = rlSequence st + 1;
          inspected = inspectMessage ops sq (Opcode fr = wsOpcodeText) (rlSessions st) (bytesString (Payload fr));
          st1 = st\<lparr>rlSequence := sq, rlSessions := snd inspected\<rparr> in
      if Opcode fr = wsOpcodeText then
        (case fst inspected of
           None \<Rightarrow> Some (False, emit [policyClose] st1)
         | Some p \<Rightarrow>
             map_option (\<lambda>(r, evs). case r of
                 None \<Rightarrow> (False, emit evs st1)
               | Some out \<Rightarrow> sendUp fails (Opcode fr) out (emit evs st1))
               (relayText x a (stringBytes p)))
      else if Opcode fr = wsOpcodeBinary then
        (case fst inspected of
           None \<Rightarrow> Some (False, emit [policyClose] st1)
         | Some p \<Rightarrow> Some (sendUp fails (Opcode fr) (stringBytes p) st1))
      else if Opcode fr = wsOpcodeClose then Some (False, snd (sendUp fails wsOpcodeClose (Payload fr) st))
      else Some (sendUp fails (Opcode fr) (Payload fr) st))"

lemma readWSFrame_consumes: "readWSFrame r = Inr (fr, r') \<Longrightarrow> length r' < length r"
  by (auto simp: readWSFrame_def readFull_def readLength_def Let_def split: if_splits)

function relayClient ::
    "('s, 'g) exchange_env \<Rightarrow> 'm relay_ops \<Rightarrow> relay_args \<Rightarrow> (relay_event list \<Rightarrow> bool) \<Rightarrow> byte list \<Rightarrow> 'm relay_state \<Rightarrow> 'm relay_state option" where
  "relayClient x ops a fails r st =
     (case readWSFrame r of
        Inl _ \<Rightarrow> Some st
      | Inr (fr, r') \<Rightarrow>
          (case accept (rlFragments st) fr of
             (Inl _, b) \<Rightarrow> Some (emit [protocolClose] (st\<lparr>rlFragments := b\<rparr>))
           | (Inr None, b) \<Rightarrow> relayClient x ops a fails r' (st\<lparr>rlFragments := b\<rparr>)
           | (Inr (Some logical), b) \<Rightarrow>
               (case relayFrame x ops a fails logical (st\<lparr>rlFragments := b\<rparr>) of
                  None \<Rightarrow> None
                | Some (goOn, st') \<Rightarrow> if goOn then relayClient x ops a fails r' st' else Some st')))"
  by pat_completeness auto
termination
  by (relation "measure (\<lambda>(x, ops, a, fails, r, st). length r)") (auto dest: readWSFrame_consumes)

declare relayClient.simps [simp del]

text \<open>The other direction: every frame is written as it was read, until one is a close.\<close>

function relayUpstream :: "(relay_event list \<Rightarrow> bool) \<Rightarrow> byte list \<Rightarrow> relay_event list \<Rightarrow> relay_event list" where
  "relayUpstream fails r evs =
     (case readWSFrame r of
        Inl _ \<Rightarrow> evs
      | Inr (fr, r') \<Rightarrow>
          (let evs' = evs @ [ToClient (Opcode fr) (Payload fr)] in
           if fails evs' \<or> Opcode fr = wsOpcodeClose then evs' else relayUpstream fails r' evs'))"
  by pat_completeness auto
termination
  by (relation "measure (\<lambda>(fails, r, evs). length r)") (auto dest: readWSFrame_consumes)

declare relayUpstream.simps [simp del]

text \<open>
  The relay as a whole. The sessions are started in order; when one fails it is closed and the relay
  ends, the others as they are. Otherwise both directions run; each result is what its direction
  does when it runs to its end, and the first that ends stops the other. All sessions are closed
  afterwards. \<open>WS_Schedule\<close> has the turns of the two directions in any order.
\<close>

fun startSessions :: "'m relay_ops \<Rightarrow> 'm list \<Rightarrow> bool \<times> 'm list" where
  "startSessions ops [] = (True, [])"
| "startSessions ops (s # ss) =
     (case StartSession ops s of
        (False, s') \<Rightarrow> (False, EndSession ops ''session start failure'' s' # ss)
      | (True, s') \<Rightarrow> (case startSessions ops ss of (ok, ss') \<Rightarrow> (ok, s' # ss')))"

record 'm relay_run =
  runClient :: "'m relay_state"
  runUpstream :: "relay_event list"
  runSessions :: "'m list"

definition relayWebsocket ::
    "('s, 'g) exchange_env \<Rightarrow> 'm relay_ops \<Rightarrow> relay_args \<Rightarrow> (relay_event list \<Rightarrow> bool) \<Rightarrow> (relay_event list \<Rightarrow> bool) \<Rightarrow>
       byte list \<Rightarrow> byte list \<Rightarrow> 'm list \<Rightarrow> ('m list + 'm relay_run) option" where
  "relayWebsocket x ops a upFails clientFails fromClient fromUp sessions =
     (case startSessions ops sessions of
        (False, ss) \<Rightarrow> Some (Inl ss)
      | (True, ss) \<Rightarrow>
          map_option (\<lambda>st.
              Inr \<lparr>runClient = st, runUpstream = relayUpstream clientFails fromUp [],
                   runSessions = map (EndSession ops ''session ended'') (rlSessions st)\<rparr>)
            (relayClient x ops a upFails fromClient
               \<lparr>rlFragments = \<lparr>bufOpcode = 0, bufPayload = []\<rparr>, rlSequence = 0, rlSessions = ss, rlEvents = []\<rparr>))"

definition grpcRelayOps :: "grpc_session relay_ops" where
  "grpcRelayOps =
     \<lparr>StartSession = (\<lambda>s. grpcStart s []), MessageSession = (\<lambda>s sq payload txt. grpcMessage s (uint sq) payload txt),
      EndSession = (\<lambda>reason s. grpcClose s)\<rparr>"

section \<open>The upgrade\<close>

definition isWebsocketUpgrade :: "http_request \<Rightarrow> bool" where
  "isWebsocketUpgrade req \<longleftrightarrow>
     equalFold (hdrGet (reqHeader req) ''Upgrade'') ''websocket'' \<and>
     contains (toLower (hdrGet (reqHeader req) ''Connection'')) ''upgrade''"

definition websocketSubprotocols :: "http_header \<Rightarrow> string list" where
  "websocketSubprotocols hs =
     concat (map (\<lambda>v. filter (\<lambda>p. p \<noteq> []) (map trimSpace (splitByte (CHR '','') v))) (hdrValues hs ''Sec-WebSocket-Protocol''))"

definition openWebSocketMiddlewareSessions ::
    "'m ws_session_ops \<Rightarrow> 'm stage list option \<Rightarrow> string \<Rightarrow> http_request \<Rightarrow> string \<Rightarrow> int \<Rightarrow> string \<Rightarrow> string + 'm list" where
  "openWebSocketMiddlewareSessions ops pipe sid req host p path =
     (case OpenWebSocketSessions ops pipe
        \<lparr>SessionID = sid, WsScheme = ''wss'', WsHost = host, WsPort = p, WsPath = path,
         RequestedSubprotocols = websocketSubprotocols (reqHeader req)\<rparr> of
        (Inl err, _, _) \<Rightarrow> Inl err
      | (Inr _, kept, _) \<Rightarrow> Inr kept)"

text \<open>
  The rest of a turn of \<^verbatim>\<open>mitmHTTPS\<close>, from the request that may be sent to the end of the turn. The network
  answers through the input: whether the request could be written, an error of the read deadline, the
  response, whether it or the request asks to close, and whether the response could be written. The
  result has the sessions as they are left.
\<close>

record turn_input =
  tiSession :: string
  tiWritten :: bool
  tiDeadlineErr :: "string option"
  tiResponse :: "http_response option"
  tiClose :: bool
  tiClientWritten :: bool

datatype turn_end =
    CloseConnection
  | NextRequest
  | RefuseExchange string
  | RelayFrames relay_args

record 'm turn_result =
  trEnd :: turn_end
  trResponse :: "http_response option"
  trSessions :: "'m list"
  trAudit :: "audit_event list"

definition turnResult :: "turn_end \<Rightarrow> http_response option \<Rightarrow> 'm list \<Rightarrow> audit_event list \<Rightarrow> 'm turn_result" where
  "turnResult e resp ss log = \<lparr>trEnd = e, trResponse = resp, trSessions = ss, trAudit = log\<rparr>"

text \<open>
  \<open>rewrites\<close> and \<open>operationRules\<close> are the rule's \<^verbatim>\<open>WebsocketCredentialRewrite\<close> and \<^verbatim>\<open>UsesGraphQLOperationRules\<close>;
  \<open>textMethod\<close> is the method name of the policy package for a text message.
\<close>

definition relayArgs ::
    "string \<Rightarrow> (endpoint_rule \<Rightarrow> bool) \<Rightarrow> (endpoint_rule \<Rightarrow> bool) \<Rightarrow> matched_rule option \<Rightarrow> string \<Rightarrow> int \<Rightarrow> string \<Rightarrow> string \<Rightarrow>
       query_map \<Rightarrow> relay_args" where
  "relayArgs textMethod rewrites operationRules m host p path bin query =
     \<lparr>raHost = host, raPort = p, raPath = path, raQuery = query,
      raBound = (case m of Some mr \<Rightarrow> ruleCredentialKeys (mRule mr) | None \<Rightarrow> []),
      raRewrite = (case m of Some mr \<Rightarrow> rewrites (mRule mr) | None \<Rightarrow> False),
      raProtocol = (case m of Some mr \<Rightarrow> ruleProtocol (mRule mr) | None \<Rightarrow> []),
      raGraphQLOps = (case m of Some mr \<Rightarrow> operationRules (mRule mr) | None \<Rightarrow> False),
      raBinary = bin, raTextMethod = textMethod\<rparr>"

definition mitmExchange ::
    "'m ws_session_ops \<Rightarrow> 'm stage list option \<Rightarrow> (query_map \<Rightarrow> relay_args) \<Rightarrow> turn_input \<Rightarrow> http_request \<Rightarrow> string \<Rightarrow> string \<Rightarrow> int \<Rightarrow>
       string \<Rightarrow> string \<Rightarrow> 'm turn_result" where
  "mitmExchange ops pipe args i req reason host p path bin =
     (let wantWS = isWebsocketUpgrade req in
      case (if wantWS then openWebSocketMiddlewareSessions ops pipe (tiSession i) req host p path else Inr []) of
        Inl _ \<Rightarrow> turnResult (RefuseExchange ''cauteum-proxy: websocket middleware denied'') None [] []
      | Inr ss \<Rightarrow>
          if \<not> tiWritten i then turnResult CloseConnection None ss []
          else (case tiDeadlineErr i of
            Some err \<Rightarrow> turnResult CloseConnection None ss [auditEvent ''error'' host p (''TLS deadline: '' @ err) False [] [] []]
          | None \<Rightarrow>
              (case tiResponse i of
                 None \<Rightarrow> turnResult CloseConnection None (map (CloseSession ops ''upstream failure'') ss) []
               | Some resp \<Rightarrow>
                   (let upgraded = (wantWS \<and> respStatusCode resp = 101);
                        ss' = (if wantWS \<and> \<not> upgraded then map (CloseSession ops ''upgrade rejected'') ss else ss);
                        allowed = auditEvent ''allow'' host p reason True (reqMethod req) path bin in
                    case (if upgraded then Inr resp else runMiddlewareResponse pipe req host p path resp) of
                      Inl _ \<Rightarrow> turnResult (RefuseExchange ''cauteum-proxy: response middleware denied'') None ss' []
                    | Inr resp' \<Rightarrow>
                        turnResult
                          (if \<not> tiClientWritten i then CloseConnection
                           else if upgraded then
                             (case parsePolicyQuery (rawQueryOf req) of
                                Inl _ \<Rightarrow> CloseConnection
                              | Inr query \<Rightarrow> RelayFrames (args query))
                           else if equalFold (hdrGet (respHeader resp') ''Connection'') ''close'' \<or> tiClose i then CloseConnection
                           else NextRequest)
                          (Some resp') ss'
                          (allowed # (if tiClientWritten i \<and> upgraded
                             then (case parsePolicyQuery (rawQueryOf req) of
                                     Inl err \<Rightarrow> [auditEvent ''error'' host p (''websocket query: '' @ queryErrorMsg err) False [] [] bin]
                                   | Inr _ \<Rightarrow> [])
                             else []))))))"

section \<open>What reaches the upstream\<close>

definition operationChecked :: "('s, 'g) exchange_env \<Rightarrow> relay_args \<Rightarrow> bool" where
  "operationChecked x a \<longleftrightarrow> equalFold (raProtocol a) (ProtocolGraphQL (xEngine x)) \<or> raGraphQLOps a"

text \<open>The engine allows the message, or it is a control message of the GraphQL protocol.\<close>

definition textCleared :: "('s, 'g) exchange_env \<Rightarrow> relay_args \<Rightarrow> string \<Rightarrow> bool" where
  "textCleared x a m \<longleftrightarrow>
     (if operationChecked x a then
        (case classifyGraphQLWS (xJSON x) m of
           Inl _ \<Rightarrow> False
         | Inr None \<Rightarrow> True
         | Inr (Some op) \<Rightarrow> authorized (xEngine x) (relayQuery a (Some op)))
      else authorized (xEngine x) (relayQuery a None))"

text \<open>The message itself, or its placeholders replaced from a store of bound keys.\<close>

definition textRewritten :: "('s, 'g) exchange_env \<Rightarrow> relay_args \<Rightarrow> string \<Rightarrow> string \<Rightarrow> bool" where
  "textRewritten x a m out \<longleftrightarrow>
     out = m \<or>
     raRewrite a \<and> (\<exists>store. dom store \<subseteq> set (raBound a) \<and> RewriteText (xEnv x) m store = Some (Inr out))"

lemma textCleared_secrets [simp]: "textCleared (x\<lparr>xSecrets := store\<rparr>) a m = textCleared x a m"
  by (simp add: textCleared_def operationChecked_def split: sum.split option.split)

lemma textRewritten_secrets [simp]: "textRewritten (x\<lparr>xSecrets := store\<rparr>) a m out = textRewritten x a m out"
  by (simp add: textRewritten_def)

lemma bytesString_stringBytes [simp]: "bytesString (stringBytes s) = s"
proof -
  have "char_of (unat (of_nat (byteVal c) :: byte)) = c" for c
    by (simp add: unat_of_nat)
  then show ?thesis by (simp add: bytesString_def stringBytes_def comp_def)
qed

lemma stringBytes_bytesString [simp]: "stringBytes (bytesString bs) = bs"
proof -
  have "of_nat (byteVal (char_of (unat b) :: char)) = b" for b :: byte
  proof -
    have "unat b < 2 ^ LENGTH(8)" by (rule unsigned_less)
    then show ?thesis by simp
  qed
  then show ?thesis by (simp add: bytesString_def stringBytes_def comp_def)
qed

fun isToUpstream :: "relay_event \<Rightarrow> bool" where
  "isToUpstream (ToUpstream op p) = True"
| "isToUpstream _ = False"

lemma rewriteWSText_result:
  assumes "rewriteWSText x a m = Some (r, evs)"
  shows "\<not> list_ex isToUpstream evs"
    and "r = Some out \<Longrightarrow> \<exists>store. dom store \<subseteq> set (raBound a) \<and> RewriteText (xEnv x) (bytesString m) store = Some (Inr (bytesString out))"
proof -
  let ?m = "bytesString m"
  obtain used where used: "placeholderKeysInString (xEnv x) ?m = Some used"
    using assms by (auto simp: rewriteWSText_def bind_eq_Some_conv)
  note eq = assms [unfolded rewriteWSText_def Let_def used bind.bind_lunit relayDeny_def policyClose_def]
  have "\<not> list_ex isToUpstream evs \<and>
    (r = Some out \<longrightarrow> (\<exists>store. dom store \<subseteq> set (raBound a) \<and> RewriteText (xEnv x) ?m store = Some (Inr (bytesString out))))"
  proof (cases "resolveTokenGrantKeys (xGrants x) (raHost a) (raPort a) (raPath a) used (raBound a) (xSecrets x)")
    case (Inr secrets)
    show ?thesis
    proof (cases "SecretsForEndpoint secrets (raBound a) used")
      case (Inr store)
      then have "dom store \<subseteq> set (raBound a)" by (auto simp: SecretsForEndpoint_Inr)
      with Inr \<open>resolveTokenGrantKeys _ _ _ _ _ _ _ = Inr secrets\<close> eq show ?thesis
        by (cases "RewriteText (xEnv x) ?m store") (auto split: sum.splits intro!: exI [of _ store])
    qed (use Inr eq in auto)
  qed (use eq in auto)
  then show "\<not> list_ex isToUpstream evs"
    and "r = Some out \<Longrightarrow> \<exists>store. dom store \<subseteq> set (raBound a) \<and> RewriteText (xEnv x) ?m store = Some (Inr (bytesString out))"
    by auto
qed

lemmas rewriteWSText_cleared = rewriteWSText_result(2) [OF _ refl]
lemmas rewriteWSText_events = rewriteWSText_result(1)

lemma authorizeText_cleared:
  assumes "authorizeText x a m op = Some (Some out, evs)"
  shows "authorized (xEngine x) (relayQuery a op) \<and> textRewritten x a (bytesString m) (bytesString out)"
  using assms rewriteWSText_cleared [of x a m out]
  by (auto simp: authorizeText_def authorized_def textRewritten_def Let_def split: sum.splits if_splits)

lemma authorizeText_events: "authorizeText x a m op = Some (r, evs) \<Longrightarrow> \<not> list_ex isToUpstream evs"
  by (auto simp: authorizeText_def relayDeny_def policyClose_def Let_def dest: rewriteWSText_events split: sum.splits if_splits)

lemma relayText_cleared:
  assumes "relayText x a m = Some (Some out, evs)"
  shows "textCleared x a (bytesString m) \<and> textRewritten x a (bytesString m) (bytesString out)"
  using assms
  by (auto simp: relayText_def textCleared_def operationChecked_def textRewritten_def dest: authorizeText_cleared split: sum.splits option.splits if_splits)

lemma relayText_events: "relayText x a m = Some (r, evs) \<Longrightarrow> \<not> list_ex isToUpstream evs"
  by (auto simp: relayText_def relayDeny_def policyClose_def dest: authorizeText_events split: sum.splits option.splits if_splits)

lemma emit_events [simp]: "rlEvents (emit evs st) = rlEvents st @ evs"
  by (simp add: emit_def)

lemma sendUp_events [simp]: "rlEvents (snd (sendUp fails op p st)) = rlEvents st @ [ToUpstream op p]"
  by (simp add: sendUp_def Let_def)

lemma wsOpcodes_distinct [simp]:
  "wsOpcodeText \<noteq> wsOpcodeBinary" "wsOpcodeBinary \<noteq> wsOpcodeText" "wsOpcodeClose \<noteq> wsOpcodeText" "wsOpcodeClose \<noteq> wsOpcodeBinary"
  "wsOpcodePing \<noteq> wsOpcodeText" "wsOpcodePing \<noteq> wsOpcodeBinary" "wsOpcodePing \<noteq> wsOpcodeClose"
  "wsOpcodePong \<noteq> wsOpcodeText" "wsOpcodePong \<noteq> wsOpcodeBinary" "wsOpcodePong \<noteq> wsOpcodeClose"
  "wsOpcodeClose \<noteq> wsOpcodePing" "wsOpcodeClose \<noteq> wsOpcodePong"
  by (simp_all add: wsOpcode_defs)

text \<open>The relay of an upgraded exchange works under the arguments of its request, with the sessions opened for it.\<close>

lemma mitmExchange_relay:
  "trEnd (mitmExchange ops pipe args i req reason host p path bin) = RelayFrames a \<Longrightarrow>
   (\<exists>query. a = args query) \<and>
   openWebSocketMiddlewareSessions ops pipe (tiSession i) req host p path =
     Inr (trSessions (mitmExchange ops pipe args i req reason host p path bin))"
  by (auto simp: mitmExchange_def turnResult_def Let_def split: sum.splits option.splits if_splits)

section \<open>Relaying plain frames\<close>

lemma inspectMessage_none [simp]: "inspectMessage ops sq txt [] payload = (Some payload, [])"
  by simp

text \<open>What a client may send in one frame.\<close>

definition plainFrame :: "byte \<times> byte list \<times> byte list option \<Rightarrow> bool" where
  "plainFrame f \<longleftrightarrow>
     (case f of (op, payload, key) \<Rightarrow>
        ((op = wsOpcodeText \<or> op = wsOpcodeBinary) \<and> int (length payload) \<le> maxWSMessageBytes \<or>
         (op = wsOpcodePing \<or> op = wsOpcodePong) \<and> length payload \<le> 125) \<and>
        (case key of Some k \<Rightarrow> length k = 4 | None \<Rightarrow> True))"

definition clientBytes :: "byte \<times> byte list \<times> byte list option \<Rightarrow> byte list" where
  "clientBytes f = (case f of (op, payload, key) \<Rightarrow> fst (encodeWSFrame op payload key) @ snd (encodeWSFrame op payload key))"

definition upstreamEvent :: "byte \<times> byte list \<times> byte list option \<Rightarrow> relay_event" where
  "upstreamEvent f = (case f of (op, payload, key) \<Rightarrow> ToUpstream op payload)"

lemma readWSFrame_clientBytes:
  assumes "plainFrame (op, payload, key)"
  shows "readWSFrame (clientBytes (op, payload, key) @ rest) = Inr (\<lparr>Opcode = op, Payload = payload, Fin = True\<rparr>, rest)"
proof -
  have "int (length payload) \<le> maxWSFrameBytes" "case key of Some k \<Rightarrow> length k = 4 | None \<Rightarrow> True"
    using assms by (auto simp: plainFrame_def maxWSMessageBytes_def maxWSFrameBytes_def)
  moreover have "op AND 0x0f = op"
    using assms by (auto simp: plainFrame_def wsOpcode_defs)
  ultimately show ?thesis
    using readWSFrame_encodeWSFrame [of payload key op rest] by (simp add: clientBytes_def)
qed

lemma accept_plainFrame:
  assumes "plainFrame (op, payload, key)" "bufOpcode b = 0"
  shows "accept b \<lparr>Opcode = op, Payload = payload, Fin = True\<rparr> = (Inr (Some \<lparr>Opcode = op, Payload = payload, Fin = True\<rparr>), b)"
proof -
  consider "op = wsOpcodePing \<or> op = wsOpcodePong \<or> op = wsOpcodeClose" "\<not> length payload > 125"
    | "op = wsOpcodeText \<or> op = wsOpcodeBinary" "op \<noteq> wsOpcodePing" "op \<noteq> wsOpcodePong" "op \<noteq> wsOpcodeClose"
        "\<not> int (length payload) > maxWSMessageBytes"
    using assms(1) by (fastforce simp: plainFrame_def)
  then show ?thesis
    by cases (use assms(2) in \<open>simp_all only: accept_def wsFrame.select_convs simp_thms if_True if_False\<close>)
qed

definition openEngine :: "('s, 'g) exchange_env \<Rightarrow> relay_args \<Rightarrow> bool" where
  "openEngine x a \<longleftrightarrow>
     (case DecideHTTP (xEngine x) (relayQuery a None) of Inl _ \<Rightarrow> False | Inr dec \<Rightarrow> EngAllow dec \<and> \<not> EngAudit dec) \<and>
     \<not> operationChecked x a \<and> \<not> raRewrite a"

lemma relayText_open: "openEngine x a \<Longrightarrow> relayText x a p = Some (Some p, [])"
  by (auto simp: openEngine_def relayText_def authorizeText_def operationChecked_def split: sum.splits)

lemma relayFrame_plain:
  assumes "plainFrame (op, payload, key)" "openEngine x a" "rlSessions st = []"
  shows "\<exists>st'. relayFrame x ops a (\<lambda>_. False) \<lparr>Opcode = op, Payload = payload, Fin = True\<rparr> st = Some (True, st') \<and>
     rlEvents st' = rlEvents st @ [ToUpstream op payload] \<and> rlSessions st' = [] \<and> rlFragments st' = rlFragments st"
proof -
  consider "op = wsOpcodeText" | "op = wsOpcodeBinary" | "op = wsOpcodePing \<or> op = wsOpcodePong"
    using assms(1) by (auto simp: plainFrame_def)
  then show ?thesis
    by cases (use assms(2,3) in \<open>auto simp: relayFrame_def relayText_open sendUp_def emit_def Let_def\<close>)
qed

lemma relayClient_plain:
  "list_all plainFrame fs \<Longrightarrow> openEngine x a \<Longrightarrow> rlSessions st = [] \<Longrightarrow> bufOpcode (rlFragments st) = 0 \<Longrightarrow>
   \<exists>st'. relayClient x ops a (\<lambda>_. False) (concat (map clientBytes fs)) st = Some st' \<and>
     rlEvents st' = rlEvents st @ map upstreamEvent fs"
proof (induction fs arbitrary: st)
  case Nil
  then show ?case by (simp add: relayClient.simps readWSFrame_def readFull_def)
next
  case (Cons f fs)
  obtain op payload key where f: "f = (op, payload, key)" by (cases f)
  have pl: "plainFrame (op, payload, key)" using Cons.prems f by simp
  obtain st1 where fr: "relayFrame x ops a (\<lambda>_. False) \<lparr>Opcode = op, Payload = payload, Fin = True\<rparr> st = Some (True, st1)"
      "rlEvents st1 = rlEvents st @ [ToUpstream op payload]" "rlSessions st1 = []" "rlFragments st1 = rlFragments st"
    using relayFrame_plain [OF pl Cons.prems(2,3)] by blast
  obtain st' where "relayClient x ops a (\<lambda>_. False) (concat (map clientBytes fs)) st1 = Some st'"
      "rlEvents st' = rlEvents st1 @ map upstreamEvent fs"
    using Cons.IH [of st1] Cons.prems fr by auto
  moreover have "relayClient x ops a (\<lambda>_. False) (concat (map clientBytes (f # fs))) st =
      relayClient x ops a (\<lambda>_. False) (concat (map clientBytes fs)) st1"
    using readWSFrame_clientBytes [OF pl, of "concat (map clientBytes fs)"] accept_plainFrame [OF pl Cons.prems(4)] fr(1)
    by (subst relayClient.simps) (simp add: f)
  ultimately show ?case using fr(2) by (simp add: f upstreamEvent_def)
qed

section \<open>Properties\<close>

definition exampleEngine :: policy_engine where
  "exampleEngine =
     \<lparr>ProtocolMCP = ''mcp'', ProtocolJSONRPC = ''json-rpc'', ProtocolGraphQL = ''graphql'', ProtocolSQL = ''sql'',
      TLSTerminate = ''terminate'', TLSPassthrough = ''passthrough'',
      Decide = (\<lambda>_ _ _. Inl []),
      DecideHTTP = (\<lambda>q. Inr \<lparr>EngAllow = (qPath q = ''/chat''), EngReason = [], EngAudit = False, EngMatched = None\<rparr>)\<rparr>"

definition exampleExchange :: "(unit, unit) exchange_env" where
  "exampleExchange =
     \<lparr>xJSON = (\<lambda>_. None), xEnv = \<lparr>ContainsPlaceholder = (\<lambda>_. False), IndexPlaceholder = (\<lambda>_. None), ParsePlaceholder = (\<lambda>_. None),
        PlaceholderPrefix = ''cauteum:resolve:env:'', IsPassthrough = (\<lambda>_. False)\<rparr>, xMediaType = id, xEntries = (\<lambda>_. []), xEngine = exampleEngine, xPipeline = None,
      xSecrets = Map.empty, xGrants = \<lparr>grants = Map.empty, grantsEmpty = True, resolver = None\<rparr>\<rparr>"

definition exampleArgs :: relay_args where
  "exampleArgs =
     relayArgs ''WEBSOCKET_TEXT'' (\<lambda>_. False) (\<lambda>_. False) None ''h'' 443 ''/chat'' [] Map.empty"

definition exampleOps :: "unit relay_ops" where
  "exampleOps =
     \<lparr>StartSession = (\<lambda>s. (True, s)), MessageSession = (\<lambda>s sq payload txt. (Inr (True, payload), s)), EndSession = (\<lambda>_ s. s)\<rparr>"

definition exampleFrames :: "(byte \<times> byte list \<times> byte list option) list" where
  "exampleFrames = [(1, [104, 105], Some [1, 2, 3, 4]), (9, [], None)]"

text \<open>
  C33: Where the engine allows messages, no session inspects and nothing is rewritten, the upstream
  gets the frames of the client in order with opcode and payload unchanged, masked or not.
\<close>

theorem relay_is_transparent:
  assumes "list_all plainFrame fs" and "openEngine x a"
  shows "\<exists>run. relayWebsocket x ops a (\<lambda>_. False) clientFails (concat (map clientBytes fs)) fromUp [] = Some (Inr run) \<and>
           rlEvents (runClient run) = map upstreamEvent fs"
  using relayClient_plain [OF assms, of "\<lparr>rlFragments = \<lparr>bufOpcode = 0, bufPayload = []\<rparr>, rlSequence = 0, rlSessions = [], rlEvents = []\<rparr>" ops]
  by (auto simp: relayWebsocket_def)

theorem relay_is_transparent_witness:
  "\<exists>run. relayWebsocket exampleExchange exampleOps exampleArgs (\<lambda>_. False) (\<lambda>_. False) (concat (map clientBytes exampleFrames)) [] [] =
      Some (Inr run) \<and> rlEvents (runClient run) = [ToUpstream 1 [104, 105], ToUpstream 9 []]"
proof -
  have "list_all plainFrame exampleFrames" "openEngine exampleExchange exampleArgs"
    by code_simp+
  moreover have "map upstreamEvent exampleFrames = [ToUpstream 1 [104, 105], ToUpstream 9 []]"
    by code_simp
  ultimately show ?thesis
    using relay_is_transparent [of exampleFrames exampleExchange exampleArgs exampleOps] by metis
qed

end
