(* ===== verification/WS_Schedule.thy ===== *)
theory WS_Schedule
  imports WS_Relay
begin

text \<open>
  The scheduling of the WebSocket relay: the two directions of \<^verbatim>\<open>relayWebsocket\<close> take turns in any order, a frame
  at a time. When one has ended the sessions are closed, and after that the connections; until then
  the other direction goes on. What was sent and logged is a trace in the order of the turns.
\<close>

section \<open>Turns\<close>

text \<open>One turn of the client's direction: the bytes that are left unless the direction ends, and the state.\<close>

definition clientTurn ::
    "('s, 'g) exchange_env \<Rightarrow> 'm relay_ops \<Rightarrow> relay_args \<Rightarrow> (relay_event list \<Rightarrow> bool) \<Rightarrow> byte list \<Rightarrow> 'm relay_state \<Rightarrow>
       (byte list option \<times> 'm relay_state) option" where
  "clientTurn x ops a fails r st =
     (case readWSFrame r of
        Inl _ \<Rightarrow> Some (None, st)
      | Inr (fr, r') \<Rightarrow>
          (case accept (rlFragments st) fr of
             (Inl _, b) \<Rightarrow> Some (None, emit [protocolClose] (st\<lparr>rlFragments := b\<rparr>))
           | (Inr None, b) \<Rightarrow> Some (Some r', st\<lparr>rlFragments := b\<rparr>)
           | (Inr (Some logical), b) \<Rightarrow>
               map_option (\<lambda>(goOn, st'). (if goOn then Some r' else None, st'))
                 (relayFrame x ops a fails logical (st\<lparr>rlFragments := b\<rparr>))))"

definition upTurn :: "(relay_event list \<Rightarrow> bool) \<Rightarrow> byte list \<Rightarrow> relay_event list \<Rightarrow> byte list option \<times> relay_event list" where
  "upTurn fails r evs =
     (case readWSFrame r of
        Inl _ \<Rightarrow> (None, evs)
      | Inr (fr, r') \<Rightarrow>
          (let evs' = evs @ [ToClient (Opcode fr) (Payload fr)] in
           (if fails evs' \<or> Opcode fr = wsOpcodeClose then None else Some r', evs')))"

text \<open>The directions alone are the loops of \<^const>\<open>relayWebsocket\<close>.\<close>

lemma relayClient_turn:
  "relayClient x ops a fails r st =
     (case clientTurn x ops a fails r st of
        None \<Rightarrow> None
      | Some (None, st') \<Rightarrow> Some st'
      | Some (Some r', st') \<Rightarrow> relayClient x ops a fails r' st')"
  by (subst relayClient.simps) (auto simp: clientTurn_def split: sum.splits prod.splits option.splits)

lemma relayUpstream_turn:
  "relayUpstream fails r evs =
     (case upTurn fails r evs of (None, evs') \<Rightarrow> evs' | (Some r', evs') \<Rightarrow> relayUpstream fails r' evs')"
  by (subst relayUpstream.simps) (auto simp: upTurn_def Let_def split: sum.splits prod.splits)

section \<open>The schedule\<close>

text \<open>
  The bytes that each direction still has, nothing when it has ended; the state of the client's
  direction; and the trace, where an event is marked if the sessions had been closed before it.
\<close>

record 'm relay_sched =
  schClient :: "byte list option"
  schState :: "'m relay_state"
  schUp :: "byte list option"
  schUpEvents :: "relay_event list"
  schEnded :: bool
  schClosed :: bool
  schTrace :: "(bool \<times> relay_event) list"

datatype relay_turn = ClientTurn | UpstreamTurn | EndTurn | CloseTurn

definition marked :: "'m relay_sched \<Rightarrow> relay_event list \<Rightarrow> (bool \<times> relay_event) list" where
  "marked s evs = schTrace s @ map (Pair (schEnded s)) evs"

text \<open>\<^const>\<open>None\<close>: the turn is not possible.\<close>

definition schedTurn ::
    "('s, 'g) exchange_env \<Rightarrow> 'm relay_ops \<Rightarrow> relay_args \<Rightarrow> (relay_event list \<Rightarrow> bool) \<Rightarrow> (relay_event list \<Rightarrow> bool) \<Rightarrow>
       relay_turn \<Rightarrow> 'm relay_sched \<Rightarrow> 'm relay_sched option" where
  "schedTurn x ops a upFails clientFails t s =
     (if schClosed s then None
      else (case t of
        ClientTurn \<Rightarrow>
          Option.bind (schClient s) (\<lambda>r.
            map_option (\<lambda>(next, st').
                s\<lparr>schClient := next, schState := st', schTrace := marked s (drop (length (rlEvents (schState s))) (rlEvents st'))\<rparr>)
              (clientTurn x ops a upFails r (schState s)))
      | UpstreamTurn \<Rightarrow>
          map_option (\<lambda>r. case upTurn clientFails r (schUpEvents s) of
              (next, evs') \<Rightarrow>
                s\<lparr>schUp := next, schUpEvents := evs', schTrace := marked s (drop (length (schUpEvents s)) evs')\<rparr>)
            (schUp s)
      | EndTurn \<Rightarrow>
          (if \<not> schEnded s \<and> (schClient s = None \<or> schUp s = None)
           then Some (s\<lparr>schEnded := True,
                        schState := (schState s)\<lparr>rlSessions := map (EndSession ops ''session ended'') (rlSessions (schState s))\<rparr>\<rparr>)
           else None)
      | CloseTurn \<Rightarrow> if schEnded s then Some (s\<lparr>schClosed := True\<rparr>) else None))"

definition schedStep ::
    "('s, 'g) exchange_env \<Rightarrow> 'm relay_ops \<Rightarrow> relay_args \<Rightarrow> (relay_event list \<Rightarrow> bool) \<Rightarrow> (relay_event list \<Rightarrow> bool) \<Rightarrow>
       'm relay_sched \<Rightarrow> 'm relay_sched \<Rightarrow> bool" where
  "schedStep x ops a upFails clientFails s s' \<longleftrightarrow> (\<exists>t. schedTurn x ops a upFails clientFails t s = Some s')"

definition schedStart :: "byte list \<Rightarrow> byte list \<Rightarrow> 'm list \<Rightarrow> 'm relay_sched" where
  "schedStart fromClient fromUp ss =
     \<lparr>schClient = Some fromClient,
      schState = \<lparr>rlFragments = \<lparr>bufOpcode = 0, bufPayload = []\<rparr>, rlSequence = 0, rlSessions = ss, rlEvents = []\<rparr>,
      schUp = Some fromUp, schUpEvents = [], schEnded = False, schClosed = False, schTrace = []\<rparr>"

text \<open>The relay runs once all sessions have started.\<close>

definition schedInit :: "'m relay_ops \<Rightarrow> byte list \<Rightarrow> byte list \<Rightarrow> 'm list \<Rightarrow> 'm relay_sched \<Rightarrow> bool" where
  "schedInit ops fromClient fromUp sessions s \<longleftrightarrow>
     (\<exists>ss. startSessions ops sessions = (True, ss) \<and> s = schedStart fromClient fromUp ss)"

text \<open>A schedule as a list of turns.\<close>

fun schedTurns ::
    "('s, 'g) exchange_env \<Rightarrow> 'm relay_ops \<Rightarrow> relay_args \<Rightarrow> (relay_event list \<Rightarrow> bool) \<Rightarrow> (relay_event list \<Rightarrow> bool) \<Rightarrow>
       relay_turn list \<Rightarrow> 'm relay_sched \<Rightarrow> 'm relay_sched option" where
  "schedTurns x ops a upFails clientFails [] s = Some s"
| "schedTurns x ops a upFails clientFails (t # ts) s =
     Option.bind (schedTurn x ops a upFails clientFails t s) (schedTurns x ops a upFails clientFails ts)"

section \<open>Sessions that inspect\<close>

text \<open>
  The contract of a session that inspects. \<open>later s s'\<close>: \<open>s'\<close> is the same session at a later time. \<open>kept s0 s\<close>: \<open>s\<close> is the
  session that the relay got as \<open>s0\<close>, and if it does not inspect then for a reason that its contract admits.
  \<open>allows s sequence isText message out\<close>: the session, which \<open>s\<close> is after the message, let it pass as \<open>out\<close>.
\<close>

fun passedAll :: "('s \<Rightarrow> 64 word \<Rightarrow> bool \<Rightarrow> string \<Rightarrow> string \<Rightarrow> bool) \<Rightarrow> 's list \<Rightarrow> 64 word \<Rightarrow> bool \<Rightarrow> string \<Rightarrow> string \<Rightarrow> bool" where
  "passedAll allows [] sq txt msg out \<longleftrightarrow> out = msg"
| "passedAll allows (s # ss) sq txt msg out \<longleftrightarrow> (\<exists>m. allows s sq txt msg m \<and> passedAll allows ss sq txt m out)"

locale inspecting_sessions =
  fixes ops :: "'s relay_ops"
    and later :: "'s \<Rightarrow> 's \<Rightarrow> bool"
    and kept :: "'s \<Rightarrow> 's \<Rightarrow> bool"
    and allows :: "'s \<Rightarrow> 64 word \<Rightarrow> bool \<Rightarrow> string \<Rightarrow> string \<Rightarrow> bool"
  assumes later_refl: "later s s"
    and later_trans: "later s s' \<Longrightarrow> later s' s'' \<Longrightarrow> later s s''"
    and started: "StartSession ops s = (True, s') \<Longrightarrow> kept s s'"
    and passed: "kept s0 s \<Longrightarrow> MessageSession ops s sq msg txt = (Inr (True, out), s') \<Longrightarrow> allows s' sq txt msg out \<and> kept s0 s'"
    and messaged: "MessageSession ops s sq msg txt = (r, s') \<Longrightarrow> later s s'"
    and closed: "later s (EndSession ops reason s)"
begin

lemma laters_refl: "list_all2 later ss ss"
  by (simp add: list_all2_refl later_refl)

lemma laters_trans: "list_all2 later ss ss' \<Longrightarrow> list_all2 later ss' ss'' \<Longrightarrow> list_all2 later ss ss''"
  by (rule list_all2_trans [OF later_trans])

lemma laters_closed: "list_all2 later ss (map (EndSession ops reason) ss)"
  by (simp add: list_all2_conv_all_nth closed)

lemma startSessions_kept: "startSessions ops ss = (True, ss') \<Longrightarrow> list_all2 kept ss ss'"
  by (induction ss arbitrary: ss') (auto dest: started split: prod.splits bool.splits)

lemma inspectMessage_later: "inspectMessage ops sq txt ss msg = (r, ss') \<Longrightarrow> list_all2 later ss ss'"
proof (induction ss arbitrary: msg r ss')
  case (Cons s ss)
  obtain a s1 where m: "MessageSession ops s sq msg txt = (a, s1)" by fastforce
  then show ?case
    using Cons.prems Cons.IH messaged [OF m] laters_refl by (auto split: prod.splits sum.splits if_splits)
qed simp

lemma inspectMessage_passed:
  "inspectMessage ops sq txt ss msg = (Some out, ss') \<Longrightarrow> list_all2 kept ks ss \<Longrightarrow> passedAll allows ss' sq txt msg out \<and> list_all2 kept ks ss'"
proof (induction ss arbitrary: ks msg ss')
  case (Cons s ss)
  obtain m s1 ss1 where m: "MessageSession ops s sq msg txt = (Inr (True, m), s1)" "inspectMessage ops sq txt ss m = (Some out, ss1)" "ss' = s1 # ss1"
    using Cons.prems(1) by (auto split: prod.splits sum.splits if_splits)
  obtain k ks1 where "ks = k # ks1" "kept k s" "list_all2 kept ks1 ss"
    using Cons.prems(2) by (auto simp: list_all2_Cons2)
  then show ?case using passed [of k s sq msg "txt" m s1] Cons.IH [OF m(2)] m by auto
qed simp

text \<open>
  A frame whose message every session let pass, and the engine where it is a text. The sessions are those
  of the relay, at the time of the message: \<open>ks\<close> as it got them and \<open>now\<close> as they are.
\<close>

definition frameInspected :: "('e, 'g) exchange_env \<Rightarrow> relay_args \<Rightarrow> 's list \<Rightarrow> 's list \<Rightarrow> byte \<Rightarrow> byte list \<Rightarrow> bool" where
  "frameInspected x a ks now op out \<longleftrightarrow>
     (op = wsOpcodeText \<longrightarrow>
        (\<exists>sq ss msg m. list_all2 kept ks ss \<and> list_all2 later ss now \<and> passedAll allows ss sq True msg m \<and>
           textCleared x a m \<and> textRewritten x a m (bytesString out))) \<and>
     (op = wsOpcodeBinary \<longrightarrow>
        (\<exists>sq ss msg. list_all2 kept ks ss \<and> list_all2 later ss now \<and> passedAll allows ss sq False msg (bytesString out)))"

fun eventInspected :: "('e, 'g) exchange_env \<Rightarrow> relay_args \<Rightarrow> 's list \<Rightarrow> 's list \<Rightarrow> relay_event \<Rightarrow> bool" where
  "eventInspected x a ks now (ToUpstream op out) \<longleftrightarrow> frameInspected x a ks now op out"
| "eventInspected x a ks now _ \<longleftrightarrow> True"

lemma frameInspected_later: "frameInspected x a ks ss op out \<Longrightarrow> list_all2 later ss now \<Longrightarrow> frameInspected x a ks now op out"
  unfolding frameInspected_def by (blast intro: laters_trans)

lemma eventInspected_later: "eventInspected x a ks ss ev \<Longrightarrow> list_all2 later ss now \<Longrightarrow> eventInspected x a ks now ev"
  by (cases ev) (auto intro: frameInspected_later)

lemma events_not_upstream_inspected: "\<not> list_ex isToUpstream evs \<Longrightarrow> list_all (eventInspected x a ks now) evs"
  by (induction evs) (auto elim: isToUpstream.elims)

lemma sendUp_inspected:
  "sendUp fails op p st = (goOn, st') \<Longrightarrow> frameInspected x a ks now op p \<Longrightarrow>
   \<exists>evs. rlEvents st' = rlEvents st @ evs \<and> list_all (eventInspected x a ks now) evs"
  by (auto simp: sendUp_def Let_def)

lemma sendUp_sessions: "sendUp fails op p st = (goOn, st') \<Longrightarrow> rlSessions st' = rlSessions st"
  by (auto simp: sendUp_def emit_def Let_def)

text \<open>What a step of the client's direction does: it adds inspected events, and the sessions stay attached while it goes on.\<close>

definition directionStep :: "('e, 'g) exchange_env \<Rightarrow> relay_args \<Rightarrow> 's list \<Rightarrow> bool \<Rightarrow> 's relay_state \<Rightarrow> 's relay_state \<Rightarrow> bool" where
  "directionStep x a ks goOn st st' \<longleftrightarrow>
     (\<exists>evs. rlEvents st' = rlEvents st @ evs \<and> list_all (eventInspected x a ks (rlSessions st')) evs) \<and>
     (goOn \<longrightarrow> list_all2 kept ks (rlSessions st'))"

lemma relayFrame_later: "relayFrame x ops a fails fr st = Some (goOn, st') \<Longrightarrow> list_all2 later (rlSessions st) (rlSessions st')"
  using inspectMessage_later [of "rlSequence st + 1" "Opcode fr = wsOpcodeText" "rlSessions st" "bytesString (Payload fr)"]
  by (cases "inspectMessage ops (rlSequence st + 1) (Opcode fr = wsOpcodeText) (rlSessions st) (bytesString (Payload fr))")
    (auto simp: relayFrame_def sendUp_def emit_def Let_def laters_refl split: if_splits option.splits)

lemma relayFrame_inspected:
  assumes "relayFrame x ops a fails fr st = Some (goOn, st')" "list_all2 kept ks (rlSessions st)"
  shows "directionStep x a ks goOn st st'"
proof -
  obtain passed ss where ins: "inspectMessage ops (rlSequence st + 1) (Opcode fr = wsOpcodeText) (rlSessions st) (bytesString (Payload fr)) = (passed, ss)"
    by fastforce
  define st1 where "st1 = st\<lparr>rlSequence := rlSequence st + 1, rlSessions := ss\<rparr>"
  have st1: "rlEvents st1 = rlEvents st" "rlSessions st1 = ss" by (simp_all add: st1_def)
  note eq = assms(1) [unfolded relayFrame_def Let_def ins fst_conv snd_conv, folded st1_def]
  consider (dropped) "Opcode fr = wsOpcodeText \<or> Opcode fr = wsOpcodeBinary" "passed = None"
    | (plain) p where "Opcode fr = wsOpcodeText" "passed = Some p"
    | (bin) p where "Opcode fr = wsOpcodeBinary" "passed = Some p"
    | (other) "Opcode fr \<noteq> wsOpcodeText" "Opcode fr \<noteq> wsOpcodeBinary"
    by (cases passed) auto
  then show ?thesis
  proof cases
    case dropped
    then show ?thesis using eq st1 by (auto simp: policyClose_def directionStep_def split: if_splits)
  next
    case (plain p)
    note pass = inspectMessage_passed [OF ins [unfolded plain(2)] assms(2)]
    obtain r evs where r: "relayText x a (stringBytes p) = Some (r, evs)"
      and st': "(case r of None \<Rightarrow> (False, emit evs st1) | Some out \<Rightarrow> sendUp fails (Opcode fr) out (emit evs st1)) = (goOn, st')"
      using eq plain by auto
    note evs = events_not_upstream_inspected [OF relayText_events [OF r], of x a ks ss]
    show ?thesis
    proof (cases r)
      case None
      then show ?thesis using st' evs st1 by (auto simp: directionStep_def emit_def)
    next
      case (Some out)
      have "frameInspected x a ks ss wsOpcodeText out"
        using relayText_cleared [OF r [unfolded Some]] pass plain(1) laters_refl unfolding frameInspected_def by auto
      moreover have send: "sendUp fails wsOpcodeText out (emit evs st1) = (goOn, st')" using st' Some plain(1) by simp
      ultimately obtain evs' where "rlEvents st' = rlEvents (emit evs st1) @ evs'" "list_all (eventInspected x a ks ss) evs'"
        using sendUp_inspected by blast
      moreover have "rlSessions st' = ss" using sendUp_sessions [OF send] st1 by (simp add: emit_def)
      ultimately show ?thesis using evs st1 pass unfolding directionStep_def by (intro conjI exI [of _ "evs @ evs'"]) simp_all
    qed
  next
    case (bin p)
    note pass = inspectMessage_passed [OF ins [unfolded bin(2)] assms(2)]
    have "frameInspected x a ks ss wsOpcodeBinary (stringBytes p)"
      using pass bin(1) laters_refl unfolding frameInspected_def by auto
    moreover have send: "sendUp fails wsOpcodeBinary (stringBytes p) st1 = (goOn, st')" using eq bin by simp
    ultimately show ?thesis using sendUp_inspected sendUp_sessions [OF send] st1 pass unfolding directionStep_def by fastforce
  next
    case other
    then have "frameInspected x a ks (rlSessions st) (Opcode fr) (Payload fr)" by (simp add: frameInspected_def)
    then show ?thesis
      using eq other assms(2) sendUp_inspected [of fails _ "Payload fr" st] sendUp_sessions [of fails _ "Payload fr" st]
      unfolding directionStep_def
      by (cases "sendUp fails (Opcode fr) (Payload fr) st") (fastforce split: if_splits)
  qed
qed

lemma clientTurn_later:
  "clientTurn x ops a fails r st = Some (left, st') \<Longrightarrow> list_all2 later (rlSessions st) (rlSessions st')"
  by (auto simp: clientTurn_def emit_def laters_refl dest!: relayFrame_later split: sum.splits prod.splits option.splits)

lemma clientTurn_inspected:
  assumes "clientTurn x ops a fails r st = Some (left, st')" "list_all2 kept ks (rlSessions st)"
  shows "directionStep x a ks (left \<noteq> None) st st'"
proof (cases "readWSFrame r")
  case (Inr z)
  obtain fr r' where z: "z = (fr, r')" by (cases z)
  obtain v b where acc: "accept (rlFragments st) fr = (v, b)" by (cases "accept (rlFragments st) fr")
  note step = assms(1) [unfolded clientTurn_def Inr z acc sum.case prod.case]
  consider (err) e where "v = Inl e" | (wait) "v = Inr None" | (frame) l where "v = Inr (Some l)"
    by (cases v rule: sum.exhaust) (blast, metis not_None_eq)
  then show ?thesis
  proof cases
    case (frame l)
    then obtain goOn where "relayFrame x ops a fails l (st\<lparr>rlFragments := b\<rparr>) = Some (goOn, st')" "left = (if goOn then Some r' else None)"
      using step by auto
    from relayFrame_inspected [OF this(1), of ks] this(2) assms(2) show ?thesis by (auto simp: directionStep_def)
  qed (use step assms(2) in \<open>auto simp: protocolClose_def directionStep_def\<close>)
qed (use assms in \<open>auto simp: clientTurn_def directionStep_def\<close>)

text \<open>The invariant of the relay: what was sent before the end was inspected, by sessions that are still attached.\<close>

definition schedInv :: "('e, 'g) exchange_env \<Rightarrow> relay_args \<Rightarrow> 's list \<Rightarrow> 's relay_sched \<Rightarrow> bool" where
  "schedInv x a ks s \<longleftrightarrow>
     list_all (\<lambda>(late, ev). \<not> late \<longrightarrow> eventInspected x a ks (rlSessions (schState s)) ev) (schTrace s) \<and>
     (\<not> schEnded s \<and> schClient s \<noteq> None \<longrightarrow> list_all2 kept ks (rlSessions (schState s)))"

lemma schedInv_init: "schedInit ops fromClient fromUp sessions s \<Longrightarrow> schedInv x a sessions s"
  by (auto simp: schedInit_def schedStart_def schedInv_def startSessions_kept)

lemma marked_inspected:
  assumes "schedInv x a ks s" "list_all2 later (rlSessions (schState s)) now" "\<not> schEnded s \<Longrightarrow> list_all (eventInspected x a ks now) evs"
  shows "list_all (\<lambda>(late, ev). \<not> late \<longrightarrow> eventInspected x a ks now ev) (marked s evs)"
  using assms eventInspected_later [OF _ assms(2)] by (fastforce simp: schedInv_def marked_def list_all_iff)

lemma upTurn_events: "upTurn fails r evs = (left, evs') \<Longrightarrow> \<exists>new. evs' = evs @ new \<and> list_all (eventInspected x a ks now) new"
  by (auto simp: upTurn_def Let_def split: sum.splits)

lemma schedInv_turn:
  assumes "schedTurn x ops a upFails clientFails t s = Some s'" "schedInv x a ks s"
  shows "schedInv x a ks s'"
proof (cases t)
  case ClientTurn
  then obtain r left st' where t: "schClient s = Some r" "clientTurn x ops a upFails r (schState s) = Some (left, st')"
      "s' = s\<lparr>schClient := left, schState := st', schTrace := marked s (drop (length (rlEvents (schState s))) (rlEvents st'))\<rparr>"
    using assms(1) by (auto simp: schedTurn_def bind_eq_Some_conv split: if_splits)
  note trace = marked_inspected [OF assms(2) clientTurn_later [OF t(2)]]
  show ?thesis
  proof (cases "schEnded s")
    case False
    then have "list_all2 kept ks (rlSessions (schState s))" using assms(2) t(1) by (simp add: schedInv_def)
    from clientTurn_inspected [OF t(2) this] trace show ?thesis
      by (auto simp: t(3) schedInv_def directionStep_def)
  qed (use trace in \<open>simp add: t(3) schedInv_def\<close>)
next
  case UpstreamTurn
  then obtain r left evs' where t: "schUp s = Some r" "upTurn clientFails r (schUpEvents s) = (left, evs')"
      "s' = s\<lparr>schUp := left, schUpEvents := evs', schTrace := marked s (drop (length (schUpEvents s)) evs')\<rparr>"
    using assms(1) by (cases "upTurn clientFails (the (schUp s)) (schUpEvents s)") (auto simp: schedTurn_def split: if_splits)
  obtain new where "evs' = schUpEvents s @ new" "list_all (eventInspected x a ks (rlSessions (schState s))) new"
    using upTurn_events [OF t(2)] by blast
  with marked_inspected [OF assms(2) laters_refl, of new] assms(2) show ?thesis
    by (auto simp: t(3) schedInv_def)
next
  case EndTurn
  then have "s' = s\<lparr>schEnded := True, schState := (schState s)\<lparr>rlSessions := map (EndSession ops ''session ended'') (rlSessions (schState s))\<rparr>\<rparr>"
    using assms(1) by (auto simp: schedTurn_def split: if_splits)
  with marked_inspected [OF assms(2) laters_closed, of "''session ended''" "[]"] show ?thesis by (simp add: schedInv_def marked_def)
qed (use assms in \<open>auto simp: schedTurn_def schedInv_def split: if_splits\<close>)

text \<open>A run of the relay, as a list of turns.\<close>

lemma schedTurns_inspected: "schedTurns x ops a upFails clientFails ts s = Some s' \<Longrightarrow> schedInv x a ks s \<Longrightarrow> schedInv x a ks s'"
  by (induction ts arbitrary: s) (auto simp: bind_eq_Some_conv dest: schedInv_turn)

end

section \<open>The sessions of the middleware service\<close>

text \<open>The same session later: its log has grown.\<close>

definition grpcLater :: "grpc_session \<Rightarrow> grpc_session \<Rightarrow> bool" where
  "grpcLater s s' \<longleftrightarrow>
     sesStage s' = sesStage s \<and> sesStream s' = sesStream s \<and> sesReq s' = sesReq s \<and> (\<exists>evs. sesSent s' = sesSent s @ evs)"

text \<open>
  A service fails on a message when it cannot be sent or has no answer with a verdict on it. A session that
  fails open and was not answered once is closed. No other session that was open is.
\<close>

definition serviceFailed :: "ws_stream \<Rightarrow> ws_event list \<Rightarrow> int \<Rightarrow> bool \<Rightarrow> string \<Rightarrow> bool" where
  "serviceFailed st hist sq txt msg \<longleftrightarrow>
     wsSendFails st hist (WsMessage sq txt msg) \<or>
     (\<forall>d r. wsRecv st (hist @ [WsMessage sq txt msg]) = Some (WsMessageResult sq d r) \<longrightarrow> d \<noteq> DecisionAllow \<and> d \<noteq> DecisionDeny)"

definition failedOpen :: "grpc_session \<Rightarrow> bool" where
  "failedOpen s \<longleftrightarrow>
     \<not> gsFailClosed (sesStage s) \<and> (\<exists>hist evs sq txt msg. sesSent s = hist @ evs \<and> serviceFailed (sesStream s) hist sq txt msg)"

definition grpcKept :: "grpc_session \<Rightarrow> grpc_session \<Rightarrow> bool" where
  "grpcKept s0 s \<longleftrightarrow> grpcLater s0 s \<and> (sesClosed s \<longrightarrow> sesClosed s0 \<or> failedOpen s)"

text \<open>
  The service answered the message, as the last event of the session, with an approval; or the session is
  closed and the message is handed on as it is.
\<close>

definition serviceAllowed :: "grpc_session \<Rightarrow> 64 word \<Rightarrow> bool \<Rightarrow> string \<Rightarrow> string \<Rightarrow> bool" where
  "serviceAllowed s sq txt msg out \<longleftrightarrow>
     (\<exists>hist repl. sesSent s = hist @ [WsMessage (uint sq) txt msg] \<and>
        wsRecv (sesStream s) (sesSent s) = Some (WsMessageResult (uint sq) DecisionAllow repl) \<and> out = replacedPayload txt repl msg)"

definition sessionPassed :: "grpc_session \<Rightarrow> 64 word \<Rightarrow> bool \<Rightarrow> string \<Rightarrow> string \<Rightarrow> bool" where
  "sessionPassed s sq txt msg out \<longleftrightarrow> \<not> sesClosed s \<and> serviceAllowed s sq txt msg out \<or> sesClosed s \<and> out = msg"

lemma grpcLater_trans: "grpcLater s s' \<Longrightarrow> grpcLater s' s'' \<Longrightarrow> grpcLater s s''"
  by (auto simp: grpcLater_def)

lemma grpcLater_close: "grpcLater s (grpcClose s)"
  by (auto simp: grpcLater_def grpcClose_def wsSend_def Let_def)

lemma grpcMessage_later: "grpcMessage s sq msg txt = (r, s') \<Longrightarrow> grpcLater s s'"
  by (auto simp: grpcMessage_def failMessage_def wsSend_def grpcClose_def grpcLater_def Let_def split: if_splits option.splits ws_result.splits)

lemma grpcMessage_cases:
  assumes "grpcMessage s sq msg txt = (Inr (True, out), s')"
  shows "sesClosed s \<and> s' = s \<and> out = msg \<or>
     \<not> sesClosed s' \<and> sesSent s' = sesSent s @ [WsMessage sq txt msg] \<and> sesStream s' = sesStream s \<and>
       (\<exists>r. wsRecv (sesStream s) (sesSent s') = Some (WsMessageResult sq DecisionAllow r) \<and> out = replacedPayload txt r msg) \<or>
     sesClosed s' \<and> out = msg \<and> \<not> gsFailClosed (sesStage s) \<and> serviceFailed (sesStream s) (sesSent s) sq txt msg"
  using assms
  by (auto simp: grpcMessage_def failMessage_def wsSend_def grpcClose_def serviceFailed_def Let_def
      split: if_splits option.splits ws_result.splits)

lemma grpcMessage_passed:
  assumes "grpcKept s0 s" "grpcMessage s (uint sq) msg txt = (Inr (True, out), s')"
  shows "sessionPassed s' sq txt msg out \<and> grpcKept s0 s'"
proof -
  have later: "grpcLater s s'" "grpcLater s0 s'"
    using assms grpcMessage_later grpcLater_trans by (auto simp: grpcKept_def)
  show ?thesis
    using grpcMessage_cases [OF assms(2)]
  proof (elim disjE conjE exE)
    assume "sesClosed s'" "out = msg" "\<not> gsFailClosed (sesStage s)" "serviceFailed (sesStream s) (sesSent s) (uint sq) txt msg"
    then show ?thesis using later by (auto simp: sessionPassed_def grpcKept_def failedOpen_def grpcLater_def)
  qed (use assms(1) later in \<open>auto simp: sessionPassed_def grpcKept_def serviceAllowed_def\<close>)
qed

interpretation grpc_relay: inspecting_sessions grpcRelayOps grpcLater grpcKept sessionPassed
proof unfold_locales
  show "StartSession grpcRelayOps s = (True, s') \<Longrightarrow> grpcKept s s'" for s s'
    by (auto simp: grpcRelayOps_def grpcStart_def wsSend_def grpcKept_def grpcLater_def split: if_splits option.splits)
qed (auto simp: grpcRelayOps_def intro: grpcLater_trans grpcLater_close grpcMessage_later simp: grpcMessage_passed,
     auto simp: grpcLater_def)

interpretation relay: invariant_system "schedInit grpcRelayOps fromClient fromUp sessions"
  "schedStep x grpcRelayOps a upFails clientFails" "grpc_relay.schedInv x a sessions"
  for sessions fromClient fromUp x a upFails clientFails
  by unfold_locales (auto simp: schedStep_def intro: grpc_relay.schedInv_init grpc_relay.schedInv_turn)

text \<open>
  A frame that was inspected: every session that was opened, \<open>opened\<close>, let its
  message pass, at a time of which the sessions \<open>now\<close> have the log, and the engine cleared it if it is a text.
\<close>

definition frameCleared :: "('s, 'g) exchange_env \<Rightarrow> relay_args \<Rightarrow> grpc_session list \<Rightarrow> grpc_session list \<Rightarrow> byte \<Rightarrow> byte list \<Rightarrow> bool" where
  "frameCleared x a opened now op out \<longleftrightarrow>
     (op = wsOpcodeText \<longrightarrow>
        (\<exists>sq ss msg m. list_all2 grpcKept opened ss \<and> list_all2 grpcLater ss now \<and> passedAll sessionPassed ss sq True msg m \<and>
           textCleared x a m \<and> textRewritten x a m (bytesString out))) \<and>
     (op = wsOpcodeBinary \<longrightarrow>
        (\<exists>sq ss msg. list_all2 grpcKept opened ss \<and> list_all2 grpcLater ss now \<and> passedAll sessionPassed ss sq False msg (bytesString out)))"

lemma schedInv_frameCleared:
  "grpc_relay.schedInv x a opened s \<Longrightarrow> (False, ToUpstream op out) \<in> set (schTrace s) \<Longrightarrow>
   frameCleared x a opened (rlSessions (schState s)) op out"
  unfolding frameCleared_def by (fastforce simp: grpc_relay.schedInv_def list_all_iff grpc_relay.frameInspected_def)

lemma schedTurns_cleared:
  assumes "schedTurns x grpcRelayOps a upFails clientFails ts (schedStart fromClient fromUp ss) = Some s"
    and "startSessions grpcRelayOps opened = (True, ss)" and "(False, ToUpstream op out) \<in> set (schTrace s)"
  shows "frameCleared x a opened (rlSessions (schState s)) op out"
proof -
  have "schedInit grpcRelayOps fromClient fromUp opened (schedStart fromClient fromUp ss)"
    using assms(2) by (auto simp: schedInit_def)
  then have "grpc_relay.schedInv x a opened s"
    using grpc_relay.schedTurns_inspected [OF assms(1)] grpc_relay.schedInv_init by blast
  then show ?thesis using assms(3) by (rule schedInv_frameCleared)
qed

text \<open>A closed session lets everything pass.\<close>

lemma inspectMessage_closed:
  "list_all sesClosed ss \<Longrightarrow> inspectMessage grpcRelayOps sq txt ss msg = (Some msg, ss)"
  by (induction ss) (auto simp: grpcRelayOps_def grpcMessage_def)

lemma ended_closed: "list_all sesClosed (map (EndSession grpcRelayOps reason) ss)"
  by (induction ss) (auto simp: grpcRelayOps_def grpcClose_def wsSend_def Let_def split: option.splits)

section \<open>Properties\<close>

text \<open>
  C4: Whatever the order in which the two directions take their turns, and whatever bytes they read: for
  a text frame that reaches the upstream before the sessions are closed there is a message that passed
  every session that the upgrade opened, in their order, and that the policy engine or the GraphQL
  control protocol cleared; what is sent is what the sessions left of it, as it is or with placeholders
  replaced from a store of bound keys. A binary frame is what the sessions left of such a message. A
  session passed it when its service approved it, as the last event that it had been sent, or when the
  session was closed and left it as it was; a session is closed before the relay ends only if it was opened
  so or if it fails open and its service could not be sent a message or gave no verdict on it. So every
  session that is opened to inspect and fails closed has approved the message. The logs of the sessions
  are those of the run.
\<close>

theorem relayed_frames_inspected:
  assumes "reached (schedInit grpcRelayOps fromClient fromUp sessions) (schedStep x grpcRelayOps a upFails clientFails) s"
    and "(False, ToUpstream op out) \<in> set (schTrace s)"
  shows "(op = wsOpcodeText \<longrightarrow>
       (\<exists>sq ss msg m. list_all2 grpcKept sessions ss \<and> list_all2 grpcLater ss (rlSessions (schState s)) \<and>
          passedAll sessionPassed ss sq True msg m \<and> textCleared x a m \<and> textRewritten x a m (bytesString out))) \<and>
     (op = wsOpcodeBinary \<longrightarrow>
       (\<exists>sq ss msg. list_all2 grpcKept sessions ss \<and> list_all2 grpcLater ss (rlSessions (schState s)) \<and>
          passedAll sessionPassed ss sq False msg (bytesString out)))"
  using schedInv_frameCleared [OF relay.holds [OF assms(1)] assms(2)] unfolding frameCleared_def .

text \<open>A service that allows every message but \<^verbatim>\<open>secret\<close>.\<close>

definition exampleStage :: grpc_stage where
  "exampleStage = \<lparr>gsName = ''guard'', gsTimeout = 500, gsFailClosed = True, gsMaxPayload = 0, gsInclude = [], gsExclude = []\<rparr>"

definition exampleStream :: ws_stream where
  "exampleStream =
     \<lparr>wsOpens = True, wsSendFails = (\<lambda>_ _. False),
      wsRecv = (\<lambda>evs. case last evs of
          WsMessage sq isText msg \<Rightarrow>
            Some (WsMessageResult sq (if msg = ''secret'' then DecisionDeny else DecisionAllow) NoReplacement)
        | _ \<Rightarrow> None)\<rparr>"

definition exampleSession :: grpc_session where
  "exampleSession =
     \<lparr>sesStage = exampleStage, sesStream = exampleStream,
      sesReq = \<lparr>SessionID = ''1'', WsScheme = ''wss'', WsHost = ''h'', WsPort = 443, WsPath = ''/chat'', RequestedSubprotocols = []\<rparr>,
      sesClosed = False, sesSent = []\<rparr>"

lemma schedTurns_reached:
  "schedTurns x ops a upFails clientFails ts s = Some s' \<Longrightarrow> reached init (schedStep x ops a upFails clientFails) s \<Longrightarrow>
   reached init (schedStep x ops a upFails clientFails) s'"
proof (induction ts arbitrary: s)
  case (Cons t ts)
  then obtain s1 where "schedTurn x ops a upFails clientFails t s = Some s1" "schedTurns x ops a upFails clientFails ts s1 = Some s'"
    by (auto simp: bind_eq_Some_conv)
  then show ?case
    using Cons.IH [of s1] reached.move [OF Cons.prems(2)] by (auto simp: schedStep_def)
qed simp

theorem relayed_frames_inspected_witness:
  "\<exists>s ss sq msg. reached (schedInit grpcRelayOps (clientBytes (2, [104, 105], None)) [] [exampleSession])
      (schedStep exampleExchange grpcRelayOps exampleArgs (\<lambda>_. False) (\<lambda>_. False)) s \<and>
     (False, ToUpstream wsOpcodeBinary [104, 105]) \<in> set (schTrace s) \<and> list_all2 grpcKept [exampleSession] ss \<and>
     list_all2 grpcLater ss (rlSessions (schState s)) \<and> passedAll sessionPassed ss sq False msg (bytesString [104, 105])"
proof -
  let ?bytes = "clientBytes (2, [104, 105], None)"
  let ?init = "schedInit grpcRelayOps ?bytes [] [exampleSession]"
  let ?step = "schedStep exampleExchange grpcRelayOps exampleArgs (\<lambda>_. False) (\<lambda>_. False)"
  define ss where "ss = snd (startSessions grpcRelayOps [exampleSession])"
  have "fst (startSessions grpcRelayOps [exampleSession])"
    by code_simp
  then have "?init (schedStart ?bytes [] ss)"
    by (auto simp: schedInit_def ss_def prod_eq_iff)
  then have r: "reached ?init ?step (schedStart ?bytes [] ss)"
    by (rule reached.start)
  have "map_option schTrace (schedTurns exampleExchange grpcRelayOps exampleArgs (\<lambda>_. False) (\<lambda>_. False) [ClientTurn]
      (schedStart ?bytes [] ss)) = Some [(False, ToUpstream 2 [104, 105])]"
    unfolding ss_def by code_simp
  then obtain s where s: "reached ?init ?step s" "(False, ToUpstream wsOpcodeBinary [104, 105]) \<in> set (schTrace s)"
    using schedTurns_reached [OF _ r] by (fastforce simp: wsOpcodeBinary_def)
  from relayed_frames_inspected [OF s] obtain sq ss msg where
    "list_all2 grpcKept [exampleSession] ss" "list_all2 grpcLater ss (rlSessions (schState s))"
    "passedAll sessionPassed ss sq False msg (bytesString [104, 105])"
    by blast
  then show ?thesis using s by blast
qed

text \<open>No session has been sent another message.\<close>

definition wsMessages :: "grpc_session \<Rightarrow> ws_event list" where
  "wsMessages s = filter (\<lambda>ev. case ev of WsMessage _ _ _ \<Rightarrow> True | _ \<Rightarrow> False) (sesSent s)"

lemma wsMessages_start: "StartSession grpcRelayOps s = (True, s') \<Longrightarrow> wsMessages s' = wsMessages s"
  by (auto simp: grpcRelayOps_def grpcStart_def wsSend_def wsMessages_def split: if_splits option.splits)

lemma wsMessages_end: "wsMessages (EndSession grpcRelayOps reason s) = wsMessages s"
  by (auto simp: grpcRelayOps_def grpcClose_def wsSend_def wsMessages_def Let_def split: option.splits)

lemma wsMessages_started: "startSessions grpcRelayOps sessions = (True, ss) \<Longrightarrow> map wsMessages ss = map wsMessages sessions"
  by (induction sessions arbitrary: ss) (auto dest: wsMessages_start split: prod.splits bool.splits)

lemma upTurn_close:
  "upTurn fails (clientBytes (wsOpcodeClose, [], None)) evs = (None, evs @ [ToClient wsOpcodeClose []])"
proof -
  have "readWSFrame (clientBytes (wsOpcodeClose, [], None)) = Inr (\<lparr>Opcode = wsOpcodeClose, Payload = [], Fin = True\<rparr>, [])"
    by code_simp
  then show ?thesis by (simp add: upTurn_def Let_def)
qed

lemma clientTurn_closed:
  assumes "plainFrame (wsOpcodeBinary, payload, key)" "bufOpcode (rlFragments st) = 0" "list_all sesClosed (rlSessions st)"
  shows "\<exists>left st'. clientTurn x grpcRelayOps a fails (clientBytes (wsOpcodeBinary, payload, key)) st = Some (left, st') \<and>
     rlEvents st' = rlEvents st @ [ToUpstream wsOpcodeBinary payload] \<and> rlSessions st' = rlSessions st"
  using readWSFrame_clientBytes [OF assms(1), of "[]"] accept_plainFrame [OF assms(1,2)] inspectMessage_closed [OF assms(3)]
  by (auto simp: clientTurn_def relayFrame_def sendUp_def emit_def Let_def)

text \<open>
  C34: The relay has a schedule that forwards a binary message that no session has seen: the upstream
  ends its direction with a close frame, the sessions are closed, and the client's direction, which
  still runs, takes a closed session for one that lets everything pass. It does not matter what the
  services would have answered.
\<close>

theorem late_frame_uninspected:
  assumes "startSessions grpcRelayOps sessions = (True, ss)" and "plainFrame (wsOpcodeBinary, payload, key)"
  shows "\<exists>s. reached (schedInit grpcRelayOps (clientBytes (wsOpcodeBinary, payload, key)) (clientBytes (wsOpcodeClose, [], None)) sessions)
       (schedStep x grpcRelayOps a upFails clientFails) s \<and>
     (True, ToUpstream wsOpcodeBinary payload) \<in> set (schTrace s) \<and>
     map wsMessages (rlSessions (schState s)) = map wsMessages sessions"
proof -
  let ?c = "clientBytes (wsOpcodeBinary, payload, key)" and ?u = "clientBytes (wsOpcodeClose, [], None)"
  let ?s0 = "schedStart ?c ?u ss"
  let ?ended = "map (EndSession grpcRelayOps ''session ended'') ss"
  let ?st = "(schState ?s0)\<lparr>rlSessions := ?ended\<rparr>"
  obtain left st' where st': "clientTurn x grpcRelayOps a upFails ?c ?st = Some (left, st')"
      "rlEvents st' = rlEvents ?st @ [ToUpstream wsOpcodeBinary payload]" "rlSessions st' = ?ended"
    using clientTurn_closed [OF assms(2), of ?st x a upFails] ended_closed by (auto simp: schedStart_def)
  obtain s where s: "schedTurns x grpcRelayOps a upFails clientFails [UpstreamTurn, EndTurn, ClientTurn] ?s0 = Some s"
      "(True, ToUpstream wsOpcodeBinary payload) \<in> set (schTrace s)" "schState s = st'"
    using st' by (simp add: schedTurn_def schedStart_def upTurn_close marked_def)
  have "reached (schedInit grpcRelayOps ?c ?u sessions) (schedStep x grpcRelayOps a upFails clientFails) ?s0"
    by (rule reached.start) (use assms(1) in \<open>auto simp: schedInit_def\<close>)
  from schedTurns_reached [OF s(1) this] s st'(3) wsMessages_started [OF assms(1)] show ?thesis
    by (auto simp: wsMessages_end comp_def)
qed

theorem late_frame_uninspected_witness:
  "\<exists>s. reached (schedInit grpcRelayOps (clientBytes (2, stringBytes ''secret'', None)) (clientBytes (8, [], None)) [exampleSession])
       (schedStep exampleExchange grpcRelayOps exampleArgs (\<lambda>_. False) (\<lambda>_. False)) s \<and>
     (True, ToUpstream 2 (stringBytes ''secret'')) \<in> set (schTrace s) \<and> map wsMessages (rlSessions (schState s)) = [[]]"
proof -
  have "fst (startSessions grpcRelayOps [exampleSession])" "plainFrame (wsOpcodeBinary, stringBytes ''secret'', None)"
    "map wsMessages [exampleSession] = [[]]"
    by code_simp+
  then show ?thesis
    using late_frame_uninspected [of "[exampleSession]" "snd (startSessions grpcRelayOps [exampleSession])" "stringBytes ''secret''" None
        exampleExchange exampleArgs "\<lambda>_. False" "\<lambda>_. False"]
    by (simp add: prod_eq_iff wsOpcodeBinary_def wsOpcodeClose_def)
qed

end
