(* ===== verification/Token_Runtime.thy ===== *)
theory Token_Runtime
  imports Ssrf Go_Glob Go_Json L7_Query "HOL-Library.List_Lexorder" "HOL-Library.Char_ord"
begin

text \<open>
  The exchange behind the token grants, \<^verbatim>\<open>proxy/token_grant_runtime.go\<close>: the target of a grant, the SPIFFE
  identity, the subject token of the gateway, the final exchange and the cache of tokens. The SPIFFE
  and gRPC clients, TLS material, \<^verbatim>\<open>url.Parse\<close> and the HTTP transport answer through a record of functions;
  what the resolver sends is a list of events. Instants and durations are nanoseconds; durations wrap
  at 64 bits as in Go, instants do not.
\<close>

section \<open>Grants and targets\<close>

record grant_override =
  goHost :: string
  goPath :: string
  goAudience :: string
  goPort :: int
  goScopes :: "string list"

record token_grant =
  tgProvider :: string
  tgCredentialKey :: string
  tgTokenEndpoint :: string
  tgGrantType :: string
  tgAudience :: string
  tgJWTSVIDAudience :: string
  tgClientAssertionType :: string
  tgRequestedTokenType :: string
  tgCacheTTLSeconds :: "64 word"
  tgScopes :: "string list"
  tgSubjectTokenType :: string
  tgSubjectTokenCredential :: string
  tgOverrides :: "grant_override list"

record grant_target =
  targetHost :: string
  targetPort :: int
  targetPath :: string

definition tokenGrantPathMatches :: "string \<Rightarrow> string \<Rightarrow> bool" where
  "tokenGrantPathMatches pattern value =
     (pattern = value \<or>
      (case index pattern ''**'' of
         Some i \<Rightarrow> hasPrefix value (take i pattern)
       | None \<Rightarrow> pathMatch pattern value = Some True))"

definition overrideApplies :: "grant_target \<Rightarrow> grant_override \<Rightarrow> bool" where
  "overrideApplies t ov \<longleftrightarrow>
     equalFold (goHost ov) (targetHost t) \<and> (goPort ov = 0 \<or> goPort ov = targetPort t) \<and>
     (goPath ov = [] \<or> tokenGrantPathMatches (goPath ov) (targetPath t))"

definition tokenGrantTarget :: "token_grant \<Rightarrow> grant_target \<Rightarrow> string \<times> string list" where
  "tokenGrantTarget g t =
     (case find (overrideApplies t) (tgOverrides g) of
        None \<Rightarrow> (tgAudience g, sort (tgScopes g))
      | Some ov \<Rightarrow>
          (if goAudience ov \<noteq> [] then goAudience ov else tgAudience g,
           sort (if goScopes ov \<noteq> [] then goScopes ov else tgScopes g)))"

definition deriveJWTGrantAudience :: "string \<Rightarrow> string" where
  "deriveJWTGrantAudience endpoint =
     (case index endpoint ''/realms/'' of
        None \<Rightarrow> endpoint
      | Some i \<Rightarrow>
          (case indexByte (drop (i + 8) endpoint) (CHR ''/'') of
             Some slash \<Rightarrow> take (i + 8 + slash) endpoint
           | None \<Rightarrow> endpoint))"

fun firstTokenGrantEnv :: "(string \<Rightarrow> string) \<Rightarrow> string list \<Rightarrow> string" where
  "firstTokenGrantEnv env [] = []"
| "firstTokenGrantEnv env (key # ks) =
     (if trimSpace (env key) \<noteq> [] then trimSpace (env key) else firstTokenGrantEnv env ks)"

fun firstNonEmptyToken :: "string list \<Rightarrow> string" where
  "firstNonEmptyToken [] = []"
| "firstNonEmptyToken (v # vs) = (if trimSpace v \<noteq> [] then v else firstNonEmptyToken vs)"

section \<open>The world of the resolver\<close>

record token_url =
  tuScheme :: string
  tuHost :: string
  tuHostname :: string
  tuPort :: string
  tuHasUser :: bool
  tuFragment :: string

record subject_request =
  srSandbox :: string
  srProvider :: string
  srCredentialKey :: string
  srSVID :: string

record tls_material =
  tlsServerName :: string
  tlsOwnCA :: bool
  tlsClientCert :: bool

record grant_world =
  gwEnv :: "string \<Rightarrow> string"
  gwParse :: "string \<Rightarrow> token_url option"
  gwSource :: "string \<Rightarrow> bool"
  gwFetchSVID :: "string \<Rightarrow> string \<Rightarrow> string option"
  gwValidSVID :: "string \<Rightarrow> string \<Rightarrow> bool"
  gwReadFile :: "string \<Rightarrow> string option"
  gwAppendCerts :: "string \<Rightarrow> bool"
  gwKeyPair :: "string \<Rightarrow> string \<Rightarrow> bool"
  gwNewClient :: "string \<Rightarrow> bool"
  gwExchange :: "string \<Rightarrow> subject_request \<Rightarrow> string option"
  gwNewRequest :: "string \<Rightarrow> bool"
  gwPostForm :: "string \<Rightarrow> string \<Rightarrow> (int \<times> string option) option"
  gwJSON :: json_parser

text \<open>
  What leaves the process: the fetch of an identity for an audience, the subject-token call with its
  transport and bearer token, and the form posted to a token endpoint.
\<close>

datatype grant_event =
    FetchSVID string string
  | ExchangeSubject string "tls_material option" string subject_request
  | PostToken string string

text \<open>A computation of the resolver: an error or a value, with what was sent.\<close>

type_synonym 'a grant_result = "(string + 'a) \<times> grant_event list"

definition bindG :: "'a grant_result \<Rightarrow> ('a \<Rightarrow> 'b grant_result) \<Rightarrow> 'b grant_result" where
  "bindG m f =
     (case m of
        (Inl err, evs) \<Rightarrow> (Inl err, evs)
      | (Inr x, evs) \<Rightarrow> (case f x of (r, evs') \<Rightarrow> (r, evs @ evs')))"

section \<open>The subject token\<close>

definition tokenGrantTLSConfigFromEnvironment :: "grant_world \<Rightarrow> string \<Rightarrow> string + tls_material" where
  "tokenGrantTLSConfigFromEnvironment w serverName =
     (let caPath = firstTokenGrantEnv (gwEnv w) [''CAUTEUM_GUEST_TLS_CA''];
          certPath = firstTokenGrantEnv (gwEnv w) [''CAUTEUM_GUEST_TLS_CERT''];
          keyPath = firstTokenGrantEnv (gwEnv w) [''CAUTEUM_GUEST_TLS_KEY''] in
      if caPath = [] \<and> certPath = [] \<and> keyPath = []
      then Inr \<lparr>tlsServerName = serverName, tlsOwnCA = False, tlsClientCert = False\<rparr>
      else if caPath = [] \<or> certPath = [] \<or> keyPath = []
      then Inl ''guest TLS CA, certificate and key must be configured together''
      else (case gwReadFile w caPath of
        None \<Rightarrow> Inl ''read guest TLS CA bundle''
      | Some pem \<Rightarrow>
          if \<not> gwAppendCerts w pem then Inl ''guest TLS CA bundle contains no certificates''
          else if \<not> gwKeyPair w certPath keyPath then Inl ''load guest TLS client certificate and key''
          else Inr \<lparr>tlsServerName = serverName, tlsOwnCA = True, tlsClientCert = True\<rparr>))"

definition gatewayTransport :: "grant_world \<Rightarrow> token_url \<Rightarrow> string + tls_material option" where
  "gatewayTransport w u =
     (if equalFold (tuScheme u) ''https'' then mapR Some (tokenGrantTLSConfigFromEnvironment w (tuHostname u))
      else if equalFold (tuScheme u) ''http'' then
        (if firstTokenGrantEnv (gwEnv w) [''CAUTEUM_GUEST_TLS_CA''] \<noteq> [] \<or>
            firstTokenGrantEnv (gwEnv w) [''CAUTEUM_GUEST_TLS_CERT''] \<noteq> [] \<or>
            firstTokenGrantEnv (gwEnv w) [''CAUTEUM_GUEST_TLS_KEY''] \<noteq> []
         then Inl ''guest TLS materials require an https gateway endpoint''
         else Inr None)
      else Inl ''gateway URL scheme is unsupported'')"

text \<open>The address of the gateway; replacing the port leaves the host name as it is.\<close>

definition gatewayAddress :: "grant_world \<Rightarrow> token_url \<Rightarrow> string" where
  "gatewayAddress w u =
     (let port = firstTokenGrantEnv (gwEnv w) [''CAUTEUM_GATEWAY_GRPC_PORT''] in
      if tuPort u = [] \<and> port \<noteq> [] then joinHostPort (tuHostname u) port else tuHost u)"

definition exchangeAtGateway :: "grant_world \<Rightarrow> token_grant \<Rightarrow> string \<Rightarrow> string grant_result" where
  "exchangeAtGateway w g svid =
     (let base = firstTokenGrantEnv (gwEnv w) [''CAUTEUM_GATEWAY_GRPC_ENDPOINT'', ''CAUTEUM_GATEWAY_URL'', ''OPENSHELL_GATEWAY''];
          sandbox = firstTokenGrantEnv (gwEnv w) [''CAUTEUM_SANDBOX''];
          token = firstTokenGrantEnv (gwEnv w) [''CAUTEUM_SANDBOX_TOKEN''] in
      if base = [] then (Inl ''gateway URL is not configured'', [])
      else if sandbox = [] \<or> token = [] \<or> tgProvider g = [] \<or> tgCredentialKey g = []
      then (Inl ''sandbox token-grant identity is not configured'', [])
      else (case gwParse w base of
        None \<Rightarrow> (Inl ''gateway URL is invalid'', [])
      | Some u \<Rightarrow>
          if tuHost u = [] then (Inl ''gateway URL is invalid'', [])
          else (case gatewayTransport w u of
            Inl err \<Rightarrow> (Inl err, [])
          | Inr transport \<Rightarrow>
              if \<not> gwNewClient w (gatewayAddress w u) then (Inl ''gateway RPC connection failed'', [])
              else
                (let req = \<lparr>srSandbox = sandbox, srProvider = tgProvider g, srCredentialKey = tgCredentialKey g, srSVID = svid\<rparr> in
                 (case gwExchange w (gatewayAddress w u) req of
                    Some tok \<Rightarrow> if tok = [] then Inl ''gateway subject-token exchange failed'' else Inr tok
                  | None \<Rightarrow> Inl ''gateway subject-token exchange failed'',
                  [ExchangeSubject (gatewayAddress w u) transport (''Bearer '' @ token) req])))))"

section \<open>The token endpoint\<close>

definition validTokenGrantEndpoint :: "token_url \<Rightarrow> bool" where
  "validTokenGrantEndpoint u =
     (if tuScheme u = ''https'' then True
      else if tuScheme u \<noteq> ''http'' then False
      else
        (let host = toLower (tuHostname u) in
         host = ''localhost'' \<or> hasSuffix host ''.svc'' \<or> hasSuffix host ''.svc.cluster.local'' \<or>
         (case parseAddr host of Some a \<Rightarrow> \<not> hasZone a \<and> isLoopback (unmap a) | None \<Rightarrow> False)))"

definition formEncode :: "(string \<times> string) list \<Rightarrow> string" where
  "formEncode form =
     join (map (\<lambda>(k, v). queryEscape k @ ''='' @ queryEscape v) (sort_key fst form)) ''&''"

definition decodeInt64 :: "json \<Rightarrow> 64 word \<Rightarrow> 64 word option" where
  "decodeInt64 v old = (case v of JNum lit \<Rightarrow> map_option word_of_int (atoi lit) | JNull \<Rightarrow> Some old | _ \<Rightarrow> None)"

text \<open>The answer: the access token and the seconds that it is valid for.\<close>

definition postTokenGrant :: "grant_world \<Rightarrow> string \<Rightarrow> (string \<times> string) list \<Rightarrow> (string \<times> 64 word) grant_result" where
  "postTokenGrant w endpoint form =
     (case gwParse w endpoint of
        None \<Rightarrow> (Inl ''token endpoint is invalid'', [])
      | Some u \<Rightarrow>
          if tuHostname u = [] \<or> tuHasUser u \<or> tuFragment u \<noteq> [] \<or> \<not> validTokenGrantEndpoint u \<or> \<not> gwNewRequest w endpoint
          then (Inl ''token endpoint is invalid'', [])
          else
            (case gwPostForm w endpoint (formEncode form) of
               None \<Rightarrow> Inl ''token endpoint request failed''
             | Some (status, body) \<Rightarrow>
                 (case body of
                    None \<Rightarrow> Inl (''token endpoint rejected grant (HTTP '' @ itoa status @ '')'')
                  | Some bs \<Rightarrow>
                      if status < 200 \<or> status \<ge> 300 then Inl (''token endpoint rejected grant (HTTP '' @ itoa status @ '')'')
                      else
                        (let v = gwJSON w (take 1048576 bs) in
                         case (structField ''access_token'' decodeString [] v, structField ''expires_in'' decodeInt64 0 v) of
                           (Some tok, Some expires) \<Rightarrow>
                             if tok = [] then Inl ''token endpoint returned an invalid response'' else Inr (tok, expires)
                         | _ \<Rightarrow> Inl ''token endpoint returned an invalid response'')),
             [PostToken endpoint (formEncode form)]))"

section \<open>Resolving a grant\<close>

definition grantTypeOf :: "token_grant \<Rightarrow> string" where
  "grantTypeOf g = toLower (map (\<lambda>c. if c = CHR ''-'' then CHR ''_'' else c) (trimSpace (tgGrantType g)))"

definition fetchSVID :: "grant_world \<Rightarrow> token_grant \<Rightarrow> string grant_result" where
  "fetchSVID w g =
     (let declared = trimSpace (tgJWTSVIDAudience g);
          audience = (if declared = [] then deriveJWTGrantAudience (tgTokenEndpoint g) else declared);
          socket = firstTokenGrantEnv (gwEnv w) [''OPENSHELL_PROVIDER_SPIFFE_WORKLOAD_API_SOCKET'', ''CAUTEUM_PROVIDER_SPIFFE_WORKLOAD_API_SOCKET''];
          addr = ''unix://'' @ trimPrefix socket ''unix://'' in
      if socket = [] then (Inl ''SPIFFE Workload API socket is not configured'', [])
      else if \<not> gwSource w addr then (Inl ''SPIFFE Workload API unavailable'', [])
      else
        (case gwFetchSVID w addr audience of
           None \<Rightarrow> Inl ''JWT-SVID unavailable''
         | Some svid \<Rightarrow> if gwValidSVID w svid audience then Inr svid else Inl ''gateway JWT-SVID validation failed'',
         [FetchSVID addr audience]))"

definition grantForm :: "token_grant \<Rightarrow> string \<Rightarrow> string \<Rightarrow> string \<Rightarrow> string list \<Rightarrow> (string \<times> string) list" where
  "grantForm g svid subject audience scopes =
     (if grantTypeOf g = ''client_credentials'' then
        [(''grant_type'', ''urn:ietf:params:oauth:grant-type:jwt-bearer''), (''assertion'', svid)]
      else
        [(''grant_type'', ''urn:ietf:params:oauth:grant-type:token-exchange''),
         (''client_assertion_type'', firstNonEmptyToken [tgClientAssertionType g, ''urn:ietf:params:oauth:client-assertion-type:jwt-bearer'']),
         (''client_assertion'', svid), (''subject_token'', subject),
         (''subject_token_type'', firstNonEmptyToken [tgSubjectTokenType g, ''urn:ietf:params:oauth:token-type:access_token'']),
         (''requested_token_type'', firstNonEmptyToken [tgRequestedTokenType g, ''urn:ietf:params:oauth:token-type:access_token''])]) @
     (if audience \<noteq> [] then [(''audience'', audience)] else []) @
     (if scopes \<noteq> [] then [(''scope'', join scopes '' '')] else [])"

definition obtainToken :: "grant_world \<Rightarrow> token_grant \<Rightarrow> grant_target \<Rightarrow> (string \<times> 64 word) grant_result" where
  "obtainToken w g t =
     bindG (fetchSVID w g) (\<lambda>svid.
     bindG (if grantTypeOf g = ''token_exchange'' then exchangeAtGateway w g svid else (Inr [], [])) (\<lambda>subject.
       postTokenGrant w (tgTokenEndpoint g) (case tokenGrantTarget g t of (audience, scopes) \<Rightarrow> grantForm g svid subject audience scopes)))"

definition second :: int where
  "second = 10 ^ 9"

text \<open>The lifetime of a cache entry; the products are of 64-bit durations.\<close>

definition cacheLifetime :: "64 word \<Rightarrow> 64 word \<Rightarrow> int" where
  "cacheLifetime expiresIn cacheTTL =
     (if sint cacheTTL > 0 then sint (cacheTTL * 1000000000)
      else
        (let ttl = sint (expiresIn * 1000000000);
             ttl' = (if ttl \<le> 0 then 30 * second else ttl - 30 * second) in
         if ttl' < second then second else ttl'))"

type_synonym token_cache = "string \<rightharpoonup> string \<times> int"

text \<open>The parts of the cache key.\<close>

definition grantFields :: "token_grant \<times> grant_target \<Rightarrow> string list" where
  "grantFields r =
     (case r of (g, t) \<Rightarrow> (case tokenGrantTarget g t of (audience, scopes) \<Rightarrow>
        [tgProvider g, tgCredentialKey g, tgTokenEndpoint g, grantTypeOf g, audience, join scopes '' '',
         targetHost t, itoa (targetPort t), targetPath t]))"

definition cacheKey :: "token_grant \<times> grant_target \<Rightarrow> string" where
  "cacheKey r = join (grantFields r) [CHR 0x00]"

definition supportedGrant :: "token_grant \<Rightarrow> bool" where
  "supportedGrant g \<longleftrightarrow>
     trimSpace (tgTokenEndpoint g) \<noteq> [] \<and> (grantTypeOf g = ''token_exchange'' \<or> grantTypeOf g = ''client_credentials'')"

definition ResolveTokenGrant ::
    "grant_world \<Rightarrow> int \<Rightarrow> token_grant \<Rightarrow> grant_target \<Rightarrow> token_cache \<Rightarrow> (string + string) \<times> token_cache \<times> grant_event list" where
  "ResolveTokenGrant w now g t cache =
     (if \<not> supportedGrant g then (Inl ''unsupported or incomplete token grant'', cache, [])
      else
        (case (case cache (cacheKey (g, t)) of Some (v, e) \<Rightarrow> if now < e then Some v else None | None \<Rightarrow> None) of
           Some v \<Rightarrow> (Inr v, cache, [])
         | None \<Rightarrow>
             (case obtainToken w g t of
                (Inl err, evs) \<Rightarrow> (Inl err, cache, evs)
              | (Inr (tok, expires), evs) \<Rightarrow>
                  (Inr tok, cache(cacheKey (g, t) \<mapsto> (tok, now + cacheLifetime expires (tgCacheTTLSeconds g))), evs))))"

section \<open>Caches keyed by a text\<close>

text \<open>
  Every entry of a cache was issued for some request with its key. The locale is the contract of the
  key: plain requests that have it in common are the same in what matters, \<open>same\<close>.
\<close>

definition cacheSound :: "('r \<Rightarrow> 'k) \<Rightarrow> ('r \<Rightarrow> bool) \<Rightarrow> ('r \<times> 'v \<times> int) set \<Rightarrow> ('k \<rightharpoonup> 'v \<times> int) \<Rightarrow> bool" where
  "cacheSound key plain H c \<longleftrightarrow> (\<forall>k v e. c k = Some (v, e) \<longrightarrow> (\<exists>r. plain r \<and> key r = k \<and> (r, v, e) \<in> H))"

locale faithful_key =
  fixes key :: "'r \<Rightarrow> 'k"
    and same :: "'r \<Rightarrow> 'r \<Rightarrow> bool"
    and plain :: "'r \<Rightarrow> bool"
  assumes faithful: "plain r \<Longrightarrow> plain r' \<Longrightarrow> key r = key r' \<Longrightarrow> same r r'"
begin

lemma sound_empty: "cacheSound key plain H Map.empty"
  by (simp add: cacheSound_def)

lemma sound_mono: "cacheSound key plain H c \<Longrightarrow> H \<subseteq> H' \<Longrightarrow> cacheSound key plain H' c"
  unfolding cacheSound_def by blast

lemma sound_store: "cacheSound key plain H c \<Longrightarrow> plain r \<Longrightarrow> cacheSound key plain (insert (r, v, e) H) (c(key r \<mapsto> (v, e)))"
  unfolding cacheSound_def by (metis fun_upd_apply insertI1 insertI2 option.inject prod.inject)

lemma sound_hit:
  assumes "cacheSound key plain H c" "plain r" "c (key r) = Some (v, e)"
  shows "\<exists>r'. same r' r \<and> (r', v, e) \<in> H"
  using assms faithful [OF _ assms(2)] unfolding cacheSound_def by metis

end

text \<open>
  Two requests that a token may be shared between: the same provider, credential, token endpoint and grant
  type, the same audience and scopes after the overrides, and the same host, port and path.
\<close>

definition sameGrant :: "token_grant \<times> grant_target \<Rightarrow> token_grant \<times> grant_target \<Rightarrow> bool" where
  "sameGrant r' r \<longleftrightarrow>
     (case (r', r) of ((g', t'), (g, t)) \<Rightarrow>
        tgProvider g' = tgProvider g \<and> tgCredentialKey g' = tgCredentialKey g \<and> tgTokenEndpoint g' = tgTokenEndpoint g \<and>
        grantTypeOf g' = grantTypeOf g \<and>
        fst (tokenGrantTarget g' t') = fst (tokenGrantTarget g t) \<and>
        join (snd (tokenGrantTarget g' t')) '' '' = join (snd (tokenGrantTarget g t)) '' '' \<and>
        targetHost t' = targetHost t \<and> targetPort t' = targetPort t \<and> targetPath t' = targetPath t)"

definition plainGrant :: "token_grant \<times> grant_target \<Rightarrow> bool" where
  "plainGrant r \<longleftrightarrow> list_all (\<lambda>f. CHR 0x00 \<notin> set f) (grantFields r)"

lemma grantFields_nonempty [simp]: "grantFields r \<noteq> []"
  by (auto simp: grantFields_def split: prod.splits)

lemma grantFields_same: "grantFields r' = grantFields r \<Longrightarrow> sameGrant r' r"
  by (auto simp: grantFields_def sameGrant_def split: prod.splits dest: itoa_inject)

interpretation grant_cache: faithful_key cacheKey sameGrant plainGrant
proof unfold_locales
  have "splitByte (CHR 0x00) (cacheKey r) = grantFields r" if "plainGrant r" for r
    using that unfolding cacheKey_def plainGrant_def list_all_iff by (intro splitByte_join) auto
  then show "sameGrant r r'" if "plainGrant r" "plainGrant r'" "cacheKey r = cacheKey r'" for r r'
    using that grantFields_same by metis
qed

section \<open>Runs of the resolver\<close>

text \<open>
  Any sequence of requests at any times in any surroundings. The first argument collects what the
  token endpoints issued: the request, the token, and the end of its use.
\<close>

type_synonym issued = "(token_grant \<times> grant_target) \<times> string \<times> int"

definition issuedBy :: "grant_world \<Rightarrow> int \<Rightarrow> token_grant \<Rightarrow> grant_target \<Rightarrow> issued set" where
  "issuedBy w now g t =
     {((g, t), tok, now + cacheLifetime expires (tgCacheTTLSeconds g)) |tok expires.
        fst (obtainToken w g t) = Inr (tok, expires)}"

inductive grant_run :: "issued set \<Rightarrow> token_cache \<Rightarrow> bool" where
  start: "grant_run {} Map.empty"
| resolve: "grant_run H c \<Longrightarrow> plainGrant (g, t) \<Longrightarrow> ResolveTokenGrant w now g t c = (r, c', evs) \<Longrightarrow>
     grant_run (H \<union> (if evs = [] then {} else issuedBy w now g t)) c'"

lemma bindG_Inr:
  "bindG m f = (Inr y, evs) \<longleftrightarrow> (\<exists>x es es'. m = (Inr x, es) \<and> f x = (Inr y, es') \<and> evs = es @ es')"
  by (auto simp: bindG_def split: prod.splits sum.splits)

lemma fetchSVID_Inr: "fetchSVID w g = (Inr svid, evs) \<Longrightarrow> evs \<noteq> [] \<and> (\<exists>aud. gwValidSVID w svid aud)"
  by (auto simp: fetchSVID_def Let_def split: if_splits option.splits)

lemma obtainToken_events: "obtainToken w g t = (Inr y, evs) \<Longrightarrow> evs \<noteq> []"
  by (auto simp: obtainToken_def bindG_Inr dest: fetchSVID_Inr)

lemma ResolveTokenGrant_cases:
  assumes "ResolveTokenGrant w now g t c = (r, c', evs)"
  obtains (failed) err where "r = Inl err" "c' = c"
    | (hit) v e where "r = Inr v" "c' = c" "evs = []" "c (cacheKey (g, t)) = Some (v, e)" "now < e"
    | (fresh) tok expires where "r = Inr tok" "obtainToken w g t = (Inr (tok, expires), evs)" "evs \<noteq> []"
        "c' = c(cacheKey (g, t) \<mapsto> (tok, now + cacheLifetime expires (tgCacheTTLSeconds g)))"
proof (cases "\<exists>v e. c (cacheKey (g, t)) = Some (v, e) \<and> now < e \<and> supportedGrant g")
  case True
  then show thesis using assms hit by (auto simp: ResolveTokenGrant_def)
next
  case False
  then have miss: "(case c (cacheKey (g, t)) of Some (v, e) \<Rightarrow> if now < e then Some v else None | None \<Rightarrow> None) = None"
    if "supportedGrant g"
    using that by (auto split: option.splits)
  show thesis
  proof (cases "supportedGrant g")
    case True
    obtain x es where o: "obtainToken w g t = (x, es)" by (cases "obtainToken w g t")
    then show thesis
      using assms True miss failed fresh obtainToken_events [of w g t _ es]
      by (cases x) (auto simp: ResolveTokenGrant_def)
  qed (use assms failed in \<open>auto simp: ResolveTokenGrant_def\<close>)
qed

lemma grant_run_sound: "grant_run H c \<Longrightarrow> cacheSound cacheKey plainGrant H c"
proof (induction rule: grant_run.induct)
  case start
  show ?case by (rule grant_cache.sound_empty)
next
  case (resolve H c g t w now r c' evs)
  let ?H = "H \<union> (if evs = [] then {} else issuedBy w now g t)"
  from resolve.hyps(3) show ?case
  proof (cases rule: ResolveTokenGrant_cases)
    case (fresh tok expires)
    let ?e = "((g, t), tok, now + cacheLifetime expires (tgCacheTTLSeconds g))"
    have "insert ?e H \<subseteq> ?H"
      using fresh by (auto simp: issuedBy_def)
    then show ?thesis
      using grant_cache.sound_store [OF resolve.IH resolve.hyps(2)] grant_cache.sound_mono fresh(4) by metis
  qed (use resolve.IH grant_cache.sound_mono [of H c ?H] in auto)
qed

section \<open>What is sent\<close>

definition localTokenHost :: "string \<Rightarrow> bool" where
  "localTokenHost hostname \<longleftrightarrow>
     (let host = toLower hostname in
      host = ''localhost'' \<or> hasSuffix host ''.svc'' \<or> hasSuffix host ''.svc.cluster.local'' \<or>
      (case parseAddr host of Some a \<Rightarrow> \<not> hasZone a \<and> isLoopback (unmap a) | None \<Rightarrow> False))"

text \<open>
  An event that may leave: a form goes to the grant's endpoint, over https or to a local host; the
  subject-token call carries a validated identity, and goes without TLS only to an http gateway when no
  guest TLS material is configured.
\<close>

fun eventConfined :: "grant_world \<Rightarrow> token_grant \<Rightarrow> grant_event \<Rightarrow> bool" where
  "eventConfined w g (FetchSVID addr audience) = True"
| "eventConfined w g (PostToken endpoint body) =
     (endpoint = tgTokenEndpoint g \<and>
      (case gwParse w endpoint of
         None \<Rightarrow> False
       | Some u \<Rightarrow> \<not> tuHasUser u \<and> (tuScheme u = ''https'' \<or> tuScheme u = ''http'' \<and> localTokenHost (tuHostname u))))"
| "eventConfined w g (ExchangeSubject addr transport bearer req) =
     ((\<exists>audience. gwValidSVID w (srSVID req) audience) \<and> srProvider req = tgProvider g \<and> srCredentialKey req = tgCredentialKey g \<and>
      (transport \<noteq> None \<or> list_all (\<lambda>k. firstTokenGrantEnv (gwEnv w) [k] = [])
         [''CAUTEUM_GUEST_TLS_CA'', ''CAUTEUM_GUEST_TLS_CERT'', ''CAUTEUM_GUEST_TLS_KEY'']))"

lemma bindG_events:
  assumes "list_all P (snd m)" and "\<And>x es. m = (Inr x, es) \<Longrightarrow> list_all P (snd (f x))"
  shows "list_all P (snd (bindG m f))"
  using assms by (cases m; cases "fst m") (auto simp: bindG_def split: prod.splits sum.splits)

lemma fetchSVID_confined: "list_all (eventConfined w g) (snd (fetchSVID w g))"
  by (simp add: fetchSVID_def Let_def)

lemma validTokenGrantEndpoint_iff:
  "validTokenGrantEndpoint u \<longleftrightarrow> tuScheme u = ''https'' \<or> tuScheme u = ''http'' \<and> localTokenHost (tuHostname u)"
  by (auto simp: validTokenGrantEndpoint_def localTokenHost_def Let_def)

lemma postTokenGrant_confined: "list_all (eventConfined w g) (snd (postTokenGrant w (tgTokenEndpoint g) form))"
  by (auto simp: postTokenGrant_def validTokenGrantEndpoint_iff split: option.split)

lemma gatewayTransport_plain:
  "gatewayTransport w u = Inr None \<Longrightarrow>
   list_all (\<lambda>k. firstTokenGrantEnv (gwEnv w) [k] = []) [''CAUTEUM_GUEST_TLS_CA'', ''CAUTEUM_GUEST_TLS_CERT'', ''CAUTEUM_GUEST_TLS_KEY'']"
  unfolding gatewayTransport_def by (auto split: if_splits)

lemma exchangeAtGateway_confined:
  assumes "gwValidSVID w svid audience"
  shows "list_all (eventConfined w g) (snd (exchangeAtGateway w g svid))"
  using assms gatewayTransport_plain [of w]
  by (auto simp: exchangeAtGateway_def Let_def simp del: firstTokenGrantEnv.simps split: option.split sum.split)

lemma obtainToken_confined: "list_all (eventConfined w g) (snd (obtainToken w g t))"
  unfolding obtainToken_def
proof (rule bindG_events [OF fetchSVID_confined], rule bindG_events)
  fix svid es assume "fetchSVID w g = (Inr svid, es)"
  then obtain aud where "gwValidSVID w svid aud" using fetchSVID_Inr by blast
  then show "list_all (eventConfined w g) (snd (if grantTypeOf g = ''token_exchange'' then exchangeAtGateway w g svid else (Inr [], [])))"
    by (simp add: exchangeAtGateway_confined)
qed (rule postTokenGrant_confined)

section \<open>Properties\<close>

text \<open>
  C35: A token that the resolver returns was issued by the grant's token endpoint: just now for this
  request, or earlier for one with the same provider, credential, token endpoint, grant type, audience,
  scopes, host, port and path, and then its time in the cache has not ended. It holds for every sequence of requests whose
  fields are free of the zero byte that separates them in the cache key. What else a grant says, as the
  types of its tokens, is not part of the key.
\<close>

theorem tokens_issued_for_target:
  assumes "grant_run H c" and "plainGrant (g, t)" and "ResolveTokenGrant w now g t c = (Inr tok, c', evs)"
  shows "evs = [] \<and> (\<exists>g' t' e. ((g', t'), tok, e) \<in> H \<and> now < e \<and>
            tgProvider g' = tgProvider g \<and> tgCredentialKey g' = tgCredentialKey g \<and> tgTokenEndpoint g' = tgTokenEndpoint g \<and>
            grantTypeOf g' = grantTypeOf g \<and>
            fst (tokenGrantTarget g' t') = fst (tokenGrantTarget g t) \<and>
            join (snd (tokenGrantTarget g' t')) '' '' = join (snd (tokenGrantTarget g t)) '' '' \<and>
            targetHost t' = targetHost t \<and> targetPort t' = targetPort t \<and> targetPath t' = targetPath t) \<or>
         (\<exists>expires. obtainToken w g t = (Inr (tok, expires), evs))"
  using assms(3)
proof (cases rule: ResolveTokenGrant_cases)
  case (hit v e)
  then show ?thesis
    using grant_cache.sound_hit [OF grant_run_sound [OF assms(1)] assms(2)] by (auto simp: sameGrant_def)
qed auto

definition exampleGrant :: token_grant where
  "exampleGrant =
     \<lparr>tgProvider = ''git'', tgCredentialKey = ''TOKEN'', tgTokenEndpoint = ''https://idp/t'', tgGrantType = ''client-credentials'',
      tgAudience = ''api'', tgJWTSVIDAudience = [], tgClientAssertionType = [], tgRequestedTokenType = [], tgCacheTTLSeconds = 0,
      tgScopes = [''write'', ''read''], tgSubjectTokenType = [], tgSubjectTokenCredential = [], tgOverrides = []\<rparr>"

definition exampleTarget :: grant_target where
  "exampleTarget = \<lparr>targetHost = ''git.example'', targetPort = 443, targetPath = ''/x''\<rparr>"

definition exampleWorld :: grant_world where
  "exampleWorld =
     \<lparr>gwEnv = (\<lambda>k. if k = ''OPENSHELL_PROVIDER_SPIFFE_WORKLOAD_API_SOCKET'' then ''/run/s'' else []),
      gwParse = (\<lambda>_. Some \<lparr>tuScheme = ''https'', tuHost = ''idp'', tuHostname = ''idp'', tuPort = [], tuHasUser = False, tuFragment = []\<rparr>),
      gwSource = (\<lambda>_. True), gwFetchSVID = (\<lambda>_ _. Some ''svid''), gwValidSVID = (\<lambda>_ _. True), gwReadFile = (\<lambda>_. None),
      gwAppendCerts = (\<lambda>_. False), gwKeyPair = (\<lambda>_ _. False), gwNewClient = (\<lambda>_. True), gwExchange = (\<lambda>_ _. None),
      gwNewRequest = (\<lambda>_. True), gwPostForm = (\<lambda>_ _. Some (200, Some [])),
      gwJSON = (\<lambda>_. Some (JObj [(''access_token'', JStr ''tok''), (''expires_in'', JNum ''300'')]))\<rparr>"

lemma exampleGrant_plain: "plainGrant (exampleGrant, exampleTarget)"
  by code_simp

lemma example_fetch: "fetchSVID exampleWorld exampleGrant = (Inr ''svid'', [FetchSVID ''unix:///run/s'' ''https://idp/t''])"
  by code_simp

lemma example_type: "supportedGrant exampleGrant" "grantTypeOf exampleGrant \<noteq> ''token_exchange''"
  by code_simp+

lemma example_decode:
  "structField ''access_token'' decodeString [] (Some (JObj [(''access_token'', JStr ''tok''), (''expires_in'', JNum ''300'')])) = Some ''tok''"
  "structField ''expires_in'' decodeInt64 0 (Some (JObj [(''access_token'', JStr ''tok''), (''expires_in'', JNum ''300'')])) = Some 300"
  by code_simp+

lemma example_post: "fst (postTokenGrant exampleWorld endpoint form) = Inr (''tok'', 300)"
  by (simp add: postTokenGrant_def exampleWorld_def validTokenGrantEndpoint_def example_decode)

lemma example_obtain: "\<exists>evs. obtainToken exampleWorld exampleGrant exampleTarget = (Inr (''tok'', 300), evs) \<and> evs \<noteq> []"
proof -
  obtain evs where p: "postTokenGrant exampleWorld (tgTokenEndpoint exampleGrant)
      (case tokenGrantTarget exampleGrant exampleTarget of (audience, scopes) \<Rightarrow> grantForm exampleGrant ''svid'' [] audience scopes) =
      (Inr (''tok'', 300), evs)"
    using example_post by (metis prod.collapse)
  then show ?thesis
    unfolding obtainToken_def example_fetch by (simp add: bindG_def example_type)
qed

theorem tokens_issued_for_target_witness:
  "\<exists>g' t' e. ((g', t'), ''tok'', e) \<in> issuedBy exampleWorld 0 exampleGrant exampleTarget \<and> second < e \<and>
     fst (tokenGrantTarget g' t') = ''api'' \<and> targetHost t' = ''git.example'' \<and> targetPort t' = 443 \<and> targetPath t' = ''/x''"
proof -
  obtain evs where obt: "obtainToken exampleWorld exampleGrant exampleTarget = (Inr (''tok'', 300), evs)" "evs \<noteq> []"
    using example_obtain by blast
  define c where "c = Map.empty(cacheKey (exampleGrant, exampleTarget) \<mapsto> (''tok'', cacheLifetime 300 (tgCacheTTLSeconds exampleGrant)))"
  have life: "cacheLifetime 300 (tgCacheTTLSeconds exampleGrant) = 270 * second"
    by (simp add: cacheLifetime_def exampleGrant_def second_def)
  have first: "ResolveTokenGrant exampleWorld 0 exampleGrant exampleTarget Map.empty = (Inr ''tok'', c, evs)"
    by (simp add: ResolveTokenGrant_def example_type obt c_def)
  have hit: "ResolveTokenGrant exampleWorld second exampleGrant exampleTarget c = (Inr ''tok'', c, [])"
    by (simp add: ResolveTokenGrant_def example_type c_def life second_def)
  have "grant_run ({} \<union> (if evs = [] then {} else issuedBy exampleWorld 0 exampleGrant exampleTarget)) c"
    by (rule grant_run.resolve [OF grant_run.start exampleGrant_plain first])
  then have run: "grant_run (issuedBy exampleWorld 0 exampleGrant exampleTarget) c"
    using obt(2) by simp
  have "fst (tokenGrantTarget exampleGrant exampleTarget) = ''api''" by code_simp
  with tokens_issued_for_target [OF run exampleGrant_plain hit] show ?thesis
    using obtainToken_events by (fastforce simp: exampleTarget_def)
qed

text \<open>
  C36: Whatever a grant says, its forms are posted only to its own endpoint over https or to a host of
  the machine or cluster, and the sandbox's identity reaches the gateway only after it was
  validated, and unencrypted only when no TLS material is configured.
\<close>

theorem grant_events_confined:
  assumes "ResolveTokenGrant w now g t c = (r, c', evs)"
  shows "list_all (eventConfined w g) evs"
  using assms obtainToken_confined [of w g t]
  by (auto simp: ResolveTokenGrant_def split: if_splits option.splits prod.splits sum.splits)

theorem grant_events_confined_witness:
  "list_all (eventConfined exampleWorld exampleGrant)
     (snd (snd (ResolveTokenGrant exampleWorld 0 exampleGrant exampleTarget Map.empty)))"
  using grant_events_confined [of exampleWorld 0 exampleGrant exampleTarget Map.empty] by (metis prod.collapse)

text \<open>
  Without a configured lifetime a token that is valid for a positive number of seconds is cached
  for thirty seconds less, and for one second at least, as long as the seconds fit a duration.
\<close>

lemma cacheLifetime_bounds:
  assumes "sint cacheTTL \<le> 0" and "0 < sint expiresIn" and "sint expiresIn \<le> 9223372036"
  shows "cacheLifetime expiresIn cacheTTL = max second ((sint expiresIn - 30) * second)"
proof -
  have "sint (expiresIn * 1000000000) = signed_take_bit 63 (sint expiresIn * 1000000000)"
    by (simp add: sint_word_ariths)
  also have "\<dots> = sint expiresIn * 1000000000"
    by (rule signed_take_bit_int_eq_self) (use assms(2,3) in simp_all)
  finally have "sint (expiresIn * 1000000000) = sint expiresIn * second"
    by (simp add: second_def)
  then show ?thesis
    using assms by (auto simp: cacheLifetime_def Let_def max_def second_def algebra_simps)
qed

lemma cacheLifetime_bounds_witness: "cacheLifetime 300 0 = 270 * second"
  using cacheLifetime_bounds [of 0 300] by (simp add: second_def)

end
