(* ===== verification/Inference_Local.thy ===== *)
theory Inference_Local
  imports Policy_Local L7_Query
begin

text \<open>
  The local inference router, \<^verbatim>\<open>proxy/inference_local.go\<close>, the identity of the caller, \<^verbatim>\<open>proxy/peer.go\<close> and
  \<^verbatim>\<open>peer_linux.go\<close>, and \<^verbatim>\<open>internal/config\<close>. The encoder of JSON, the HTTP client, the TLS handshake and the
  kernel's answers are arguments.
\<close>

section \<open>Configuration\<close>

record inference_config =
  icUpstream :: string
  icModel :: string
  icTimeoutSec :: int
  icAPIKey :: string

definition inferenceSetting :: "inference_config \<Rightarrow> string \<Rightarrow> inference_config" where
  "inferenceSetting cfg e =
     (case cutByte e (CHR ''='') of
        (k, v, ok) \<Rightarrow>
          if \<not> ok then cfg
          else if k = ''CAUTEUM_INFERENCE_UPSTREAM'' then cfg\<lparr>icUpstream := trimRightSet v ''/''\<rparr>
          else if k = ''CAUTEUM_INFERENCE_MODEL'' then cfg\<lparr>icModel := v\<rparr>
          else if k = ''CAUTEUM_INFERENCE_TIMEOUT'' then
            (case atoi v of Some n \<Rightarrow> if n > 0 then cfg\<lparr>icTimeoutSec := n\<rparr> else cfg | None \<Rightarrow> cfg)
          else if k = ''CAUTEUM_INFERENCE_API_KEY'' then cfg\<lparr>icAPIKey := v\<rparr>
          else cfg)"

definition LoadInferenceFromEnviron :: "(string \<Rightarrow> string) \<Rightarrow> string list \<Rightarrow> inference_config" where
  "LoadInferenceFromEnviron getenv environ =
     (let cfg = foldl inferenceSetting \<lparr>icUpstream = [], icModel = [], icTimeoutSec = 60, icAPIKey = []\<rparr> environ in
      if icUpstream cfg = [] then cfg\<lparr>icUpstream := trimRightSet (getenv ''CAUTEUM_INFERENCE_UPSTREAM'') ''/''\<rparr> else cfg)"

definition isInferenceLocal :: "string \<Rightarrow> bool" where
  "isInferenceLocal host = (let h = toLower (trimSpace host) in h = ''inference.local'' \<or> h = ''inference.cauteum.local'')"

text \<open>The TLS configuration for the host and the handshake fail with a text.\<close>

definition mitmHandshake :: "bool \<Rightarrow> string option \<Rightarrow> string option \<Rightarrow> string option" where
  "mitmHandshake hasCA configErr handshakeErr =
     (if \<not> hasCA then Some ''mitm ca missing'' else if configErr \<noteq> None then configErr else handshakeErr)"

section \<open>The model of a request\<close>

text \<open>
  A value decodes into \<^verbatim>\<open>any\<close> unless a number in it exceeds a float. The encoder gets the decoded value and
  converts its numbers.
\<close>

fun anyDecodes :: "json \<Rightarrow> bool" where
  "anyDecodes (JNum lit) \<longleftrightarrow> \<not> floatOverflows lit"
| "anyDecodes (JArr vs) \<longleftrightarrow> list_all anyDecodes vs"
| "anyDecodes (JObj kvs) \<longleftrightarrow> list_all (\<lambda>kv. anyDecodes (snd kv)) kvs"
| "anyDecodes _ \<longleftrightarrow> True"

text \<open>\<^verbatim>\<open>m[k] = v\<close> on the entries of an object.\<close>

definition putKey :: "(string \<times> json) list \<Rightarrow> string \<Rightarrow> json \<Rightarrow> (string \<times> json) list" where
  "putKey kvs k v = filter (\<lambda>kv. fst kv \<noteq> k) kvs @ [(k, v)]"

text \<open>\<^const>\<open>None\<close> is a panic: \<^verbatim>\<open>null\<close> leaves the map nil, and a nil map cannot be assigned to.\<close>

definition rewriteModelJSON :: "json_parser \<Rightarrow> (json \<Rightarrow> string option) \<Rightarrow> string \<Rightarrow> string \<Rightarrow> string option" where
  "rewriteModelJSON parseJSON marshal body model =
     (case parseJSON body of
        None \<Rightarrow> Some body
      | Some v \<Rightarrow>
          if \<not> anyDecodes v then Some body
          else (case decodeMap v None of
            None \<Rightarrow> Some body
          | Some None \<Rightarrow> None
          | Some (Some kvs) \<Rightarrow>
              (case marshal (JObj (putKey kvs ''model'' (JStr model))) of Some out \<Rightarrow> Some out | None \<Rightarrow> Some body)))"

definition firstOr :: "string \<Rightarrow> string \<Rightarrow> string" where
  "firstOr a b = (if trimSpace a \<noteq> [] then a else b)"

section \<open>The target of a request\<close>

text \<open>
  The URL of a request as \<^verbatim>\<open>url.ParseRequestURI\<close> reads it from the request line, and the text that
  \<^verbatim>\<open>URL.RequestURI\<close> gives back. A target with a scheme whose remainder does not begin with a slash is
  opaque. Targets with a slash go to the rest of the parser, an argument.
\<close>

record request_url =
  ruScheme :: string
  ruOpaque :: string
  ruURL :: http_url
  ruForceQuery :: bool

fun getSchemeFrom :: "string \<Rightarrow> string \<Rightarrow> string \<Rightarrow> string + (string \<times> string)" where
  "getSchemeFrom raw seen [] = Inr ([], raw)"
| "getSchemeFrom raw seen (c # cs) =
     (if isLowerAlpha c \<or> isUpperAlpha c then getSchemeFrom raw (seen @ [c]) cs
      else if isDigit c \<or> c \<in> set ''+-.'' then (if seen = [] then Inr ([], raw) else getSchemeFrom raw (seen @ [c]) cs)
      else if c = CHR '':'' then (if seen = [] then Inl ''missing protocol scheme'' else Inr (seen, cs))
      else Inr ([], raw))"

definition getScheme :: "string \<Rightarrow> string + (string \<times> string)" where
  "getScheme raw = getSchemeFrom raw [] raw"

definition opaqueURL :: "string \<Rightarrow> string \<Rightarrow> string \<Rightarrow> bool \<Rightarrow> request_url" where
  "opaqueURL scheme opaque query force =
     \<lparr>ruScheme = toLower scheme, ruOpaque = opaque, ruURL = \<lparr>Path = [], RawPath = [], RawQuery = query\<rparr>, ruForceQuery = force\<rparr>"

definition pathURL :: "string \<Rightarrow> request_url" where
  "pathURL path = \<lparr>ruScheme = [], ruOpaque = [], ruURL = \<lparr>Path = path, RawPath = [], RawQuery = []\<rparr>, ruForceQuery = False\<rparr>"

definition parseRequestURI :: "(string \<Rightarrow> request_url option) \<Rightarrow> string \<Rightarrow> request_url option" where
  "parseRequestURI rooted raw =
     (if raw = [] \<or> list_ex (\<lambda>c. byteVal c < 32 \<or> byteVal c = 127) raw then None
      else if raw = ''*'' then Some (pathURL ''*'')
      else (case getScheme raw of
        Inl _ \<Rightarrow> None
      | Inr (scheme, rest) \<Rightarrow>
          (let force = (hasSuffix rest ''?'' \<and> \<not> contains (butlast rest) ''?'');
               (path, query, _) = (if force then (butlast rest, [], False) else cutByte rest (CHR ''?'')) in
           if hasPrefix path ''/'' then rooted raw
           else if scheme = [] then None
           else Some (opaqueURL scheme path query force))))"

definition urlRequestURI :: "request_url \<Rightarrow> string" where
  "urlRequestURI u =
     (let path = escapedPath (ruURL u);
          target = (if ruOpaque u = [] then (if path = [] then ''/'' else path)
                    else if hasPrefix (ruOpaque u) ''//'' then ruScheme u @ '':'' @ ruOpaque u
                    else ruOpaque u) in
      if ruForceQuery u \<or> RawQuery (ruURL u) \<noteq> [] then target @ ''?'' @ RawQuery (ruURL u) else target)"

text \<open>The host of a URL in text, with its port: what follows the last at sign of the authority.\<close>

definition hasAuthority :: "string \<Rightarrow> bool" where
  "hasAuthority url = (case getScheme url of Inl _ \<Rightarrow> False | Inr (scheme, rest) \<Rightarrow> scheme \<noteq> [] \<and> hasPrefix rest ''//'')"

definition urlHostPort :: "string \<Rightarrow> string" where
  "urlHostPort url =
     (case getScheme url of
        Inl _ \<Rightarrow> []
      | Inr (scheme, rest) \<Rightarrow>
          if hasPrefix rest ''//''
          then rev (takeWhile (\<lambda>c. c \<noteq> CHR ''@'') (rev (takeWhile (\<lambda>c. c \<notin> set ''/?#'') (drop 2 rest))))
          else [])"

section \<open>Forwarding\<close>

text \<open>The request of the caller, and the one that is sent.\<close>

record caller_request =
  crMethod :: string
  crURL :: request_url
  crHeader :: http_header
  crBody :: string

record inference_request =
  irMethod :: string
  irURI :: string
  irHeader :: http_header
  irBody :: string

text \<open>\<^verbatim>\<open>io.ReadAll\<close> of an \<^verbatim>\<open>io.LimitReader\<close>.\<close>

definition readLimit :: "int \<Rightarrow> string \<Rightarrow> string" where
  "readLimit n bs = (if int (length bs) \<le> n then bs else take (nat n) bs)"

text \<open>The headers that the router does not take over; the others are added value by value.\<close>

definition withheldHeaders :: "string list" where
  "withheldHeaders = [''authorization'', ''host'', ''content-length'']"

definition copyHeader :: "http_header \<Rightarrow> string \<times> string list \<Rightarrow> http_header" where
  "copyHeader h kv =
     (if toLower (fst kv) \<in> set withheldHeaders then h else foldl (\<lambda>h v. hdrAdd h (fst kv) v) h (snd kv))"

definition inferenceHeader :: "inference_config \<Rightarrow> http_header \<Rightarrow> http_header" where
  "inferenceHeader cfg hs =
     (let h1 = foldl copyHeader [] hs;
          h2 = (if icAPIKey cfg \<noteq> [] then hdrSet h1 ''Authorization'' (''Bearer '' @ icAPIKey cfg) else h1) in
      hdrSet h2 ''Content-Type'' (firstOr (hdrGet hs ''Content-Type'') ''application/json''))"

text \<open>The client's answer: an error, or status code, status text, header and body.\<close>

record inference_api =
  iaJSON :: json_parser
  iaMarshal :: "json \<Rightarrow> string option"
  iaNewRequest :: "string \<Rightarrow> string \<Rightarrow> string option"
  iaDo :: "int \<Rightarrow> inference_request \<Rightarrow> string + (int \<times> string \<times> http_header \<times> string)"

record inference_outcome =
  ioSent :: "inference_request option"
  ioWritten :: string
  ioError :: "string option"
  ioAudit :: "audit_event list"

definition inferenceBody :: "inference_api \<Rightarrow> inference_config \<Rightarrow> string \<Rightarrow> string option" where
  "inferenceBody api cfg raw =
     (let body = readLimit 8388608 raw in
      if body \<noteq> [] \<and> icModel cfg \<noteq> [] then rewriteModelJSON (iaJSON api) (iaMarshal api) body (icModel cfg) else Some body)"

definition inferenceReply :: "string + (int \<times> string \<times> http_header \<times> string) \<Rightarrow> string" where
  "inferenceReply res =
     (case res of
        Inl err \<Rightarrow> ''HTTP/1.1 502 Bad Gateway'' @ crlf @ ''Content-Length: '' @ itoa (int (length err)) @ crlf @ crlf @ err
      | Inr (code, status, hs, raw) \<Rightarrow>
          (let body = readLimit 16777216 raw; ct = hdrGet hs ''Content-Type'' in
           ''HTTP/1.1 '' @ itoa code @ '' '' @ status @ crlf @ ''Content-Length: '' @ itoa (int (length body)) @ crlf @
           (if ct \<noteq> [] then ''Content-Type: '' @ ct @ crlf else []) @ crlf @ body))"

text \<open>\<open>writeErr\<close> is the error of writing the reply.\<close>

definition proxyInferenceRequest ::
    "inference_api \<Rightarrow> inference_config \<Rightarrow> string option \<Rightarrow> caller_request \<Rightarrow> inference_outcome option" where
  "proxyInferenceRequest api cfg writeErr req =
     map_option (\<lambda>body.
       (case iaNewRequest api (crMethod req) (icUpstream cfg @ urlRequestURI (crURL req)) of
          Some err \<Rightarrow> \<lparr>ioSent = None, ioWritten = [], ioError = Some err, ioAudit = []\<rparr>
        | None \<Rightarrow>
            (let out = \<lparr>irMethod = crMethod req, irURI = icUpstream cfg @ urlRequestURI (crURL req),
                        irHeader = inferenceHeader cfg (crHeader req), irBody = body\<rparr>;
                 res = iaDo api (icTimeoutSec cfg) out in
             \<lparr>ioSent = Some out, ioWritten = inferenceReply res,
              ioError = (case res of Inl _ \<Rightarrow> None | Inr _ \<Rightarrow> writeErr),
              ioAudit = (case res of Inl _ \<Rightarrow> []
                | Inr _ \<Rightarrow> [(auditOf ''allow'' (''inference.local'' @ [CHR 0xE2, CHR 0x86, CHR 0x92] @ icUpstream cfg) True)\<lparr>Host := ''inference.local''\<rparr>])\<rparr>)))
       (inferenceBody api cfg (crBody req))"

text \<open>
  The requests of an intercepted connection, each with the error of writing its reply, until one cannot
  be read or fails; what was sent and written, and the audit events.
\<close>

fun serveInference ::
    "inference_api \<Rightarrow> inference_config \<Rightarrow> (caller_request \<times> string option) list \<Rightarrow>
       (inference_request list \<times> string list \<times> audit_event list) option" where
  "serveInference api cfg [] = Some ([], [], [])"
| "serveInference api cfg ((req, writeErr) # reqs) =
     (case proxyInferenceRequest api cfg writeErr req of
        None \<Rightarrow> None
      | Some out \<Rightarrow>
          (let sent = (case ioSent out of Some r \<Rightarrow> [r] | None \<Rightarrow> []) in
           case ioError out of
             Some err \<Rightarrow> Some (sent, [ioWritten out], ioAudit out @ [(auditOf ''error'' err False)\<lparr>Host := ''inference.local''\<rparr>])
           | None \<Rightarrow> map_option (\<lambda>(ss, ws, log). (sent @ ss, ioWritten out # ws, ioAudit out @ log)) (serveInference api cfg reqs)))"

definition handleInferenceLocal ::
    "inference_api \<Rightarrow> inference_config \<Rightarrow> string option \<Rightarrow> (caller_request \<times> string option) list \<Rightarrow>
       (inference_request list \<times> string list \<times> audit_event list) option" where
  "handleInferenceLocal api cfg handshakeErr reqs =
     (let established = ''HTTP/1.1 200 Connection Established'' @ crlf @ crlf in
      if icUpstream cfg = [] then
        Some ([], [''HTTP/1.1 502 Bad Gateway'' @ crlf @ ''Content-Length: 0'' @ crlf @ crlf],
              [(auditOf ''deny'' ''inference upstream not configured'' False)\<lparr>Host := ''inference.local''\<rparr>])
      else (case handshakeErr of
        Some err \<Rightarrow> Some ([], [established], [(auditOf ''error'' err False)\<lparr>Host := ''inference.local''\<rparr>])
      | None \<Rightarrow> map_option (\<lambda>(ss, ws, log). (ss, established # ws, log)) (serveInference api cfg reqs)))"

section \<open>The caller\<close>

text \<open>
  What the kernel says of the peer of a connection: a raw connection or an error, the errors of the
  control call and of the socket option, the process, and the target of its \<^verbatim>\<open>exe\<close> link. The context of a
  request keeps the connection under a key of its own.
\<close>

record raw_conn =
  rcControlErr :: "string option"
  rcOptionErr :: "string option"
  rcUcred :: "int option"

datatype peer_conn =
    TCPConn "string + raw_conn"
  | UnixConn "string + raw_conn"
  | SyscallConn "string + raw_conn"
  | UnsupportedConn string

record peer_api =
  paTrust :: string
  paExe :: "int \<Rightarrow> string option"

datatype ctx_key = CtxKeyConn | OtherKey string

definition withConn :: "(ctx_key \<rightharpoonup> peer_conn) \<Rightarrow> peer_conn \<Rightarrow> (ctx_key \<rightharpoonup> peer_conn)" where
  "withConn ctx c = ctx(CtxKeyConn \<mapsto> c)"

definition connFromContext :: "(ctx_key \<rightharpoonup> peer_conn) \<Rightarrow> peer_conn option" where
  "connFromContext ctx = ctx CtxKeyConn"

definition peerCred :: "raw_conn \<Rightarrow> string + int" where
  "peerCred rc =
     (case rcControlErr rc of
        Some err \<Rightarrow> Inl err
      | None \<Rightarrow>
          (case rcOptionErr rc of
             Some err \<Rightarrow> Inl err
           | None \<Rightarrow> (case rcUcred rc of None \<Rightarrow> Inl ''peer pid: nil ucred'' | Some pid \<Rightarrow> Inr pid)))"

definition peerPID :: "peer_conn \<Rightarrow> string + int" where
  "peerPID c =
     (case c of
        TCPConn (Inr rc) \<Rightarrow> peerCred rc
      | TCPConn (Inl err) \<Rightarrow> Inl err
      | UnixConn (Inr rc) \<Rightarrow> peerCred rc
      | UnixConn (Inl err) \<Rightarrow> Inl err
      | SyscallConn (Inr rc) \<Rightarrow> peerCred rc
      | SyscallConn (Inl err) \<Rightarrow> Inl err
      | UnsupportedConn name \<Rightarrow> Inl (''peer pid: unsupported conn '' @ name))"

text \<open>\<^verbatim>\<open>filepath.Clean\<close> works on the parts of the path.\<close>

fun cleanParts :: "bool \<Rightarrow> string list \<Rightarrow> string list \<Rightarrow> string list" where
  "cleanParts rooted stack [] = rev stack"
| "cleanParts rooted stack (p # ps) =
     (if p = [] \<or> p = ''.'' then cleanParts rooted stack ps
      else if p = ''..'' then
        (case stack of
           q # qs \<Rightarrow> if q = ''..'' then cleanParts rooted (p # stack) ps else cleanParts rooted qs ps
         | [] \<Rightarrow> if rooted then cleanParts rooted [] ps else cleanParts rooted [p] ps)
      else cleanParts rooted (p # stack) ps)"

definition filepathClean :: "string \<Rightarrow> string" where
  "filepathClean path =
     (let rooted = hasPrefix path ''/''; out = join (cleanParts rooted [] (splitByte (CHR ''/'') path)) ''/'' in
      if rooted then ''/'' @ out else if out = [] then ''.'' else out)"

definition peerExecutable :: "peer_api \<Rightarrow> peer_conn \<Rightarrow> string" where
  "peerExecutable api c =
     (case peerPID c of
        Inl err \<Rightarrow> []
      | Inr pid \<Rightarrow> if pid \<le> 0 then [] else (case paExe api pid of None \<Rightarrow> [] | Some target \<Rightarrow> filepathClean target))"

definition trustBinaryHeader :: "string \<Rightarrow> bool" where
  "trustBinaryHeader value = (let v = trimSpace value in v = ''1'' \<or> equalFold v ''true'' \<or> equalFold v ''yes'')"

text \<open>A request is the value of its binary header and its context.\<close>

definition callerBinary :: "peer_api \<Rightarrow> (string \<times> (ctx_key \<rightharpoonup> peer_conn)) option \<Rightarrow> string" where
  "callerBinary api r =
     (case r of
        None \<Rightarrow> []
      | Some (header, ctx) \<Rightarrow>
          if trustBinaryHeader (paTrust api) \<and> trimSpace header \<noteq> [] then trimSpace header
          else (case connFromContext ctx of Some c \<Rightarrow> peerExecutable api c | None \<Rightarrow> []))"

text \<open>Without trust in the header the connection that served the request alone decides the caller.\<close>

lemma callerBinary_untrusted:
  "\<not> trustBinaryHeader (paTrust api) \<Longrightarrow> callerBinary api (Some (header, withConn ctx c)) = peerExecutable api c"
  by (simp add: callerBinary_def withConn_def connFromContext_def)

record proxy_config =
  pcListen :: string
  pcPolicyPath :: string
  pcLogLevel :: string

definition loadConfig :: "(string \<Rightarrow> string) \<Rightarrow> proxy_config" where
  "loadConfig getenv =
     \<lparr>pcListen = trimSpace (getenv ''CAUTEUM_PROXY_LISTEN''), pcPolicyPath = trimSpace (getenv ''CAUTEUM_PROXY_POLICY''),
      pcLogLevel = trimSpace (getenv ''CAUTEUM_LOG_LEVEL'')\<rparr>"

section \<open>The caller's credentials stay behind\<close>

lemma hdrValues_foldl_add:
  "hdrValues (foldl (\<lambda>h v. hdrAdd h k v) h vs) k' =
     (if canonicalHeaderKey k' = canonicalHeaderKey k then hdrValues h k @ vs else hdrValues h k')"
proof (induction vs arbitrary: h)
  case Nil
  then show ?case by (simp add: hdrValues_def)
next
  case (Cons v vs)
  then show ?case by (auto simp: hdrValues_hdrAdd)
qed

lemma copyHeader_withheld:
  assumes "toLower k \<in> set withheldHeaders"
  shows "hdrValues (copyHeader h kv) k = hdrValues h k"
  using assms canonicalHeaderKey_toLower [of k "fst kv"] by (auto simp: copyHeader_def hdrValues_foldl_add)

lemma copied_withheld:
  "toLower k \<in> set withheldHeaders \<Longrightarrow> hdrValues (foldl copyHeader h hs) k = hdrValues h k"
  by (induction hs arbitrary: h) (simp_all add: copyHeader_withheld)

lemma authorization_keys:
  "toLower ''Authorization'' \<in> set withheldHeaders" "canonicalHeaderKey ''Content-Type'' \<noteq> canonicalHeaderKey ''Authorization''"
  by code_simp+

lemma inferenceHeader_authorization:
  "hdrValues (inferenceHeader cfg hs) ''Authorization'' = (if icAPIKey cfg \<noteq> [] then [''Bearer '' @ icAPIKey cfg] else [])"
proof -
  have "hdrValues (foldl copyHeader [] hs) ''Authorization'' = []"
    using authorization_keys by (simp add: copied_withheld) (simp add: hdrValues_def)
  then show ?thesis
    using authorization_keys(2) by (auto simp: inferenceHeader_def Let_def hdrValues_hdrSet)
qed

section \<open>The model is replaced\<close>

lemma putKey_lookup: "jsonKey (putKey kvs k v) k = Some v"
  by (simp add: jsonKey_def putKey_def)

lemma putKey_other: "k' \<noteq> k \<Longrightarrow> jsonKey (putKey kvs k v) k' = jsonKey kvs k'"
proof -
  assume k: "k' \<noteq> k"
  have "map_of (filter (\<lambda>kv. fst kv \<noteq> k) xs) k' = map_of xs k'" for xs :: "(string \<times> json) list"
    using k by (induction xs) auto
  from this [of "rev kvs"] show ?thesis using k by (simp add: jsonKey_def putKey_def rev_filter)
qed

lemma putKey_decodes: "anyDecodes (JObj kvs) \<Longrightarrow> anyDecodes (JObj (putKey kvs k (JStr s)))"
  by (auto simp: putKey_def list_all_iff)

text \<open>
  What the router needs of \<^verbatim>\<open>json.Marshal\<close>: a decoded object is written, and read back its ASCII keys have the
  string values they had, as far as these are UTF-8. Numbers may be written in another way.
\<close>

definition isAscii :: "string \<Rightarrow> bool" where
  "isAscii s \<longleftrightarrow> list_all (\<lambda>c. byteVal c < 128) s"

definition jsonEncoder :: "json_parser \<Rightarrow> (json \<Rightarrow> string option) \<Rightarrow> bool" where
  "jsonEncoder parseJSON marshal \<longleftrightarrow>
     (\<forall>kvs. anyDecodes (JObj kvs) \<longrightarrow>
        (\<exists>out kvs'. marshal (JObj kvs) = Some out \<and> parseJSON out = Some (JObj kvs') \<and>
           (\<forall>k t. isAscii k \<and> validUTF8 t \<and> jsonKey kvs k = Some (JStr t) \<longrightarrow> jsonKey kvs' k = Some (JStr t))))"

text \<open>
  An object without an oversized number leaves with the configured model and otherwise the strings of
  the caller.
\<close>

lemma model_replaced:
  assumes "jsonEncoder parseJSON marshal" "validUTF8 model" "parseJSON body = Some (JObj kvs)" "anyDecodes (JObj kvs)"
  shows "\<exists>out kvs'. rewriteModelJSON parseJSON marshal body model = Some out \<and> parseJSON out = Some (JObj kvs') \<and>
     jsonKey kvs' ''model'' = Some (JStr model) \<and>
     (\<forall>k t. isAscii k \<and> k \<noteq> ''model'' \<and> validUTF8 t \<and> jsonKey kvs k = Some (JStr t) \<longrightarrow> jsonKey kvs' k = Some (JStr t))"
proof -
  let ?kvs = "putKey kvs ''model'' (JStr model)"
  obtain out kvs' where out: "marshal (JObj ?kvs) = Some out" "parseJSON out = Some (JObj kvs')"
    and keys: "isAscii k \<Longrightarrow> validUTF8 t \<Longrightarrow> jsonKey ?kvs k = Some (JStr t) \<Longrightarrow> jsonKey kvs' k = Some (JStr t)" for k t
    using assms(1) putKey_decodes [OF assms(4)] unfolding jsonEncoder_def by blast
  have "isAscii ''model''" by code_simp
  then have "jsonKey kvs' ''model'' = Some (JStr model)" using keys assms(2) putKey_lookup by blast
  moreover have "rewriteModelJSON parseJSON marshal body model = Some out"
    using assms(3,4) out(1) by (simp add: rewriteModelJSON_def decodeMap_def)
  moreover have "jsonKey kvs' k = Some (JStr t)" if "isAscii k" "k \<noteq> ''model''" "validUTF8 t" "jsonKey kvs k = Some (JStr t)" for k t
    using keys [OF that(1,3)] putKey_other [OF that(2)] that(4) by simp
  ultimately show ?thesis using out(2) by blast
qed

text \<open>
  The body that may be sent for a caller's body: without a configured model, and when it is empty or does
  not decode as an object, the caller's, up to the limit; else an object with the configured model and
  the other strings of the caller's.
\<close>

definition bodyRouted :: "json_parser \<Rightarrow> string \<Rightarrow> string \<Rightarrow> string \<Rightarrow> bool" where
  "bodyRouted parseJSON model raw out \<longleftrightarrow>
     (let body = readLimit 8388608 raw; object = (\<lambda>kvs. parseJSON body = Some (JObj kvs) \<and> anyDecodes (JObj kvs)) in
      if model = [] \<or> body = [] \<or> (\<forall>kvs. \<not> object kvs) then out = body
      else \<exists>kvs kvs'. object kvs \<and> parseJSON out = Some (JObj kvs') \<and> jsonKey kvs' ''model'' = Some (JStr model) \<and>
        (\<forall>k t. isAscii k \<and> k \<noteq> ''model'' \<and> validUTF8 t \<and> jsonKey kvs k = Some (JStr t) \<longrightarrow> jsonKey kvs' k = Some (JStr t)))"

lemma rewriteModelJSON_unchanged:
  "(\<forall>kvs. \<not> (parseJSON body = Some (JObj kvs) \<and> anyDecodes (JObj kvs))) \<Longrightarrow> rewriteModelJSON parseJSON marshal body model = Some out \<Longrightarrow>
   out = body"
  by (auto simp: rewriteModelJSON_def decodeMap_def split: option.splits if_splits json.splits)

lemma inferenceBody_routed:
  assumes "inferenceBody api cfg raw = Some out" "jsonEncoder (iaJSON api) (iaMarshal api)" "validUTF8 (icModel cfg)"
  shows "bodyRouted (iaJSON api) (icModel cfg) raw out"
proof -
  let ?body = "readLimit 8388608 raw"
  let ?object = "\<lambda>kvs. iaJSON api ?body = Some (JObj kvs) \<and> anyDecodes (JObj kvs)"
  show ?thesis
  proof (cases "icModel cfg = [] \<or> ?body = [] \<or> (\<forall>kvs. \<not> ?object kvs)")
    case True
    have "out = ?body"
    proof (cases "icModel cfg = [] \<or> ?body = []")
      case False
      then show ?thesis
        using True assms(1) rewriteModelJSON_unchanged [of "iaJSON api" ?body "iaMarshal api" "icModel cfg" out]
        by (auto simp: inferenceBody_def Let_def)
    qed (use assms(1) in \<open>auto simp: inferenceBody_def Let_def\<close>)
    then show ?thesis using True unfolding bodyRouted_def Let_def by (simp only: if_True)
  next
    case False
    then obtain kvs where "?object kvs" by blast
    with model_replaced [OF assms(2,3)] False assms(1) show ?thesis
      unfolding bodyRouted_def Let_def if_not_P [OF False] inferenceBody_def by (fastforce split: if_splits)
  qed
qed

text \<open>A number that exceeds a float keeps the caller's model.\<close>

lemma oversized_number_keeps_model:
  "parseJSON body = Some v \<Longrightarrow> \<not> anyDecodes v \<Longrightarrow> rewriteModelJSON parseJSON marshal body model = Some body"
  by (simp add: rewriteModelJSON_def)

lemma rewriteModelJSON_panics: "rewriteModelJSON parseJSON marshal body model = None \<longleftrightarrow> parseJSON body = Some JNull"
  by (auto simp: rewriteModelJSON_def decodeMap_def split: option.splits json.splits)

section \<open>Where a request goes\<close>

lemma getSchemeFrom_append:
  "getSchemeFrom raw seen cs = Inr (scheme, rest) \<Longrightarrow> scheme \<noteq> [] \<Longrightarrow> getSchemeFrom raw' seen (cs @ t) = Inr (scheme, rest @ t)"
  by (induction raw seen cs rule: getSchemeFrom.induct) (auto split: if_splits)

lemma getScheme_append:
  "getScheme s = Inr (scheme, rest) \<Longrightarrow> scheme \<noteq> [] \<Longrightarrow> getScheme (s @ t) = Inr (scheme, rest @ t)"
  unfolding getScheme_def by (rule getSchemeFrom_append)

lemma getSchemeFrom_alpha:
  "list_all isLowerAlpha cs \<Longrightarrow> seen @ cs \<noteq> [] \<Longrightarrow> getSchemeFrom raw seen (cs @ CHR '':'' # rest) = Inr (seen @ cs, rest)"
  by (induction cs arbitrary: seen) (auto simp: isLowerAlpha_def isUpperAlpha_def isDigit_def)

text \<open>A path after the upstream does not change the host.\<close>

lemma urlHostPort_path:
  assumes "hasAuthority up" "hasPrefix t ''/''"
  shows "urlHostPort (up @ t) = urlHostPort up"
proof -
  obtain scheme rest where g: "getScheme up = Inr (scheme, rest)" "scheme \<noteq> []" "hasPrefix rest ''//''"
    using assms(1) by (auto simp: hasAuthority_def split: sum.splits)
  obtain a where r: "rest = ''//'' @ a" using g(3) by (metis append_take_drop_id hasPrefix_def)
  obtain t' where t: "t = CHR ''/'' # t'" using assms(2) by (cases t) (auto simp: hasPrefix_def)
  have "takeWhile (\<lambda>c. c \<notin> set ''/?#'') (a @ t) = takeWhile (\<lambda>c. c \<notin> set ''/?#'') a"
    by (induction a) (auto simp: t)
  then show ?thesis
    using getScheme_append [OF g(1,2), of t] by (simp add: urlHostPort_def g(1) r hasPrefix_def)
qed

text \<open>User information does.\<close>

lemma urlHostPort_userinfo:
  assumes "list_all (\<lambda>c. c \<notin> set ''/?#'') auth" "list_all (\<lambda>c. isLowerAlpha c \<or> isDigit c \<or> c \<in> set ''.-:'') host"
  shows "urlHostPort (''https://'' @ auth @ ''@'' @ host @ ''/'') = host"
proof -
  have h: "c \<noteq> CHR ''/'' \<and> c \<noteq> CHR ''?'' \<and> c \<noteq> CHR ''#'' \<and> c \<noteq> CHR ''@''" if "c \<in> set host" for c
    using assms(2) that by (auto simp: list_all_iff isLowerAlpha_def isDigit_def)
  have g: "getScheme (''https'' @ CHR '':'' # rest) = Inr (''https'', rest)" for rest
    unfolding getScheme_def by (subst getSchemeFrom_alpha) (simp_all add: isLowerAlpha_def)
  have "takeWhile (\<lambda>c. c \<notin> set ''/?#'') ((auth @ ''@'' @ host) @ ''/'') = auth @ ''@'' @ host"
    using assms(1) h by (subst takeWhile_append2) (auto simp: list_all_iff)
  moreover have "takeWhile (\<lambda>c. c \<noteq> CHR ''@'') (rev (auth @ ''@'' @ host)) = rev host"
  proof -
    have "takeWhile (\<lambda>c. c \<noteq> CHR ''@'') (rev host @ CHR ''@'' # rev auth) = rev host"
      using h by (subst takeWhile_append2) auto
    then show ?thesis by simp
  qed
  ultimately show ?thesis
    using g [of "''//'' @ auth @ ''@'' @ host @ ''/''"] by (simp add: urlHostPort_def hasPrefix_def)
qed

lemma cutByte_without: "t \<notin> set s \<Longrightarrow> cutByte s t = (s, [], False)"
  by (induction s) auto

lemma parseRequestURI_rootless:
  assumes "list_all (\<lambda>c. isLowerAlpha c \<or> isDigit c \<or> c \<in> set ''.-:'') host"
  shows "parseRequestURI rooted (''x:@'' @ host @ ''/'') = Some (opaqueURL ''x'' (''@'' @ host @ ''/'') [] False)"
proof -
  have c: "\<not> byteVal c < 32 \<and> byteVal c \<noteq> 127 \<and> c \<noteq> CHR ''?''" if "c \<in> set host" for c
    using assms that by (auto simp: list_all_iff isLowerAlpha_def isDigit_def)
  have "getScheme (''x:@'' @ host @ ''/'') = Inr (''x'', ''@'' @ host @ ''/'')"
    using getSchemeFrom_alpha [of "''x''" "[]"] by (simp add: getScheme_def isLowerAlpha_def)
  moreover have "cutByte (''@'' @ host @ ''/'') (CHR ''?'') = (''@'' @ host @ ''/'', [], False)"
    using c by (intro cutByte_without) auto
  moreover have "\<not> hasSuffix (''@'' @ host @ ''/'') ''?''"
    by (simp add: hasSuffix_def)
  moreover have "\<not> list_ex (\<lambda>c. byteVal c < 32 \<or> byteVal c = 127) (''x:@'' @ host @ ''/'')"
    using c by (auto simp: list_ex_iff)
  ultimately show ?thesis by (simp add: parseRequestURI_def hasPrefix_def)
qed

text \<open>
  The router panics on exactly one kind of request: a body that is the JSON value null while a model is
  configured.
\<close>

lemma inference_panics_on_null:
  "proxyInferenceRequest api cfg writeErr req = None \<longleftrightarrow>
     readLimit 8388608 (crBody req) \<noteq> [] \<and> icModel cfg \<noteq> [] \<and> iaJSON api (readLimit 8388608 (crBody req)) = Some JNull"
  by (auto simp: proxyInferenceRequest_def inferenceBody_def Let_def rewriteModelJSON_panics)

section \<open>Properties\<close>

text \<open>
  C37: A request that the inference router sends carries the configured key as its only authorization or
  none at all, whatever headers the caller sent. It belongs to one of the caller's requests: it has its
  method, and its URL is the upstream followed by its target, so that it goes to the host of the upstream
  when the target is a path. Its body is an object with the configured model and otherwise the caller's
  strings, if a model is configured and the caller's body decodes as an object, for a JSON encoder that writes what it
  is given and a model in UTF-8; any other body, among them arrays, objects with a number beyond the
  range of a float and what is no JSON, is sent as the caller wrote it, with its model, up to 8 MiB.
\<close>

theorem inference_requests_confined:
  assumes "handleInferenceLocal api cfg handshakeErr reqs = Some (sent, written, log)" and "r \<in> set sent"
  shows "icUpstream cfg \<noteq> [] \<and>
     hdrValues (irHeader r) ''Authorization'' = (if icAPIKey cfg \<noteq> [] then [''Bearer '' @ icAPIKey cfg] else []) \<and>
     (\<exists>req e. (req, e) \<in> set reqs \<and> irMethod r = crMethod req \<and>
        (jsonEncoder (iaJSON api) (iaMarshal api) \<and> validUTF8 (icModel cfg) \<longrightarrow>
           bodyRouted (iaJSON api) (icModel cfg) (crBody req) (irBody r)) \<and>
        irURI r = icUpstream cfg @ urlRequestURI (crURL req) \<and>
        (hasAuthority (icUpstream cfg) \<and> hasPrefix (urlRequestURI (crURL req)) ''/'' \<longrightarrow>
           urlHostPort (irURI r) = urlHostPort (icUpstream cfg)))"
proof -
  define ok where "ok = (\<lambda>(rs :: (caller_request \<times> string option) list) (r :: inference_request).
     hdrValues (irHeader r) ''Authorization'' = (if icAPIKey cfg \<noteq> [] then [''Bearer '' @ icAPIKey cfg] else []) \<and>
     (\<exists>req e. (req, e) \<in> set rs \<and> irMethod r = crMethod req \<and> inferenceBody api cfg (crBody req) = Some (irBody r) \<and>
        irURI r = icUpstream cfg @ urlRequestURI (crURL req)))"
  have one: "proxyInferenceRequest api cfg e req = Some out \<Longrightarrow> ioSent out = Some r \<Longrightarrow> ok ((req, e) # rs) r" for e req out rs r
  proof -
    assume "proxyInferenceRequest api cfg e req = Some out" "ioSent out = Some r"
    then have "hdrValues (irHeader r) ''Authorization'' = (if icAPIKey cfg \<noteq> [] then [''Bearer '' @ icAPIKey cfg] else [])"
      "irMethod r = crMethod req \<and> inferenceBody api cfg (crBody req) = Some (irBody r) \<and> irURI r = icUpstream cfg @ urlRequestURI (crURL req)"
      by (auto simp: proxyInferenceRequest_def Let_def inferenceHeader_authorization split: option.splits)
    then show "ok ((req, e) # rs) r"
      unfolding ok_def by (metis list.set_intros(1))
  qed
  have more: "ok rs r \<Longrightarrow> ok (p # rs) r" for p rs r
    unfolding ok_def by auto
  have served: "serveInference api cfg rs = Some (ss, ws, lg) \<Longrightarrow> r \<in> set ss \<Longrightarrow> ok rs r" for rs ss ws lg r
  proof (induction rs arbitrary: ss ws lg)
    case (Cons p rs)
    obtain req e where p: "p = (req, e)" by (cases p)
    obtain out where out: "proxyInferenceRequest api cfg e req = Some out"
      using Cons.prems(1) by (auto simp: p split: option.splits)
    have "ioSent out = Some r \<or> (\<exists>ss' ws' lg'. serveInference api cfg rs = Some (ss', ws', lg') \<and> r \<in> set ss')"
      using Cons.prems by (auto simp: p out Let_def split: option.splits)
    then show ?case using one [OF out] Cons.IH more by (auto simp: p)
  qed simp
  have "icUpstream cfg \<noteq> [] \<and> (\<exists>ws lg. serveInference api cfg reqs = Some (sent, ws, lg))"
    using assms by (auto simp: handleInferenceLocal_def Let_def split: if_splits option.splits)
  then have "icUpstream cfg \<noteq> []" "ok reqs r" using served assms(2) by auto
  then show ?thesis unfolding ok_def using urlHostPort_path inferenceBody_routed by metis
qed

definition exampleInference :: inference_config where
  "exampleInference = \<lparr>icUpstream = ''https://up'', icModel = ''m'', icTimeoutSec = 60, icAPIKey = ''key''\<rparr>"

text \<open>An encoder of the string members of objects that satisfies the contract.\<close>

fun quoted :: "string \<Rightarrow> string" where
  "quoted [] = ''.''"
| "quoted (c # cs) = CHR '','' # c # quoted cs"

fun unquoted :: "string \<Rightarrow> string \<times> string" where
  "unquoted (a # c # r) = (if a = CHR '','' then (case unquoted r of (s, r') \<Rightarrow> (c # s, r')) else ([], c # r))"
| "unquoted _ = ([], [])"

fun writeObject :: "(string \<times> json) list \<Rightarrow> string" where
  "writeObject [] = []"
| "writeObject ((k, v) # kvs) = (case v of JStr t \<Rightarrow> quoted k @ quoted t @ writeObject kvs | _ \<Rightarrow> writeObject kvs)"

fun readObject :: "nat \<Rightarrow> string \<Rightarrow> (string \<times> json) list" where
  "readObject 0 s = []"
| "readObject (Suc n) s =
     (if s = [] then []
      else (case unquoted s of (k, r) \<Rightarrow> (case unquoted r of (t, r') \<Rightarrow> (k, JStr t) # readObject n r')))"

definition isString :: "string \<times> json \<Rightarrow> bool" where
  "isString kv \<longleftrightarrow> (case snd kv of JStr _ \<Rightarrow> True | _ \<Rightarrow> False)"

lemma quoted_nonempty: "quoted s \<noteq> []"
  by (cases s) simp_all

lemma unquoted_quoted: "unquoted (quoted s @ r) = (s, r)"
  by (induction s) (cases r; simp)+

lemma readObject_writeObject: "length (writeObject kvs) \<le> n \<Longrightarrow> readObject n (writeObject kvs) = filter isString kvs"
proof (induction kvs arbitrary: n)
  case Nil
  then show ?case by (cases n) simp_all
next
  case (Cons kv kvs)
  obtain k v where kv: "kv = (k, v)" by (cases kv)
  show ?case
  proof (cases "\<exists>t. v = JStr t")
    case True
    then obtain t where t: "v = JStr t" by blast
    have "1 \<le> length (quoted k)" using quoted_nonempty [of k] by (cases "quoted k") simp_all
    then have "0 < n" "length (writeObject kvs) \<le> n - 1" using Cons.prems unfolding kv t by (simp_all del: quoted.simps)
    then obtain n' where "n = Suc n'" "readObject n' (writeObject kvs) = filter isString kvs"
      using Cons.IH by (cases n) auto
    moreover have "isString kv" by (simp add: kv t isString_def)
    ultimately show ?thesis by (simp add: kv t unquoted_quoted quoted_nonempty)
  next
    case False
    then show ?thesis using Cons by (cases v) (auto simp: kv isString_def)
  qed
qed

lemma filter_isString: "jsonKey kvs k = Some (JStr t) \<Longrightarrow> jsonKey (filter isString kvs) k = Some (JStr t)"
proof -
  have "map_of xs k = Some (JStr t) \<Longrightarrow> map_of (filter isString xs) k = Some (JStr t)" for xs
    by (induction xs) (auto simp: isString_def split: if_splits)
  then show "jsonKey kvs k = Some (JStr t) \<Longrightarrow> jsonKey (filter isString kvs) k = Some (JStr t)"
    unfolding jsonKey_def rev_filter by blast
qed

definition exampleInferenceAPI :: inference_api where
  "exampleInferenceAPI =
     \<lparr>iaJSON = (\<lambda>s. Some (JObj (readObject (length s) s))),
      iaMarshal = (\<lambda>v. case v of JObj kvs \<Rightarrow> Some (writeObject kvs) | _ \<Rightarrow> None), iaNewRequest = (\<lambda>_ _. None),
      iaDo = (\<lambda>_ _. Inr (200, ''200 OK'', [], ''ok''))\<rparr>"

lemma example_encoder: "jsonEncoder (iaJSON exampleInferenceAPI) (iaMarshal exampleInferenceAPI)"
  by (auto simp: jsonEncoder_def exampleInferenceAPI_def readObject_writeObject filter_isString)

definition exampleCall :: caller_request where
  "exampleCall =
     \<lparr>crMethod = ''POST'', crURL = pathURL ''/v1'', crHeader = [(''Authorization'', [''Bearer mine''])],
      crBody = writeObject [(''model'', JStr ''other''), (''prompt'', JStr ''hi'')]\<rparr>"

theorem inference_requests_confined_witness:
  "\<exists>r kvs written log. handleInferenceLocal exampleInferenceAPI exampleInference None [(exampleCall, None)] = Some ([r], written, log) \<and>
     urlHostPort (irURI r) = ''up'' \<and> hdrValues (irHeader r) ''Authorization'' = [''Bearer key''] \<and>
     iaJSON exampleInferenceAPI (irBody r) = Some (JObj kvs) \<and> jsonKey kvs ''model'' = Some (JStr ''m'') \<and> jsonKey kvs ''prompt'' = Some (JStr ''hi'')"
proof -
  have "map_option (\<lambda>(sent, written, log). length sent) (handleInferenceLocal exampleInferenceAPI exampleInference None [(exampleCall, None)]) = Some 1"
    by code_simp
  then obtain r written log where
      h: "handleInferenceLocal exampleInferenceAPI exampleInference None [(exampleCall, None)] = Some ([r], written, log)"
    by (auto simp: length_Suc_conv)
  have e: "hasAuthority (icUpstream exampleInference)" "hasPrefix (urlRequestURI (crURL exampleCall)) ''/''"
    "urlHostPort (icUpstream exampleInference) = ''up''" "validUTF8 (icModel exampleInference)" by code_simp+
  let ?body = "readLimit 8388608 (crBody exampleCall)" and ?kvs = "[(''model'', JStr ''other''), (''prompt'', JStr ''hi'')]"
  have b: "iaJSON exampleInferenceAPI ?body = Some (JObj ?kvs)" "anyDecodes (JObj ?kvs)" "?body \<noteq> []"
    "jsonKey ?kvs ''prompt'' = Some (JStr ''hi'')" "isAscii ''prompt''" "validUTF8 ''hi''" by code_simp+
  from inference_requests_confined [OF h, of r] e example_encoder
  have sent: "hdrValues (irHeader r) ''Authorization'' = [''Bearer key'']" "urlHostPort (irURI r) = ''up''"
    and routed: "bodyRouted (iaJSON exampleInferenceAPI) ''m'' (crBody exampleCall) (irBody r)"
    by (auto simp: exampleInference_def)
  from routed b obtain kvs where "iaJSON exampleInferenceAPI (irBody r) = Some (JObj kvs)" "jsonKey kvs ''model'' = Some (JStr ''m'')"
    "jsonKey kvs ''prompt'' = Some (JStr ''hi'')"
    unfolding bodyRouted_def Let_def by (auto split: if_splits)
  then show ?thesis using h sent by blast
qed

text \<open>
  C38: The caller can have the router's key sent to a host of its choice. A target with a scheme and no
  slash is opaque, and the router appends it to the upstream as it stands: with an at sign in front, the
  upstream's host becomes user information and what follows is the host.
\<close>

theorem inference_key_escapes:
  assumes up: "icUpstream cfg = ''https://'' @ auth" "list_all (\<lambda>c. c \<notin> set ''/?#'') auth"
    and host: "list_all (\<lambda>c. isLowerAlpha c \<or> isDigit c \<or> c \<in> set ''.-:'') host"
    and accepted: "iaNewRequest api ''GET'' (icUpstream cfg @ ''@'' @ host @ ''/'') = None"
  shows "\<exists>u r written log.
     parseRequestURI rooted (''x:@'' @ host @ ''/'') = Some u \<and>
     handleInferenceLocal api cfg None [(\<lparr>crMethod = ''GET'', crURL = u, crHeader = [], crBody = []\<rparr>, None)] = Some ([r], written, log) \<and>
     urlHostPort (irURI r) = host \<and>
     hdrValues (irHeader r) ''Authorization'' = (if icAPIKey cfg \<noteq> [] then [''Bearer '' @ icAPIKey cfg] else [])"
proof -
  let ?t = "''@'' @ host @ ''/''"
  let ?req = "\<lparr>crMethod = ''GET'', crURL = opaqueURL ''x'' ?t [] False, crHeader = [], crBody = []\<rparr>"
  have uri: "urlRequestURI (crURL ?req) = ?t"
    by (simp add: urlRequestURI_def opaqueURL_def hasPrefix_def)
  have "inferenceBody api cfg [] = Some []"
    by (simp add: inferenceBody_def readLimit_def)
  then obtain r written log where
    h: "handleInferenceLocal api cfg None [(?req, None)] = Some ([r], written, log)" "irURI r = icUpstream cfg @ ?t"
      "irHeader r = inferenceHeader cfg []"
    using accepted uri by (auto simp: handleInferenceLocal_def proxyInferenceRequest_def up(1) Let_def split: sum.splits)
  have "urlHostPort (icUpstream cfg @ ?t) = host"
    unfolding up(1) append_assoc by (rule urlHostPort_userinfo [OF up(2) host])
  then show ?thesis
    using h inferenceHeader_authorization [of cfg "[]"]
    by (intro exI [of _ "opaqueURL ''x'' ?t [] False"] exI [of _ r] exI [of _ written] exI [of _ log] conjI
        parseRequestURI_rootless [OF host]) simp_all
qed

theorem inference_key_escapes_witness:
  "\<exists>u r written log. parseRequestURI (\<lambda>_. None) ''x:@evil.example/'' = Some u \<and>
     handleInferenceLocal exampleInferenceAPI exampleInference None
       [(\<lparr>crMethod = ''GET'', crURL = u, crHeader = [], crBody = []\<rparr>, None)] = Some ([r], written, log) \<and>
     urlHostPort (irURI r) = ''evil.example'' \<and> hdrValues (irHeader r) ''Authorization'' = [''Bearer key'']"
proof -
  have "icUpstream exampleInference = ''https://'' @ ''up''" "list_all (\<lambda>c. c \<notin> set ''/?#'') ''up''"
    "list_all (\<lambda>c. isLowerAlpha c \<or> isDigit c \<or> c \<in> set ''.-:'') ''evil.example''"
    "iaNewRequest exampleInferenceAPI ''GET'' (icUpstream exampleInference @ ''@'' @ ''evil.example'' @ ''/'') = None"
    "icAPIKey exampleInference = ''key''"
    by code_simp+
  then show ?thesis
    using inference_key_escapes [of exampleInference "''up''" "''evil.example''" exampleInferenceAPI "\<lambda>_. None"] by simp
qed

end
