(* ===== verification/Multi_Audit.thy ===== *)
theory Multi_Audit
  imports Go_Prelude "HOL-Library.List_Lexorder" "HOL-Library.Char_ord" "HOL-Library.Multiset"
begin

text \<open>
  The audit sinks, \<^verbatim>\<open>proxy/multiaudit.go\<close>: writers, a file for each day with old days pruned, and batches for
  the gateway. The file system and the sinks answer through an argument of each call; the state keeps, in order, the batches
  handed to the delivery goroutines, and \<open>audit_run\<close> lets these end, with or without an error. Time is in nanoseconds.
\<close>

section \<open>State\<close>

record audit_line =
  alTS :: int
  alSource :: string
  alLevel :: string
  alText :: string

definition auditBatchSize :: nat where
  "auditBatchSize = 8"

definition auditFlushInterval :: int where
  "auditFlushInterval = 2 * 10 ^ 9"

definition auditRetentionDays :: nat where
  "auditRetentionDays = 3"

text \<open>\<open>maFile\<close> is the open file; \<open>maLastPush\<close> is absent before the first push. The last part collects the batches.\<close>

record multi_audit =
  maLogDir :: string
  maSandbox :: string
  maSource :: string
  maPusher :: bool
  maFile :: "string option"
  maFileDay :: string
  maBuf :: "audit_line list"
  maLastPush :: "int option"
  maDir :: "string list"
  maClosed :: "string list"
  maSent :: "audit_line list list"

text \<open>
  The surroundings of one call: the time, the day it falls on, errors of the file system, whether a file
  can be removed, and what each sink answers: the number of bytes and an error. \<open>auPrimary\<close> is the writer
  of the constructor.
\<close>

record audit_world =
  auNow :: int
  auDay :: string
  auMkdirErr :: "string option"
  auOpenErr :: "string option"
  auRemoves :: "string \<Rightarrow> bool"
  auPrimary :: "string \<Rightarrow> int \<times> string option"
  auFile :: "string \<Rightarrow> int \<times> string option"
  auCloseErr :: "string option"

section \<open>Operations\<close>

definition logName :: "string \<Rightarrow> string" where
  "logName day = ''cauteum.'' @ day @ ''.log''"

definition isLogName :: "string \<Rightarrow> bool" where
  "isLogName name \<longleftrightarrow> hasPrefix name ''cauteum.'' \<and> hasSuffix name ''.log''"

text \<open>Opening with \<^verbatim>\<open>O_CREATE\<close>; the directory is listed in the order of the names.\<close>

definition createEntry :: "string \<Rightarrow> string list \<Rightarrow> string list" where
  "createEntry name dir = (if name \<in> set dir then dir else insort name dir)"

definition pruneLogs :: "(string \<Rightarrow> bool) \<Rightarrow> string list \<Rightarrow> string list" where
  "pruneLogs removes dir =
     (let logs = filter isLogName dir in
      if length logs > auditRetentionDays
      then (let old = take (length logs - auditRetentionDays) logs in filter (\<lambda>name. \<not> (name \<in> set old \<and> removes name)) dir)
      else dir)"

definition rotateFileLocked :: "audit_world \<Rightarrow> multi_audit \<Rightarrow> string option \<times> multi_audit" where
  "rotateFileLocked w m =
     (if maLogDir m = [] then (None, m)
      else if maFile m \<noteq> None \<and> maFileDay m = auDay w then (None, m)
      else
        (let m1 = (case maFile m of Some f \<Rightarrow> m\<lparr>maFile := None, maClosed := maClosed m @ [f]\<rparr> | None \<Rightarrow> m) in
         case auMkdirErr w of
           Some err \<Rightarrow> (Some err, m1)
         | None \<Rightarrow>
             (case auOpenErr w of
                Some err \<Rightarrow> (Some err, m1)
              | None \<Rightarrow>
                  (None, m1\<lparr>maFile := Some (logName (auDay w)), maFileDay := auDay w,
                            maDir := pruneLogs (auRemoves w) (createEntry (logName (auDay w)) (maDir m1))\<rparr>))))"

text \<open>\<open>dir\<close> is what the log directory holds; an error of the first rotation is dropped.\<close>

definition NewMultiAudit :: "audit_world \<Rightarrow> string list \<Rightarrow> string \<Rightarrow> string \<Rightarrow> bool \<Rightarrow> multi_audit" where
  "NewMultiAudit w dir logDir sandbox pusher =
     snd (rotateFileLocked w
       \<lparr>maLogDir = trimSpace logDir, maSandbox = trimSpace sandbox, maSource = ''proxy'',
        maPusher = (pusher \<and> trimSpace sandbox \<noteq> []), maFile = None, maFileDay = [], maBuf = [], maLastPush = None,
        maDir = dir, maClosed = [], maSent = []\<rparr>)"

definition flushGWLocked :: "int \<Rightarrow> multi_audit \<Rightarrow> multi_audit" where
  "flushGWLocked now m =
     (if \<not> maPusher m \<or> maBuf m = [] then m
      else m\<lparr>maBuf := [], maLastPush := Some now, maSent := maSent m @ [maBuf m]\<rparr>)"

definition auditLevel :: "string \<Rightarrow> string" where
  "auditLevel line =
     (if contains line ''[MED]'' then ''MED'' else if contains line ''[HIGH]'' then ''HIGH''
      else if contains line '' OCSF '' then ''OCSF'' else ''INFO'')"

definition bufferLine :: "int \<Rightarrow> string \<Rightarrow> multi_audit \<Rightarrow> multi_audit" where
  "bufferLine now line m =
     (if line = [] \<or> \<not> maPusher m then m
      else
        (let m1 = m\<lparr>maBuf := maBuf m @ [\<lparr>alTS = now, alSource = maSource m, alLevel = auditLevel line, alText = line\<rparr>]\<rparr> in
         if length (maBuf m1) \<ge> auditBatchSize \<or>
            (case maLastPush m1 of None \<Rightarrow> True | Some t \<Rightarrow> now - t > auditFlushInterval)
         then flushGWLocked now m1 else m1))"

text \<open>One sink: the count and the errors so far, extended.\<close>

definition writeSink :: "(string \<Rightarrow> int \<times> string option) \<Rightarrow> string \<Rightarrow> int \<times> string list \<Rightarrow> int \<times> string list" where
  "writeSink sink p acc =
     (case (acc, sink p) of ((n, errs), (written, err)) \<Rightarrow>
        (min n written,
         errs @ (case err of Some e \<Rightarrow> [e] | None \<Rightarrow> if written < int (length p) then [''short write''] else [])))"

definition writeAudit :: "audit_world \<Rightarrow> string \<Rightarrow> multi_audit \<Rightarrow> (int \<times> string list) \<times> multi_audit" where
  "writeAudit w p m =
     (case rotateFileLocked w m of
        (rotErr, m1) \<Rightarrow>
          (let r1 = writeSink (auPrimary w) p (int (length p), case rotErr of Some e \<Rightarrow> [e] | None \<Rightarrow> []);
               r2 = (if maFile m1 \<noteq> None then writeSink (auFile w) p r1 else r1) in
           (r2, bufferLine (auNow w) (trimRightSet p [CHR 0x0D, CHR 0x0A]) m1)))"

definition closeAudit :: "audit_world \<Rightarrow> multi_audit \<Rightarrow> string option \<times> multi_audit" where
  "closeAudit w m =
     (let m1 = flushGWLocked (auNow w) m in
      case maFile m1 of
        Some f \<Rightarrow> (auCloseErr w, m1\<lparr>maClosed := maClosed m1 @ [f]\<rparr>)
      | None \<Rightarrow> (None, m1))"

definition LifecycleReady :: "string \<Rightarrow> string \<Rightarrow> string" where
  "LifecycleReady ts detail = ts @ '' OCSF LIFECYCLE:START [INFO] ALLOWED '' @ detail @ [CHR 0x0A]"

section \<open>Every line is handed over once\<close>

text \<open>The specification: what a list of lines becomes for the gateway.\<close>

definition gatewayLine :: "string \<Rightarrow> int \<times> string \<Rightarrow> audit_line option" where
  "gatewayLine source e =
     (case e of (now, p) \<Rightarrow>
        (let line = trimRightSet p [CHR 0x0D, CHR 0x0A] in
         if line = [] then None else Some \<lparr>alTS = now, alSource = source, alLevel = auditLevel line, alText = line\<rparr>))"

text \<open>
  The goroutines that post the batches: a batch that is handed over is posted by a goroutine of its own, in any order with
  the others, and one whose call of the gateway returns an error is dropped (\<^verbatim>\<open>flushGWLocked\<close>).
\<close>

record audit_delivery =
  adAudit :: multi_audit
  adPosting :: "audit_line list list"
  adPosted :: "audit_line list list"
  adDropped :: "audit_line list list"

definition handOver :: "multi_audit \<Rightarrow> audit_delivery \<Rightarrow> audit_delivery" where
  "handOver m d = d\<lparr>adAudit := m, adPosting := adPosting d @ drop (length (maSent (adAudit d))) (maSent m)\<rparr>"

text \<open>Any run: writes, the flush of closing, and the ends of the goroutines; with the lines written so far.\<close>

inductive audit_run :: "audit_delivery \<Rightarrow> (int \<times> string) list \<Rightarrow> audit_delivery \<Rightarrow> bool" for d0 where
  start: "audit_run d0 [] d0"
| written: "audit_run d0 ws d \<Longrightarrow> audit_run d0 (ws @ [(auNow w, p)]) (handOver (snd (writeAudit w p (adAudit d))) d)"
| closed: "audit_run d0 ws d \<Longrightarrow> audit_run d0 ws (handOver (snd (closeAudit w (adAudit d))) d)"
| posted: "audit_run d0 ws d \<Longrightarrow> adPosting d = bs @ b # bs' \<Longrightarrow>
     audit_run d0 ws (d\<lparr>adPosting := bs @ bs', adPosted := adPosted d @ [b]\<rparr>)"
| dropped: "audit_run d0 ws d \<Longrightarrow> adPosting d = bs @ b # bs' \<Longrightarrow>
     audit_run d0 ws (d\<lparr>adPosting := bs @ bs', adDropped := adDropped d @ [b]\<rparr>)"

definition newDelivery :: "audit_world \<Rightarrow> string list \<Rightarrow> string \<Rightarrow> string \<Rightarrow> bool \<Rightarrow> audit_delivery" where
  "newDelivery w dir logDir sandbox pusher =
     \<lparr>adAudit = NewMultiAudit w dir logDir sandbox pusher, adPosting = [], adPosted = [], adDropped = []\<rparr>"

text \<open>Batches are not empty and hold at most eight lines; fewer than eight lines wait.\<close>

definition batchesOk :: "multi_audit \<Rightarrow> bool" where
  "batchesOk m \<longleftrightarrow>
     length (maBuf m) < auditBatchSize \<and> list_all (\<lambda>b. b \<noteq> [] \<and> length b \<le> auditBatchSize) (maSent m)"

lemma rotate_gateway [simp]:
  "maBuf (snd (rotateFileLocked w m)) = maBuf m" "maSent (snd (rotateFileLocked w m)) = maSent m"
  "maPusher (snd (rotateFileLocked w m)) = maPusher m" "maSource (snd (rotateFileLocked w m)) = maSource m"
  "maLogDir (snd (rotateFileLocked w m)) = maLogDir m"
  by (auto simp: rotateFileLocked_def Let_def split: option.splits)

lemma bufferLine_lines:
  assumes "maPusher m"
  shows "concat (maSent (bufferLine now (trimRightSet p [CHR 0x0D, CHR 0x0A]) m)) @ maBuf (bufferLine now (trimRightSet p [CHR 0x0D, CHR 0x0A]) m) =
           concat (maSent m) @ maBuf m @ List.map_filter (gatewayLine (maSource m)) [(now, p)]"
  using assms by (auto simp: bufferLine_def flushGWLocked_def gatewayLine_def List.map_filter_def Let_def)

lemma bufferLine_batches: "batchesOk m \<Longrightarrow> batchesOk (bufferLine now line m)"
  by (auto simp: batchesOk_def bufferLine_def flushGWLocked_def auditBatchSize_def Let_def)

lemma bufferLine_frame [simp]:
  "maPusher (bufferLine now line m) = maPusher m" "maSource (bufferLine now line m) = maSource m"
  by (simp_all add: bufferLine_def flushGWLocked_def Let_def)

lemma writeAudit_state:
  "snd (writeAudit w p m) = bufferLine (auNow w) (trimRightSet p [CHR 0x0D, CHR 0x0A]) (snd (rotateFileLocked w m))"
  by (simp add: writeAudit_def Let_def split: prod.split)

lemma batchesOk_rotate [simp]: "batchesOk (snd (rotateFileLocked w m)) = batchesOk m"
  by (simp add: batchesOk_def)

lemma map_filter_append: "List.map_filter f (xs @ ys) = List.map_filter f xs @ List.map_filter f ys"
  by (simp add: List.map_filter_def)

text \<open>
  What an operation keeps: the lines written so far are those handed over and those that wait, in order;
  the batches of goroutines that run or have ended are those handed over.
\<close>

definition auditInv :: "(int \<times> string) list \<Rightarrow> audit_delivery \<Rightarrow> bool" where
  "auditInv ws d \<longleftrightarrow>
     maPusher (adAudit d) \<and> maSource (adAudit d) = ''proxy'' \<and> batchesOk (adAudit d) \<and>
     concat (maSent (adAudit d)) @ maBuf (adAudit d) = List.map_filter (gatewayLine ''proxy'') ws \<and>
     mset (maSent (adAudit d)) = mset (adPosting d) + mset (adPosted d) + mset (adDropped d)"

lemma handOver_batches:
  assumes "auditInv ws d" "maSent m = maSent (adAudit d) @ new"
  shows "mset (maSent m) = mset (adPosting (handOver m d)) + mset (adPosted (handOver m d)) + mset (adDropped (handOver m d))"
  using assms by (simp add: auditInv_def handOver_def)

lemma bufferLine_sent: "\<exists>new. maSent (bufferLine now line m) = maSent m @ new"
  by (simp add: bufferLine_def flushGWLocked_def Let_def)

lemma auditInv_written:
  assumes "auditInv ws d"
  shows "auditInv (ws @ [(auNow w, p)]) (handOver (snd (writeAudit w p (adAudit d))) d)"
proof -
  let ?m = "snd (rotateFileLocked w (adAudit d))"
  let ?m' = "snd (writeAudit w p (adAudit d))"
  obtain new where new: "maSent ?m' = maSent (adAudit d) @ new"
    using bufferLine_sent [of "auNow w" "trimRightSet p [CHR 0x0D, CHR 0x0A]" ?m] by (auto simp: writeAudit_state)
  have lines: "concat (maSent ?m') @ maBuf ?m' = List.map_filter (gatewayLine ''proxy'') (ws @ [(auNow w, p)])"
  proof -
    have "maPusher ?m" and src: "maSource ?m = ''proxy''"
      and before: "concat (maSent ?m) @ maBuf ?m = List.map_filter (gatewayLine ''proxy'') ws"
      using assms by (simp_all add: auditInv_def)
    then show ?thesis
      using bufferLine_lines [of ?m "auNow w" p]
      unfolding writeAudit_state map_filter_append src before [symmetric] by simp
  qed
  have "batchesOk ?m'" "maPusher ?m'" "maSource ?m' = ''proxy''"
    using assms by (simp_all add: auditInv_def writeAudit_state bufferLine_batches)
  then show ?thesis using lines handOver_batches [OF assms new] by (simp add: auditInv_def) (simp add: handOver_def)
qed

lemma closeAudit_flushes:
  "maPusher m \<Longrightarrow> maBuf (snd (closeAudit w m)) = [] \<and> maSent (snd (closeAudit w m)) = (if maBuf m = [] then maSent m else maSent m @ [maBuf m])"
  by (auto simp: closeAudit_def flushGWLocked_def Let_def split: option.split)

lemma closeAudit_frame [simp]:
  "maPusher (snd (closeAudit w m)) = maPusher m" "maSource (snd (closeAudit w m)) = maSource m"
  by (auto simp: closeAudit_def flushGWLocked_def Let_def split: option.split)

lemma auditInv_closed:
  assumes "auditInv ws d"
  shows "auditInv ws (handOver (snd (closeAudit w (adAudit d))) d)"
proof -
  let ?m' = "snd (closeAudit w (adAudit d))"
  have flush: "maBuf ?m' = []" "maSent ?m' = (if maBuf (adAudit d) = [] then maSent (adAudit d) else maSent (adAudit d) @ [maBuf (adAudit d)])"
    using closeAudit_flushes assms by (auto simp: auditInv_def)
  then obtain new where new: "maSent ?m' = maSent (adAudit d) @ new" by (metis append.right_neutral)
  have "concat (maSent ?m') @ maBuf ?m' = List.map_filter (gatewayLine ''proxy'') ws" "batchesOk ?m'"
    using flush assms by (auto simp: auditInv_def batchesOk_def auditBatchSize_def)
  then show ?thesis using handOver_batches [OF assms new] assms by (simp add: auditInv_def) (simp add: handOver_def)
qed

lemma audit_run_inv: "audit_run d0 ws d \<Longrightarrow> auditInv [] d0 \<Longrightarrow> auditInv ws d"
proof (induction rule: audit_run.induct)
  case (written ws d w p)
  then show ?case by (blast intro: auditInv_written)
next
  case (closed ws d w)
  then show ?case by (blast intro: auditInv_closed)
qed (auto simp: auditInv_def)

section \<open>Retention\<close>

lemma filter_not_take: "distinct xs \<Longrightarrow> filter (\<lambda>x. x \<notin> set (take k xs)) xs = drop k xs"
proof -
  assume "distinct xs"
  then have "distinct (take k xs @ drop k xs)" by simp
  then have d: "set (take k xs) \<inter> set (drop k xs) = {}" unfolding distinct_append by blast
  have "filter (\<lambda>x. x \<notin> set (take k xs)) (take k xs @ drop k xs) = drop k xs"
    unfolding filter_append using d by (auto simp: filter_empty_conv filter_id_conv)
  then show ?thesis by simp
qed

text \<open>A rotation that opens a file, with every removal working, leaves the three newest logs by name.\<close>

lemma pruneLogs_newest:
  assumes "distinct dir"
  shows "filter isLogName (pruneLogs (\<lambda>_. True) dir) = drop (length (filter isLogName dir) - 3) (filter isLogName dir)"
proof -
  let ?logs = "filter isLogName dir"
  let ?k = "length ?logs - 3"
  have "filter isLogName (filter (\<lambda>name. name \<notin> set (take ?k ?logs)) dir) = filter (\<lambda>name. name \<notin> set (take ?k ?logs)) ?logs"
    by (simp add: conj_commute)
  then show ?thesis
    using assms filter_not_take [of ?logs ?k]
    by (simp add: pruneLogs_def auditRetentionDays_def Let_def)
qed

lemma createEntry_props: "distinct dir \<Longrightarrow> distinct (createEntry name dir)" "name \<in> set (createEntry name dir)"
  by (simp_all add: createEntry_def distinct_insort set_insort_key)

section \<open>Properties\<close>

text \<open>
  C39: Every line written to the audit writer is handed to exactly one goroutine that posts it to the
  gateway, with the level found in its text, or still waits: at any moment the batches handed over and
  the lines that wait are together the lines written so far, in order. A batch holds one to eight lines,
  fewer than eight wait, and closing hands over the rest. The goroutines end in any order: a batch is posted when its
  call of the gateway succeeds and given up when the call returns an error. The lines posted, given up, on
  their way and waiting are together the lines written, each as often as it was written; nothing is said of the order in which
  batches reach the gateway, and lines given up are not posted again.
\<close>

theorem audit_lines_handed_over_once:
  assumes "pusher" and "trimSpace sandbox \<noteq> []"
    and "audit_run (newDelivery w dir logDir sandbox pusher) ws d"
  shows "(let m = adAudit d; written = List.map_filter (gatewayLine ''proxy'') ws in
     concat (maSent m) @ maBuf m = written \<and>
     length (maBuf m) < auditBatchSize \<and> list_all (\<lambda>b. b \<noteq> [] \<and> length b \<le> auditBatchSize) (maSent m) \<and>
     concat (maSent (snd (closeAudit w' m))) = written \<and> maBuf (snd (closeAudit w' m)) = [] \<and>
     mset (concat (adPosted d)) + mset (concat (adDropped d)) + mset (concat (adPosting d)) + mset (maBuf m) = mset written)"
proof -
  have "auditInv [] (newDelivery w dir logDir sandbox pusher)"
    using assms(1,2) by (simp add: auditInv_def newDelivery_def NewMultiAudit_def batchesOk_def auditBatchSize_def List.map_filter_def)
  with audit_run_inv [OF assms(3)] have inv: "auditInv ws d" by blast
  have flat: "mset (concat xs) = sum_mset (image_mset mset (mset xs))" for xs :: "audit_line list list"
    by (induction xs) simp_all
  have "mset (concat (maSent (adAudit d))) = mset (concat (adPosting d)) + mset (concat (adPosted d)) + mset (concat (adDropped d))"
    using inv by (simp add: flat auditInv_def)
  moreover have "mset (concat (maSent (adAudit d))) + mset (maBuf (adAudit d)) = mset (List.map_filter (gatewayLine ''proxy'') ws)"
    using inv by (simp add: auditInv_def flip: mset_append)
  moreover have "concat (maSent (snd (closeAudit w' (adAudit d)))) = concat (maSent (adAudit d)) @ maBuf (adAudit d)"
    and "maBuf (snd (closeAudit w' (adAudit d))) = []"
    using inv closeAudit_flushes [of "adAudit d" w'] by (auto simp: auditInv_def)
  moreover have "concat (maSent (adAudit d)) @ maBuf (adAudit d) = List.map_filter (gatewayLine ''proxy'') ws"
    and "length (maBuf (adAudit d)) < auditBatchSize"
    and "list_all (\<lambda>b. b \<noteq> [] \<and> length b \<le> auditBatchSize) (maSent (adAudit d))"
    using inv by (simp_all add: auditInv_def batchesOk_def)
  ultimately show ?thesis
    unfolding Let_def by (intro conjI) (simp_all only: ac_simps)
qed

definition exampleAuditWorld :: "int \<Rightarrow> audit_world" where
  "exampleAuditWorld now =
     \<lparr>auNow = now, auDay = ''2026-01-02'', auMkdirErr = None, auOpenErr = None, auRemoves = (\<lambda>_. True),
      auPrimary = (\<lambda>p. (int (length p), None)), auFile = (\<lambda>p. (int (length p), None)), auCloseErr = None\<rparr>"

text \<open>Two lines are written; the first one makes a batch, whose goroutine ends.\<close>

theorem audit_lines_handed_over_once_witness:
  "\<exists>d. audit_run (newDelivery (exampleAuditWorld 0) [] ''/log'' ''box'' True) [(1, ''a [MED]''), (2, ''b'')] d \<and>
     map alText (concat (adPosted d)) = [''a [MED]''] \<and> map alText (concat (maSent (adAudit d)) @ maBuf (adAudit d)) = [''a [MED]'', ''b'']"
proof -
  let ?d0 = "newDelivery (exampleAuditWorld 0) [] ''/log'' ''box'' True"
  let ?d1 = "handOver (snd (writeAudit (exampleAuditWorld 1) ''a [MED]'' (adAudit ?d0))) ?d0"
  have w1: "audit_run ?d0 [(1, ''a [MED]'')] ?d1"
    using audit_run.written [OF audit_run.start, of ?d0 "exampleAuditWorld 1" "''a [MED]''"] by (simp add: exampleAuditWorld_def)
  have "map (map alText) (adPosting ?d1) = [[''a [MED]'']]" "adPosted ?d1 = []" by code_simp+
  then obtain b where b: "adPosting ?d1 = [] @ b # []" "map alText b = [''a [MED]'']" "adPosted ?d1 = []" by auto
  let ?d2 = "?d1\<lparr>adPosting := [], adPosted := [b]\<rparr>"
  have "audit_run ?d0 [(1, ''a [MED]'')] ?d2" using audit_run.posted [OF w1 b(1)] b(3) by simp
  from audit_run.written [OF this, of "exampleAuditWorld 2" "''b''"]
  have w2: "audit_run ?d0 [(1, ''a [MED]''), (2, ''b'')] (handOver (snd (writeAudit (exampleAuditWorld 2) ''b'' (adAudit ?d2))) ?d2)"
    by (simp add: exampleAuditWorld_def)
  have "trimSpace ''box'' \<noteq> []" by code_simp
  from audit_lines_handed_over_once [OF TrueI this w2, of "exampleAuditWorld 3"]
  have "concat (maSent (adAudit (handOver (snd (writeAudit (exampleAuditWorld 2) ''b'' (adAudit ?d2))) ?d2))) @
      maBuf (adAudit (handOver (snd (writeAudit (exampleAuditWorld 2) ''b'' (adAudit ?d2))) ?d2)) =
      List.map_filter (gatewayLine ''proxy'') [(1, ''a [MED]''), (2, ''b'')]"
    unfolding Let_def by blast
  moreover have "map alText (List.map_filter (gatewayLine ''proxy'') [(1, ''a [MED]''), (2, ''b'')]) = [''a [MED]'', ''b'']"
    by code_simp
  ultimately show ?thesis
    using w2 b(2) by (intro exI [of _ "handOver (snd (writeAudit (exampleAuditWorld 2) ''b'' (adAudit ?d2))) ?d2"] conjI) (simp_all add: handOver_def)
qed

end
