(* ===== verification/Server_Setup.thy ===== *)
theory Server_Setup
  imports HTTP_Exchange
begin

text \<open>
  The construction of the server and its listener, \<^verbatim>\<open>NewServer\<close>, \<^verbatim>\<open>appendEgressCerts\<close>, \<^verbatim>\<open>ListenAndServe\<close> and
  \<^verbatim>\<open>Serve\<close> of \<^verbatim>\<open>proxy/proxy.go\<close>, its setters, and the second half of \<^verbatim>\<open>handleAbsoluteHTTP\<close>. The policy engine,
  the PEM and certificate parsers, the pipeline and the grants read from the environment are arguments.
\<close>

section \<open>The egress certificates\<close>

record pem_block =
  pbType :: string
  pbHasHeaders :: bool
  pbBytes :: string

text \<open>
  \<^verbatim>\<open>pem.Decode\<close> gives a block and the rest; parsing gives the number of certificates. A read is absent on
  an error.
\<close>

record cert_api =
  pemDecode :: "string \<Rightarrow> (pem_block \<times> string) option"
  parseCertificates :: "string \<Rightarrow> nat option"
  systemRoots :: bool
  readBundle :: "string \<Rightarrow> string option"

text \<open>The loop, with fuel; the value is the number of certificates added.\<close>

fun appendLoop :: "nat \<Rightarrow> cert_api \<Rightarrow> string \<Rightarrow> nat \<Rightarrow> (string + nat) option" where
  "appendLoop 0 api remaining added = None"
| "appendLoop (Suc n) api remaining added =
     (if remaining = [] then Some (if added = 0 then Inl ''PEM bundle contains no certificates'' else Inr added)
      else (case pemDecode api remaining of
        None \<Rightarrow> Some (Inl ''invalid certificate PEM block'')
      | Some (block, rest) \<Rightarrow>
          if pbType block \<noteq> ''CERTIFICATE'' \<or> pbHasHeaders block then Some (Inl ''invalid certificate PEM block'')
          else (case parseCertificates api (pbBytes block) of
            None \<Rightarrow> Some (Inl ''invalid certificate in PEM bundle'')
          | Some k \<Rightarrow> if k = 0 then Some (Inl ''invalid certificate in PEM bundle'') else appendLoop n api (trimSpace rest) (added + k))))"

definition appendEgressCerts :: "cert_api \<Rightarrow> string \<Rightarrow> (string + nat) option" where
  "appendEgressCerts api bundle = appendLoop (Suc (length bundle)) api (trimSpace bundle) 0"

text \<open>The configured roots: none, an error that stops the server, or roots that replace the default.\<close>

definition egressRoots :: "cert_api \<Rightarrow> string \<Rightarrow> (string + bool) option" where
  "egressRoots api caEnv =
     (let caPath = trimSpace caEnv in
      if caPath = [] then Some (Inr False)
      else if \<not> systemRoots api then Some (Inl ''system certificate roots are unavailable'')
      else (case readBundle api caPath of
        None \<Rightarrow> Some (Inl ''read configured egress CA bundle'')
      | Some body \<Rightarrow>
          if int (length body) > 2 ^ 20 then Some (Inl ''configured egress CA bundle exceeds 1 MiB'')
          else map_option (\<lambda>r. case r of
              Inl err \<Rightarrow> Inl (''configured egress CA bundle is invalid: '' @ err)
            | Inr _ \<Rightarrow> Inr True) (appendEgressCerts api body)))"

section \<open>The server\<close>

record ('e, 's, 'g) server_setup =
  suEngine :: 'e
  suAudit :: string
  suCA :: bool
  suSecrets :: secret_store
  suGrants :: "'g token_grants"
  suPipeline :: "'s stage list option"
  suUpstreamRoots :: bool
  suConfigErr :: "string option"

text \<open>
  The default engine stands in for a missing one, and standard error for a missing audit writer; without
  a CA the server still serves what needs no interception.
\<close>

definition NewServer ::
    "'e \<Rightarrow> 'e option \<Rightarrow> string option \<Rightarrow> bool \<Rightarrow> cert_api \<Rightarrow> (string \<Rightarrow> string) \<Rightarrow> env_pkg \<Rightarrow> (string \<Rightarrow> (string \<times> 'g) list option) \<Rightarrow>
       ('g \<Rightarrow> string \<Rightarrow> int \<Rightarrow> string \<Rightarrow> string + string) \<Rightarrow> (string list \<Rightarrow> 's stage list option) \<Rightarrow> string list \<Rightarrow>
       ('e, 's, 'g) server_setup option" where
  "NewServer defaultEngine e audit caOk api lookupEnv env parseGrants spiffe pipelineFrom environ =
     map_option (\<lambda>roots.
       (let gs = (case loadTokenGrantsFromEnviron parseGrants environ of None \<Rightarrow> [] | Some gs \<Rightarrow> gs);
            none = \<lparr>grants = Map.empty, grantsEmpty = True, resolver = None\<rparr>;
            tg = SetTokenGrants gs none in
        \<lparr>suEngine = (case e of Some x \<Rightarrow> x | None \<Rightarrow> defaultEngine),
         suAudit = (case audit of Some w \<Rightarrow> w | None \<Rightarrow> ''stderr''), suCA = caOk,
         suSecrets = LoadSecretsFromEnviron env environ,
         suGrants = (if gs \<noteq> [] then SetTokenGrantResolver (Some spiffe) tg else tg),
         suPipeline = pipelineFrom environ,
         suUpstreamRoots = (roots = Inr True),
         suConfigErr = (case roots of Inl err \<Rightarrow> Some err | Inr _ \<Rightarrow> None)\<rparr>))
       (egressRoots api (lookupEnv ''CAUTEUM_EGRESS_CA_BUNDLE''))"

text \<open>The adapter of the sandbox manager has no audit writer of its own. The CA is only present or absent.\<close>

definition NewCONNECT ::
    "'e \<Rightarrow> 'e option \<Rightarrow> bool \<Rightarrow> cert_api \<Rightarrow> (string \<Rightarrow> string) \<Rightarrow> env_pkg \<Rightarrow> (string \<Rightarrow> (string \<times> 'g) list option) \<Rightarrow>
       ('g \<Rightarrow> string \<Rightarrow> int \<Rightarrow> string \<Rightarrow> string + string) \<Rightarrow> (string list \<Rightarrow> 's stage list option) \<Rightarrow> string list \<Rightarrow>
       ('e, 's, 'g) server_setup option" where
  "NewCONNECT defaultEngine e = NewServer defaultEngine e None"

definition SetSecrets :: "secret_store \<Rightarrow> ('e, 's, 'g) server_setup \<Rightarrow> ('e, 's, 'g) server_setup" where
  "SetSecrets store s = s\<lparr>suSecrets := store\<rparr>"

definition SetCA :: "bool \<Rightarrow> ('e, 's, 'g) server_setup \<Rightarrow> ('e, 's, 'g) server_setup" where
  "SetCA present s = s\<lparr>suCA := present\<rparr>"

definition CA :: "('e, 's, 'g) server_setup \<Rightarrow> bool" where
  "CA s = suCA s"

text \<open>
  How serving ends: the context is cancelled and then the HTTP server returns, or it returns on its own;
  no error, the error of a closed server, or another. The result tells whether requests were served.
\<close>

datatype serve_end =
    ContextDone "string option"
  | ServerReturned "string option"

definition errServerClosed :: string where
  "errServerClosed = ''http: Server closed''"

definition Serve :: "('e, 's, 'g) server_setup \<Rightarrow> string \<Rightarrow> serve_end \<Rightarrow> bool \<times> string option" where
  "Serve s cancelErr ending =
     (case suConfigErr s of
        Some err \<Rightarrow> (False, Some (''proxy configuration: '' @ err))
      | None \<Rightarrow>
          (True, case ending of
             ContextDone err \<Rightarrow> if err = Some errServerClosed then Some cancelErr else err
           | ServerReturned err \<Rightarrow> if err = Some errServerClosed then None else err))"

definition ListenAndServe :: "('e, 's, 'g) server_setup \<Rightarrow> string option \<Rightarrow> string \<Rightarrow> serve_end \<Rightarrow> bool \<times> string option" where
  "ListenAndServe s listenErr cancelErr ending =
     (case suConfigErr s of
        Some err \<Rightarrow> (False, Some (''proxy configuration: '' @ err))
      | None \<Rightarrow>
          (case listenErr of
             Some err \<Rightarrow> (False, Some (''proxy listen: '' @ err))
           | None \<Rightarrow> Serve s cancelErr ending))"

text \<open>Closing shuts down the HTTP server, if one was started.\<close>

definition CloseServer :: "bool \<Rightarrow> string option \<Rightarrow> string option" where
  "CloseServer started shutdownErr = (if started then shutdownErr else None)"

section \<open>Absolute-form requests upstream\<close>

text \<open>
  The dial under the rule's allowed addresses, the write and the response; a refusal with its text, or
  the response as it is relayed.
\<close>

record absolute_input =
  abDial :: "string list \<Rightarrow> string + unit"
  abWritten :: bool
  abResponse :: "string + http_response"

datatype absolute_reply =
    ErrorReply int string
  | RelayedReply http_response

text \<open>The values of every header are added to the writer's header.\<close>

definition relayedHeader :: "http_header \<Rightarrow> http_header" where
  "relayedHeader hs = foldl (\<lambda>h (k, vs). foldl (\<lambda>h v. hdrAdd h k v) h vs) [] hs"

definition absoluteExchange ::
    "'s stage list option \<Rightarrow> absolute_input \<Rightarrow> string list \<Rightarrow> http_request \<Rightarrow> string \<Rightarrow> string \<Rightarrow> int \<Rightarrow> string \<Rightarrow> absolute_reply \<times> audit_event list" where
  "absoluteExchange pipe i allowedIPs req reason host p path =
     (let failed = (\<lambda>err. auditEvent ''dial_error'' host p err True [] [] []) in
      case abDial i allowedIPs of
        Inl err \<Rightarrow> (ErrorReply 502 ''dial failed'', [failed err])
      | Inr _ \<Rightarrow>
          if \<not> abWritten i then (ErrorReply 502 ''upstream write failed'', [])
          else (case abResponse i of
            Inl err \<Rightarrow> (ErrorReply 502 ''upstream read failed'', [failed err])
          | Inr resp \<Rightarrow>
              (case runMiddlewareResponse pipe req host p path resp of
                 Inl _ \<Rightarrow> (ErrorReply 403 ''cauteum-proxy: response middleware denied'', [])
               | Inr resp' \<Rightarrow>
                   (RelayedReply (resp'\<lparr>respHeader := relayedHeader (respHeader resp')\<rparr>),
                    [auditEvent ''allow'' host p reason True (reqMethod req) path []]))))"

text \<open>
  The whole handler: the reply, the request that was written upstream with its host, and the log. The
  target is split into scheme, host and port.
\<close>

definition handleAbsoluteHTTP ::
    "('s, 'g) exchange_env \<Rightarrow> policy_engine option \<Rightarrow> absolute_input \<Rightarrow> request_target \<Rightarrow> string \<Rightarrow> string \<Rightarrow> string \<Rightarrow>
       http_request \<Rightarrow> string \<Rightarrow> (absolute_reply \<times> (string \<times> http_request) option \<times> audit_event list) option" where
  "handleAbsoluteHTTP x e i target scheme host portStr r bin =
     (case absoluteTarget scheme host portStr of
        Inl (code, msg) \<Rightarrow> Some (ErrorReply code msg, None, [])
      | Inr p \<Rightarrow>
          (case e of
             None \<Rightarrow> Some (ErrorReply 503 ''proxy not configured'', None, [])
           | Some pe \<Rightarrow>
               (let x' = x\<lparr>xEngine := pe\<rparr>;
                    d = decideHTTP (xJSON x') pe target r host p (escapedOrRoot r) bin;
                    reason = (case fst d of Inr dec \<Rightarrow> EngReason dec | Inl _ \<Rightarrow> []) in
                case absoluteRequest x' target host p r bin of
                  None \<Rightarrow> None
                | Some (Refuse code msg, log) \<Rightarrow> Some (ErrorReply code msg, None, log)
                | Some (Forward out m, log) \<Rightarrow>
                    (let allowedIPs = allowedIPsOf m;
                         (reply, log') = absoluteExchange (xPipeline x') i allowedIPs out reason host p (escapedOrRoot (snd d)) in
                     Some (reply, if isl (abDial i allowedIPs) then None else Some (absoluteUpstream host portStr out), log @ log')))))"

section \<open>Construction\<close>

lemma length_trimLeading: "length (trimLeading encs s) \<le> length s"
proof (induction encs s rule: trimLeading.induct)
  case (1 encs s)
  then show ?case
    by (subst trimLeading.simps) (fastforce simp: Let_def)
qed

lemma length_trimSpace: "length (trimSpace s) \<le> length s"
  using length_trimLeading [of "map rev spaceEncodings" "rev (trimLeading spaceEncodings s)"] length_trimLeading [of spaceEncodings s]
  by (simp add: trimSpace_def)

text \<open>A decoder that consumes what it decodes makes the loop end; the fuel is enough.\<close>

lemma appendLoop_returns:
  assumes progress: "\<And>s b rest. pemDecode api s = Some (b, rest) \<Longrightarrow> length rest < length s"
  shows "length remaining < n \<Longrightarrow> appendLoop n api remaining added \<noteq> None"
proof (induction n arbitrary: remaining added)
  case (Suc n)
  have "length (trimSpace rest) < n" if "pemDecode api remaining = Some (b, rest)" for b rest
    using progress [OF that] length_trimSpace [of rest] Suc.prems by simp
  then show ?case
    using Suc.IH by (auto split: option.split)
qed simp

lemma appendEgressCerts_returns:
  assumes "\<And>s b rest. pemDecode api s = Some (b, rest) \<Longrightarrow> length rest < length s"
  shows "appendEgressCerts api pemText \<noteq> None"
  unfolding appendEgressCerts_def
  by (rule appendLoop_returns [OF assms]) (use length_trimSpace [of pemText] in simp_all)

text \<open>An unusable bundle stops the server before it listens.\<close>

lemma unusable_bundle_never_serves:
  assumes "NewServer defaultEngine e audit caOk api lookupEnv env parseGrants spiffe pipelineFrom environ = Some s"
    and "egressRoots api (lookupEnv ''CAUTEUM_EGRESS_CA_BUNDLE'') = Some (Inl err)"
  shows "ListenAndServe s listenErr cancelErr ending = (False, Some (''proxy configuration: '' @ err)) \<and>
     Serve s cancelErr ending = (False, Some (''proxy configuration: '' @ err))"
  using assms by (auto simp: NewServer_def ListenAndServe_def Serve_def Let_def)

section \<open>What an absolute-form request sends\<close>

definition proxyHopHeaders :: "string list" where
  "proxyHopHeaders = [''Proxy-Connection'', ''Proxy-Authenticate'', ''Proxy-Authorization'']"

lemma proxyHopHeaders_canonical:
  "canonicalHeaderKey ''Proxy-Connection'' = ''Proxy-Connection''"
  "canonicalHeaderKey ''Proxy-Authenticate'' = ''Proxy-Authenticate''"
  "canonicalHeaderKey ''Proxy-Authorization'' = ''Proxy-Authorization''"
  by code_simp+

lemma absoluteUpstream_headers:
  assumes "absoluteUpstream host portStr out = (h, sent)"
  shows "sent = out\<lparr>reqHeader := reqHeader sent\<rparr>"
    and "hdrValues (reqHeader sent) k =
      (if canonicalHeaderKey k \<in> set proxyHopHeaders then [] else hdrValues (reqHeader out) k)"
  using assms by (auto simp: absoluteUpstream_def proxyHopHeaders_def Let_def hdrValues_hdrDel proxyHopHeaders_canonical)

text \<open>
  C40: an absolute-form request is written upstream only over a dial that kept to the rule's allowed
  addresses; the engine allowed it, the middleware accepted it, it carries only credentials of the
  matched rule's keys, and none of the headers that belong to the hop to the proxy.\<close>

theorem absolute_requests_cleared:
  assumes "handleAbsoluteHTTP x e i target scheme host portStr r bin = Some (reply, Some (h, sent), log)"
  shows "\<exists>p pe out m. absoluteTarget scheme host portStr = Inr p \<and> e = Some pe \<and>
     sentCleared (x\<lparr>xEngine := pe\<rparr>) ''http'' target host p bin r out m \<and>
     abDial i (allowedIPsOf m) = Inr () \<and>
     sent = out\<lparr>reqHeader := reqHeader sent\<rparr> \<and>
     (\<forall>k. hdrValues (reqHeader sent) k =
        (if canonicalHeaderKey k \<in> set proxyHopHeaders then [] else hdrValues (reqHeader out) k))"
proof -
  obtain p pe where t: "absoluteTarget scheme host portStr = Inr p" "e = Some pe"
    using assms by (auto simp: handleAbsoluteHTTP_def split: sum.splits option.splits)
  obtain out m log' where f: "absoluteRequest (x\<lparr>xEngine := pe\<rparr>) target host p r bin = Some (Forward out m, log')"
    using assms t by (auto simp: handleAbsoluteHTTP_def Let_def split: option.splits prod.splits exchange_outcome.splits)
  have d: "abDial i (allowedIPsOf m) = Inr ()" "absoluteUpstream host portStr out = (h, sent)"
    using assms t f
    by (cases "abDial i (allowedIPsOf m)";
        auto simp: handleAbsoluteHTTP_def Let_def split: prod.splits)+
  show ?thesis
    using t absoluteRequest_Forward [OF f] d(1) absoluteUpstream_headers [OF d(2)] by blast
qed

definition sampleDial :: absolute_input where
  "sampleDial = \<lparr>abDial = (\<lambda>_. Inr ()), abWritten = True, abResponse = Inl ''EOF''\<rparr>"

theorem absolute_requests_cleared_witness:
  "\<exists>reply h sent log. handleAbsoluteHTTP sampleExchange (Some sampleEngine) sampleDial sampleTarget ''http'' ''h'' []
       (sampleGet\<lparr>reqHeader := [(''Proxy-Authorization'', [''secret''])]\<rparr>) [] = Some (reply, Some (h, sent), log) \<and>
     hdrValues (reqHeader sent) ''proxy-authorization'' = []"
proof -
  let ?c = "handleAbsoluteHTTP sampleExchange (Some sampleEngine) sampleDial sampleTarget ''http'' ''h'' []
       (sampleGet\<lparr>reqHeader := [(''Proxy-Authorization'', [''secret''])]\<rparr>) []"
  have "(case ?c of Some (reply, Some hs, log) \<Rightarrow> True | _ \<Rightarrow> False)" by code_simp
  then obtain reply h sent log where r: "?c = Some (reply, Some (h, sent), log)"
    by (auto split: option.splits prod.splits)
  have "canonicalHeaderKey ''proxy-authorization'' \<in> set proxyHopHeaders" by code_simp
  with absolute_requests_cleared [OF r] r show ?thesis by auto
qed

end
