(* ===== verification/Tunnels.thy ===== *)
theory Tunnels
  imports WS_Schedule Mitm_CA
begin

text \<open>
  The tunnels of CONNECT, \<^verbatim>\<open>proxy/terminate.go\<close>: the connection that reads buffered bytes first, the raw relay
  \<^verbatim>\<open>tunnelWithBuf\<close>, the TLS setup of \<^verbatim>\<open>mitmHTTPS\<close> and its loop over the requests of an intercepted connection.
\<close>

section \<open>Raw tunnels\<close>

text \<open>
  A connection with the bytes that the reader of the CONNECT request has buffered. A read of at most \<open>n\<close>
  bytes takes buffered ones if there are any; else the connection gives as many as it has ready, \<open>k\<close>.
\<close>

record buf_conn =
  bcBuffered :: string
  bcStream :: string

definition bufRead :: "nat \<Rightarrow> nat \<Rightarrow> buf_conn \<Rightarrow> string \<times> buf_conn" where
  "bufRead n k c =
     (if bcBuffered c \<noteq> [] then (take n (bcBuffered c), c\<lparr>bcBuffered := drop n (bcBuffered c)\<rparr>)
      else (take (min n k) (bcStream c), c\<lparr>bcStream := drop (min n k) (bcStream c)\<rparr>))"

fun bufReads :: "(nat \<times> nat) list \<Rightarrow> buf_conn \<Rightarrow> string \<times> buf_conn" where
  "bufReads [] c = ([], c)"
| "bufReads ((n, k) # rs) c =
     (let (bs, c') = bufRead n k c; (bs', c'') = bufReads rs c' in (bs @ bs', c''))"

text \<open>Both directions copy until one of them ends; then both connections are closed.\<close>

record raw_tunnel =
  rtClient :: buf_conn
  rtBackend :: string
  rtToBackend :: string
  rtToClient :: string
  rtClosed :: bool

inductive tunnel_step :: "raw_tunnel \<Rightarrow> raw_tunnel \<Rightarrow> bool" where
  copyUp: "\<not> rtClosed s \<Longrightarrow> bufRead n k (rtClient s) = (bs, c) \<Longrightarrow>
    tunnel_step s (s\<lparr>rtClient := c, rtToBackend := rtToBackend s @ bs\<rparr>)"
| copyDown: "\<not> rtClosed s \<Longrightarrow>
    tunnel_step s (s\<lparr>rtBackend := drop n (rtBackend s), rtToClient := rtToClient s @ take n (rtBackend s)\<rparr>)"
| finish: "\<not> rtClosed s \<Longrightarrow> tunnel_step s (s\<lparr>rtClosed := True\<rparr>)"

definition tunnelWithBuf :: "string \<Rightarrow> string \<Rightarrow> string \<Rightarrow> raw_tunnel" where
  "tunnelWithBuf held fromClient fromBackend =
     \<lparr>rtClient = \<lparr>bcBuffered = held, bcStream = fromClient\<rparr>, rtBackend = fromBackend, rtToBackend = [], rtToClient = [],
      rtClosed = False\<rparr>"

section \<open>An intercepted connection\<close>

text \<open>The TLS configuration towards the backend; a configured one is completed.\<close>

definition upstreamTLSConfig :: "tls_config option \<Rightarrow> string \<Rightarrow> tls_config" where
  "upstreamTLSConfig configured host =
     (case configured of
        None \<Rightarrow> ClientTLSConfig host
      | Some cfg \<Rightarrow>
          cfg\<lparr>ServerName := (if ServerName cfg = [] then host else ServerName cfg),
              NextProtos := (if NextProtos cfg = [] then [''http/1.1''] else NextProtos cfg)\<rparr>)"

text \<open>
  The steps before the loop: the leaf certificate, and the two handshakes with errors of setting and
  clearing their deadlines.
\<close>

record tls_input =
  tlLeaf :: "string + tls_cert"
  tlClientDeadline :: "string option"
  tlClientHandshake :: "string option"
  tlClientClear :: "string option"
  tlUpDeadline :: "string option"
  tlUpHandshake :: "tls_config \<Rightarrow> string option"
  tlUpClear :: "string option"

definition mitmSetup :: "bool \<Rightarrow> tls_config option \<Rightarrow> tls_input \<Rightarrow> string \<Rightarrow> int \<Rightarrow> audit_event list + (tls_config \<times> tls_config)" where
  "mitmSetup hasCA configured i host p =
     (let up = upstreamTLSConfig configured host;
          failed = (\<lambda>action label err allow. Inl [auditEvent action host p (label @ err) allow [] [] []]);
          deadline = (\<lambda>err. failed ''error'' ''TLS deadline: '' err False) in
      if \<not> hasCA then Inl []
      else (case ServerTLSConfig (tlLeaf i) of
        Inl _ \<Rightarrow> Inl []
      | Inr srvCfg \<Rightarrow>
          (case tlClientDeadline i of Some err \<Rightarrow> deadline err | None \<Rightarrow>
          (case tlClientHandshake i of Some err \<Rightarrow> failed ''error'' ''client tls: '' err False | None \<Rightarrow>
          (case tlClientClear i of Some err \<Rightarrow> deadline err | None \<Rightarrow>
          (case tlUpDeadline i of Some err \<Rightarrow> deadline err | None \<Rightarrow>
          (case tlUpHandshake i up of Some err \<Rightarrow> failed ''dial_error'' ''upstream tls: '' err True | None \<Rightarrow>
          (case tlUpClear i of Some err \<Rightarrow> deadline err | None \<Rightarrow> Inr (srvCfg, up)))))))))"

text \<open>
  One turn of the loop. The rule's settings for WebSockets and the name of the text method are those of
  \<^const>\<open>relayArgs\<close>; the session operations are those of the middleware.
\<close>

record ('s, 'g) mitm_env =
  meExchange :: "('s, 'g) exchange_env"
  meSessions :: "'s ws_session_ops"
  meTextMethod :: string
  meRewrites :: "endpoint_rule \<Rightarrow> bool"
  meOperationRules :: "endpoint_rule \<Rightarrow> bool"

record mitm_turn =
  mtTarget :: request_target
  mtHostHeader :: string
  mtRequest :: http_request
  mtNetwork :: turn_input

text \<open>The request as it is written: the address of its URL and the host it names, which is the client's if it gave one.\<close>

record upstream_request =
  upScheme :: string
  upAddr :: string
  upHost :: string
  upRequest :: http_request

definition mitmUpstream :: "string \<Rightarrow> int \<Rightarrow> string \<Rightarrow> http_request \<Rightarrow> upstream_request" where
  "mitmUpstream host p hostHeader r =
     \<lparr>upScheme = ''https'', upAddr = joinHostPort host (itoa p), upHost = (if hostHeader = [] then host else hostHeader), upRequest = r\<rparr>"

datatype 's turn_outcome =
    TurnRefused string "audit_event list"
  | TurnSent upstream_request "matched_rule option" "'s turn_result"

definition mitmTurn ::
    "('s, 'g) mitm_env \<Rightarrow> string \<Rightarrow> int \<Rightarrow> string \<Rightarrow> mitm_turn \<Rightarrow> 's turn_outcome option" where
  "mitmTurn e host p bin t =
     (let x = meExchange e; d = decideHTTP (xJSON x) (xEngine x) (mtTarget t) (mtRequest t) host p (escapedOrRoot (mtRequest t)) bin;
          path = escapedOrRoot (snd d);
          reason = (case fst d of Inr dec \<Rightarrow> EngReason dec | Inl _ \<Rightarrow> []) in
      case mitmRequest x (mtTarget t) (mtRequest t) host p bin of
        None \<Rightarrow> None
      | Some (Refuse code msg, log) \<Rightarrow> Some (TurnRefused msg log)
      | Some (Forward out m, log) \<Rightarrow>
          Some (TurnSent (mitmUpstream host p (mtHostHeader t) out) m
            (mitmExchange (meSessions e) (xPipeline x)
               (relayArgs (meTextMethod e) (meRewrites e) (meOperationRules e) m host p path bin)
               (mtNetwork t) out reason host p path bin)))"

text \<open>The loop over the requests that the client sends, until one ends the connection.\<close>

fun mitmTurns :: "('s, 'g) mitm_env \<Rightarrow> string \<Rightarrow> int \<Rightarrow> string \<Rightarrow> mitm_turn list \<Rightarrow> 's turn_outcome list option" where
  "mitmTurns e host p bin [] = Some []"
| "mitmTurns e host p bin (t # ts) =
     (case mitmTurn e host p bin t of
        None \<Rightarrow> None
      | Some (TurnRefused msg log) \<Rightarrow> Some [TurnRefused msg log]
      | Some (TurnSent out m res) \<Rightarrow>
          (case trEnd res of
             NextRequest \<Rightarrow> map_option (\<lambda>outs. TurnSent out m res # outs) (mitmTurns e host p bin ts)
           | _ \<Rightarrow> Some [TurnSent out m res]))"

text \<open>
  The last exchange may upgrade the connection: then its frames are relayed with the secrets that its
  request resolved, under the arguments and with the sessions of the exchange, which are those of the
  supervisor middleware. The turns of the two directions come in the order of \<open>uiSchedule\<close>.
\<close>

definition resolvedSecrets ::
    "('s, 'g) exchange_env \<Rightarrow> request_target \<Rightarrow> http_request \<Rightarrow> string \<Rightarrow> int \<Rightarrow> string \<Rightarrow> secret_store" where
  "resolvedSecrets x target r host p bin =
     (case decideHTTP (xJSON x) (xEngine x) target r host p (escapedOrRoot r) bin of
        (Inl err, r1) \<Rightarrow> xSecrets x
      | (Inr dec, r1) \<Rightarrow>
          (let path = escapedOrRoot r1; bound = (case EngMatched dec of Some mr \<Rightarrow> ruleCredentialKeys (mRule mr) | None \<Rightarrow> []) in
           case runMiddleware (xEntries x) (xPipeline x) r1 ''https'' host p path of
             Inl err \<Rightarrow> xSecrets x
           | Inr r2 \<Rightarrow>
               (case resolveTokenGrantPlaceholders (xEnv x) (xGrants x) host p path r2 bound (xSecrets x) of
                  Some (Inr store) \<Rightarrow> store
                | _ \<Rightarrow> xSecrets x)))"

record upgrade_input =
  uiUpFails :: "relay_event list \<Rightarrow> bool"
  uiClientFails :: "relay_event list \<Rightarrow> bool"
  uiFromClient :: "byte list"
  uiFromUp :: "byte list"
  uiSchedule :: "relay_turn list"

type_synonym upgrade_result = "(relay_args \<times> (grpc_session list + grpc_session relay_sched)) option"

definition upgradeTurn ::
    "(grpc_session, 'g) mitm_env \<Rightarrow> string \<Rightarrow> int \<Rightarrow> string \<Rightarrow> upgrade_input \<Rightarrow> mitm_turn \<Rightarrow> grpc_session turn_outcome \<Rightarrow>
       upgrade_result option" where
  "upgradeTurn e host p bin u t o' =
     (case o' of
        TurnRefused msg log \<Rightarrow> Some None
      | TurnSent up m res \<Rightarrow>
          (case trEnd res of
             RelayFrames a \<Rightarrow>
               (let x = meExchange e; x' = x\<lparr>xSecrets := resolvedSecrets x (mtTarget t) (mtRequest t) host p bin\<rparr> in
                (case startSessions grpcRelayOps (trSessions res) of
                   (False, ss) \<Rightarrow> Some (Some (a, Inl ss))
                 | (True, ss) \<Rightarrow>
                     map_option (\<lambda>s. Some (a, Inr s))
                       (schedTurns x' grpcRelayOps a (uiUpFails u) (uiClientFails u) (uiSchedule u)
                          (schedStart (uiFromClient u) (uiFromUp u) ss))))
           | _ \<Rightarrow> Some None))"

definition mitmConnection ::
    "(grpc_session, 'g) mitm_env \<Rightarrow> string \<Rightarrow> int \<Rightarrow> string \<Rightarrow> upgrade_input \<Rightarrow> mitm_turn list \<Rightarrow>
       (grpc_session turn_outcome list \<times> upgrade_result) option" where
  "mitmConnection e host p bin u turns =
     (case mitmTurns e host p bin turns of
        None \<Rightarrow> None
      | Some outs \<Rightarrow>
          if outs = [] then Some ([], None)
          else map_option (\<lambda>r. (outs, r)) (upgradeTurn e host p bin u (turns ! (length outs - 1)) (last outs)))"

text \<open>A CONNECT request from its decision to the end of the tunnel; the engine that decided it decides every request.\<close>

datatype tunnel_end =
    NoTunnel connect_outcome
  | HandshakeFailed "audit_event list"
  | RawBytes
  | Intercepted "grpc_session turn_outcome list" "upgrade_result"

definition connectTunnel ::
    "(grpc_session, 'g) mitm_env \<Rightarrow> connect_input \<Rightarrow> tls_config option \<Rightarrow> tls_input \<Rightarrow> string \<Rightarrow> (string \<times> string) option \<Rightarrow> string \<Rightarrow>
       upgrade_input \<Rightarrow> mitm_turn list \<Rightarrow> tunnel_end option" where
  "connectTunnel e i configured tls reqHost split bin u turns =
     (let e' = (case inEngine i of Some pe \<Rightarrow> e\<lparr>meExchange := (meExchange e)\<lparr>xEngine := pe\<rparr>\<rparr> | None \<Rightarrow> e);
          hp = (case split of Some hp \<Rightarrow> hp | None \<Rightarrow> (reqHost, ''443'')); host = fst hp;
          p = (case atoi (snd hp) of Some n \<Rightarrow> n | None \<Rightarrow> 0) in
      case fst (handleCONNECT i reqHost split bin) of
        Intercept \<Rightarrow>
          (case mitmSetup (inCA i) configured tls host p of
             Inl log \<Rightarrow> Some (HandshakeFailed log)
           | Inr _ \<Rightarrow> map_option (\<lambda>(outs, r). Intercepted outs r) (mitmConnection e' host p bin u turns))
      | RawTunnel \<Rightarrow> Some RawBytes
      | out \<Rightarrow> Some (NoTunnel out))"

section \<open>Bytes of a raw tunnel\<close>

definition bufRest :: "buf_conn \<Rightarrow> string" where
  "bufRest c = bcBuffered c @ bcStream c"

lemma bufRead_rest: "bufRead n k c = (bs, c') \<Longrightarrow> bs @ bufRest c' = bufRest c"
  by (auto simp: bufRead_def bufRest_def split: if_splits)

text \<open>Reads of any sizes give the buffered bytes and then those of the connection, in order and once.\<close>

lemma bufReads_rest: "bufReads rs c = (bs, c') \<Longrightarrow> bs @ bufRest c' = bufRest c"
proof (induction rs c arbitrary: bs c' rule: bufReads.induct)
  case (2 n k rs c)
  obtain b1 c1 where r: "bufRead n k c = (b1, c1)" by fastforce
  then show ?case
    using 2 bufRead_rest [OF r] by (auto simp: Let_def split: prod.splits)
qed simp

text \<open>The relay adds, drops and reorders nothing, whatever the interleaving of the two directions.\<close>

definition relayInv :: "string \<Rightarrow> string \<Rightarrow> raw_tunnel \<Rightarrow> bool" where
  "relayInv up down s \<longleftrightarrow> rtToBackend s @ bufRest (rtClient s) = up \<and> rtToClient s @ rtBackend s = down"

lemma relayInv_step: "tunnel_step s s' \<Longrightarrow> relayInv up down s \<Longrightarrow> relayInv up down s'"
proof (induction rule: tunnel_step.induct)
  case (copyUp s n k bs c)
  then show ?case using bufRead_rest [of n k "rtClient s" bs c] by (simp add: relayInv_def)
qed (auto simp: relayInv_def)

interpretation raw: invariant_system "(=) (tunnelWithBuf held fromClient fromBackend)" tunnel_step "relayInv (held @ fromClient) fromBackend"
  for held fromClient fromBackend
  by unfold_locales (force simp: relayInv_def tunnelWithBuf_def bufRest_def, rule relayInv_step)

lemma raw_relay_prefixes:
  "reached ((=) (tunnelWithBuf held fromClient fromBackend)) tunnel_step s \<Longrightarrow>
   rtToBackend s @ bufRest (rtClient s) = held @ fromClient \<and> rtToClient s @ rtBackend s = fromBackend"
  by (drule raw.holds) (simp add: relayInv_def)

section \<open>What an intercepted connection sends\<close>

lemma mitmTurn_cleared:
  assumes "mitmTurn e host p bin t = Some (TurnSent up m res)"
  shows "sentCleared (meExchange e) ''https'' (mtTarget t) host p bin (mtRequest t) (upRequest up) m \<and>
     upScheme up = ''https'' \<and> upAddr up = joinHostPort host (itoa p)"
proof -
  obtain out log where "mitmRequest (meExchange e) (mtTarget t) (mtRequest t) host p bin = Some (Forward out m, log)"
    "up = mitmUpstream host p (mtHostHeader t) out"
    using assms by (auto simp: mitmTurn_def Let_def split: option.splits prod.splits exchange_outcome.splits)
  then show ?thesis using mitmRequest_Forward by (simp add: mitmUpstream_def)
qed

text \<open>The outcomes belong to the first requests in order; only the last ends the connection.\<close>

fun turnEnds :: "'s turn_outcome \<Rightarrow> bool" where
  "turnEnds (TurnRefused msg log) = True"
| "turnEnds (TurnSent out m res) = (trEnd res \<noteq> NextRequest)"

lemma mitmTurns_outcomes:
  "mitmTurns e host p bin ts = Some outs \<Longrightarrow>
   length outs \<le> length ts \<and> list_all2 (\<lambda>t o'. mitmTurn e host p bin t = Some o') (take (length outs) ts) outs \<and>
   list_all (\<lambda>o'. \<not> turnEnds o') (butlast outs)"
proof (induction ts arbitrary: outs)
  case (Cons t ts)
  obtain o1 where o1: "mitmTurn e host p bin t = Some o1"
    using Cons.prems by (auto split: option.splits)
  show ?case
  proof (cases "turnEnds o1")
    case True
    then have "outs = [o1]"
      using Cons.prems o1 by (cases o1) (auto split: turn_end.splits)
    then show ?thesis using o1 by simp
  next
    case False
    then obtain outs' where "mitmTurns e host p bin ts = Some outs'" "outs = o1 # outs'"
      using Cons.prems o1 by (cases o1) (auto split: turn_end.splits)
    then show ?thesis using Cons.IH o1 False by auto
  qed
qed simp

definition outcomeCleared :: "('s, 'g) mitm_env \<Rightarrow> string \<Rightarrow> int \<Rightarrow> string \<Rightarrow> mitm_turn \<Rightarrow> 's turn_outcome \<Rightarrow> bool" where
  "outcomeCleared e host p bin t o' \<longleftrightarrow>
     (case o' of
        TurnSent up m res \<Rightarrow>
          sentCleared (meExchange e) ''https'' (mtTarget t) host p bin (mtRequest t) (upRequest up) m \<and>
          upScheme up = ''https'' \<and> upAddr up = joinHostPort host (itoa p)
      | TurnRefused msg log \<Rightarrow> True)"

definition withEngine :: "('s, 'g) mitm_env \<Rightarrow> policy_engine \<Rightarrow> ('s, 'g) mitm_env" where
  "withEngine e pe = e\<lparr>meExchange := (meExchange e)\<lparr>xEngine := pe\<rparr>\<rparr>"

lemma outcomes_cleared:
  assumes "mitmTurns e host p bin turns = Some outs"
  shows "length outs \<le> length turns" "list_all (\<lambda>o'. \<not> turnEnds o') (butlast outs)"
    "list_all2 (outcomeCleared e host p bin) (take (length outs) turns) outs"
proof -
  have "outcomeCleared e host p bin t o'" if "mitmTurn e host p bin t = Some o'" for t o'
    using that by (auto simp: outcomeCleared_def mitmTurn_cleared split: turn_outcome.split)
  then show "list_all2 (outcomeCleared e host p bin) (take (length outs) turns) outs"
    using mitmTurns_outcomes [OF assms] by (blast intro: list_all2_mono)
qed (use mitmTurns_outcomes [OF assms] in blast)+

text \<open>
  The relay of an upgraded connection: its target is that of the connection and its keys those of the
  request's rule, its sessions are those that the middleware opened for the request, and what reaches
  the upstream before they are closed has passed all of them and is cleared by the engine.
\<close>

definition relayCleared ::
    "(grpc_session, 'g) mitm_env \<Rightarrow> string \<Rightarrow> int \<Rightarrow> string \<Rightarrow> grpc_session turn_outcome \<Rightarrow> upgrade_result \<Rightarrow> bool" where
  "relayCleared e host p bin o' r \<longleftrightarrow>
     (case r of
        Some (a, Inr s) \<Rightarrow>
          (\<exists>sent m res path sid. o' = TurnSent sent m res \<and>
             raHost a = host \<and> raPort a = p \<and> raBinary a = bin \<and>
             raBound a = (case m of Some mr \<Rightarrow> ruleCredentialKeys (mRule mr) | None \<Rightarrow> []) \<and>
             raRewrite a = (case m of Some mr \<Rightarrow> meRewrites e (mRule mr) | None \<Rightarrow> False) \<and>
             openWebSocketMiddlewareSessions (meSessions e) (xPipeline (meExchange e)) sid (upRequest sent) host p path = Inr (trSessions res) \<and>
             (\<forall>op out. (False, ToUpstream op out) \<in> set (schTrace s) \<longrightarrow>
                frameCleared (meExchange e) a (trSessions res) (rlSessions (schState s)) op out))
      | _ \<Rightarrow> True)"

lemma mitmTurn_relay:
  assumes "mitmTurn e host p bin t = Some (TurnSent sent m res)" "trEnd res = RelayFrames a"
  shows "raHost a = host \<and> raPort a = p \<and> raBinary a = bin \<and>
     raBound a = (case m of Some mr \<Rightarrow> ruleCredentialKeys (mRule mr) | None \<Rightarrow> []) \<and>
     raRewrite a = (case m of Some mr \<Rightarrow> meRewrites e (mRule mr) | None \<Rightarrow> False) \<and>
     (\<exists>path sid. openWebSocketMiddlewareSessions (meSessions e) (xPipeline (meExchange e)) sid (upRequest sent) host p path = Inr (trSessions res))"
proof -
  obtain args reason path out where res: "res = mitmExchange (meSessions e) (xPipeline (meExchange e)) args (mtNetwork t) out reason host p path bin"
    "args = relayArgs (meTextMethod e) (meRewrites e) (meOperationRules e) m host p path bin" "sent = mitmUpstream host p (mtHostHeader t) out"
    using assms(1) by (auto simp: mitmTurn_def Let_def split: option.splits prod.splits exchange_outcome.splits)
  from mitmExchange_relay [OF assms(2) [unfolded res(1)]] show ?thesis
    unfolding res by (auto simp: relayArgs_def mitmUpstream_def)
qed

lemma upgradeTurn_cleared:
  assumes turn: "mitmTurn e host p bin t = Some o'" and up: "upgradeTurn e host p bin u t o' = Some r"
  shows "relayCleared e host p bin o' r"
proof (cases "\<exists>a s. r = Some (a, Inr s)")
  case True
  then obtain a s where r: "r = Some (a, Inr s)" by blast
  let ?x = "(meExchange e)\<lparr>xSecrets := resolvedSecrets (meExchange e) (mtTarget t) (mtRequest t) host p bin\<rparr>"
  obtain sent m res ss where o': "o' = TurnSent sent m res" "trEnd res = RelayFrames a"
    and ss: "startSessions grpcRelayOps (trSessions res) = (True, ss)"
    and s: "schedTurns ?x grpcRelayOps a (uiUpFails u) (uiClientFails u) (uiSchedule u) (schedStart (uiFromClient u) (uiFromUp u) ss) = Some s"
    using up r by (auto simp: upgradeTurn_def Let_def split: turn_outcome.splits turn_end.splits prod.splits bool.splits)
  have "frameCleared ?x a (trSessions res) (rlSessions (schState s)) op out" if "(False, ToUpstream op out) \<in> set (schTrace s)" for op out
    using schedTurns_cleared [OF s ss] that by blast
  with mitmTurn_relay [OF turn [unfolded o'(1)] o'(2)] o'(1) show ?thesis
    by (auto simp: relayCleared_def r frameCleared_def)
qed (auto simp: relayCleared_def split: option.splits sum.splits)

lemma mitmConnection_cleared:
  assumes "mitmConnection e host p bin u turns = Some (outs, r)"
  shows "mitmTurns e host p bin turns = Some outs \<and> relayCleared e host p bin (last outs) r"
proof -
  have turns: "mitmTurns e host p bin turns = Some outs"
    using assms by (auto simp: mitmConnection_def split: option.splits if_splits)
  show ?thesis
  proof (cases "outs = []")
    case False
    have len: "length outs \<le> length turns" and all: "list_all2 (\<lambda>t o'. mitmTurn e host p bin t = Some o') (take (length outs) turns) outs"
      using mitmTurns_outcomes [OF turns] by blast+
    have "mitmTurn e host p bin (turns ! (length outs - 1)) = Some (last outs)"
      using list_all2_nthD2 [OF all, of "length outs - 1"] False by (simp add: last_conv_nth)
    moreover have "upgradeTurn e host p bin u (turns ! (length outs - 1)) (last outs) = Some r"
      using assms turns False by (simp add: mitmConnection_def)
    ultimately show ?thesis using turns upgradeTurn_cleared by blast
  qed (use assms turns in \<open>simp add: mitmConnection_def relayCleared_def\<close>)
qed

section \<open>Properties\<close>

text \<open>
  C1: a connection is intercepted only if the engine in force allowed its destination under the current
  policy and the dial kept to the rule's addresses; every request that it sends goes to that destination, was allowed by the same engine for it and
  accepted by the middleware, and carries only credentials of the matched rule's keys; the requests are
  answered in order, and none after one that ends the connection. If the last one upgrades it to a
  WebSocket, then the relay works for the same destination and the keys of that request's rule, its
  sessions are those that the middleware opened for that request, and in every order of the turns each
  data frame that reaches the upstream before the sessions are closed passed all of them, each as
  \<open>sessionPassed\<close> says, and is cleared by the same engine if it is a text. Frames after the sessions are
  closed are marked in the trace and not covered: they need not have been inspected.\<close>

theorem intercepted_requests_cleared:
  assumes "connectTunnel e i configured tls reqHost split bin u turns = Some (Intercepted outs r)"
  shows "\<exists>host portStr p pe dec. (case split of Some hp \<Rightarrow> hp | None \<Rightarrow> (reqHost, ''443'')) = (host, portStr) \<and>
     atoi portStr = Some p \<and> 0 < p \<and> p \<le> 65535 \<and> inEngine i = Some pe \<and> Decide pe host p bin = Inr dec \<and> EngAllow dec \<and>
     inCurrent i \<and> inDial i (allowedIPsOf (EngMatched dec)) = Inr () \<and> length outs \<le> length turns \<and>
     list_all2 (outcomeCleared (withEngine e pe) host p bin) (take (length outs) turns) outs \<and>
     list_all (\<lambda>o'. \<not> turnEnds o') (butlast outs) \<and>
     relayCleared (withEngine e pe) host p bin (last outs) r"
proof -
  obtain log where c: "handleCONNECT i reqHost split bin = (Intercept, log)"
    using assms by (cases "handleCONNECT i reqHost split bin")
      (auto simp: connectTunnel_def Let_def split: connect_outcome.splits)
  obtain pe host portStr p dec where d: "(case split of Some hp \<Rightarrow> hp | None \<Rightarrow> (reqHost, ''443'')) = (host, portStr)"
    "atoi portStr = Some p" "0 < p" "p \<le> 65535" "inEngine i = Some pe" "Decide pe host p bin = Inr dec" "EngAllow dec" "inCurrent i"
      "inDial i (allowedIPsOf (EngMatched dec)) = Inr ()"
    by (rule handleCONNECT_established [OF c disjI1 [OF refl]])
  have "mitmConnection (withEngine e pe) host p bin u turns = Some (outs, r)"
    using assms c d by (auto simp: connectTunnel_def Let_def withEngine_def split: sum.splits)
  from mitmConnection_cleared [OF this] have "mitmTurns (withEngine e pe) host p bin turns = Some outs"
    "relayCleared (withEngine e pe) host p bin (last outs) r"
    by blast+
  with outcomes_cleared [OF this(1)] d show ?thesis by blast
qed

text \<open>A middleware service that inspects WebSocket messages and allows every one but \<^verbatim>\<open>secret\<close>.\<close>

definition guardStream :: ws_stream where
  "guardStream =
     \<lparr>wsOpens = True, wsSendFails = (\<lambda>_ _. False),
      wsRecv = (\<lambda>evs. case last evs of
          WsPreflight _ _ \<Rightarrow> Some (WsPreflightDecision WsInspect)
        | WsMessage sq isText msg \<Rightarrow>
            Some (WsMessageResult sq (if msg = ''secret'' then DecisionDeny else DecisionAllow) NoReplacement)
        | _ \<Rightarrow> None)\<rparr>"

definition guardStage :: "grpc_session stage" where
  "guardStage =
     \<lparr>stageName = ''guard'', Evaluate = (\<lambda>req. Inr (plainDecision True [])), EvaluateResponse = None,
      OpenWebSocketSession = Some (grpcOpen guardStream exampleStage)\<rparr>"

definition sampleMitm :: "(grpc_session, unit) mitm_env" where
  "sampleMitm =
     \<lparr>meExchange =
        \<lparr>xJSON = (\<lambda>_. None), xEnv = sampleEnv, xMediaType = (\<lambda>s. s), xEntries = (\<lambda>_. []), xEngine = sampleEngine,
         xPipeline = Some [guardStage], xSecrets = Map.empty, xGrants = \<lparr>grants = Map.empty, grantsEmpty = True, resolver = None\<rparr>\<rparr>,
      meSessions = grpcSessionOps, meTextMethod = ''WEBSOCKET_TEXT'', meRewrites = (\<lambda>_. False), meOperationRules = (\<lambda>_. False)\<rparr>"

text \<open>A request that is answered, then one that upgrades the connection, on which the client sends \<open>hi\<close>.\<close>

definition sampleResponse :: "int \<Rightarrow> http_response" where
  "sampleResponse code =
     \<lparr>respStatusCode = code, respHeader = [], respTrailer = [], respBodyData = [], respBodyReadErr = False, respContentLength = 0\<rparr>"

definition sampleTurn :: "http_header \<Rightarrow> int \<Rightarrow> mitm_turn" where
  "sampleTurn headers code =
     \<lparr>mtTarget = sampleTarget, mtHostHeader = ''h'', mtRequest = sampleGet\<lparr>reqHeader := headers\<rparr>,
      mtNetwork = \<lparr>tiSession = [], tiWritten = True, tiDeadlineErr = None, tiResponse = Some (sampleResponse code), tiClose = False,
        tiClientWritten = True\<rparr>\<rparr>"

definition sampleTurns :: "mitm_turn list" where
  "sampleTurns = [sampleTurn [] 200, sampleTurn [(''Connection'', [''Upgrade'']), (''Upgrade'', [''websocket''])] 101, sampleTurn [] 200]"

definition sampleTLS :: tls_input where
  "sampleTLS =
     \<lparr>tlLeaf = Inr \<lparr>Leaf = None\<rparr>, tlClientDeadline = None, tlClientHandshake = None, tlClientClear = None, tlUpDeadline = None,
      tlUpHandshake = (\<lambda>_. None), tlUpClear = None\<rparr>"

definition sampleUpgrade :: upgrade_input where
  "sampleUpgrade =
     \<lparr>uiUpFails = (\<lambda>_. False), uiClientFails = (\<lambda>_. False), uiFromClient = [0x81, 2, 104, 105], uiFromUp = [],
      uiSchedule = [ClientTurn, UpstreamTurn, EndTurn]\<rparr>"

definition sampleInput :: connect_input where
  "sampleInput = sampleConnect\<lparr>inEngine := Some sampleEngine\<rparr>"

fun upgradedAfter :: "tunnel_end option \<Rightarrow> (nat \<times> (bool \<times> relay_event) list) option" where
  "upgradedAfter (Some (Intercepted [TurnSent up1 m1 res1, TurnSent up2 m2 res2] (Some (a, Inr s)))) =
     Some (length (trSessions res2), schTrace s)"
| "upgradedAfter _ = None"

theorem intercepted_requests_cleared_witness:
  "\<exists>up1 m1 res1 up2 m2 res2 a s.
     connectTunnel sampleMitm sampleInput None sampleTLS ''h:443'' (Some (''h'', ''443'')) [] sampleUpgrade sampleTurns =
       Some (Intercepted [TurnSent up1 m1 res1, TurnSent up2 m2 res2] (Some (a, Inr s))) \<and>
     upAddr up2 = ''h:443'' \<and> schTrace s = [(False, ToUpstream 1 [104, 105])] \<and> raHost a = ''h'' \<and> length (trSessions res2) = 1 \<and>
     (\<exists>sq ss msg. list_all2 grpcKept (trSessions res2) ss \<and> list_all2 grpcLater ss (rlSessions (schState s)) \<and>
        passedAll sessionPassed ss sq True msg ''hi'')"
proof -
  let ?c = "connectTunnel sampleMitm sampleInput None sampleTLS ''h:443'' (Some (''h'', ''443'')) [] sampleUpgrade sampleTurns"
  have "upgradedAfter ?c = Some (1, [(False, ToUpstream 1 [104, 105])])" by code_simp
  then obtain up1 m1 res1 up2 m2 res2 a s
    where r: "?c = Some (Intercepted [TurnSent up1 m1 res1, TurnSent up2 m2 res2] (Some (a, Inr s)))"
      "schTrace s = [(False, ToUpstream 1 [104, 105])]" "length (trSessions res2) = 1"
    by (elim upgradedAfter.elims) simp_all
  have h: "atoi ''443'' = Some 443" "joinHostPort ''h'' (itoa 443) = ''h:443''" "bytesString [104, 105] = ''hi''" by code_simp+
  obtain pe where c: "relayCleared (withEngine sampleMitm pe) ''h'' 443 [] (TurnSent up2 m2 res2) (Some (a, Inr s))" "upAddr up2 = ''h:443''"
    using intercepted_requests_cleared [OF r(1)] h by (auto simp: outcomeCleared_def sampleTurns_def)
  from c(1) r(2) have f: "frameCleared (meExchange (withEngine sampleMitm pe)) a (trSessions res2) (rlSessions (schState s)) wsOpcodeText [104, 105]"
    by (auto simp: relayCleared_def wsOpcodeText_def)
  then obtain sq ss msg m where t: "list_all2 grpcKept (trSessions res2) ss" "list_all2 grpcLater ss (rlSessions (schState s))"
      "passedAll sessionPassed ss sq True msg m" "textRewritten (meExchange (withEngine sampleMitm pe)) a m ''hi''"
    using h by (auto simp: frameCleared_def)
  have "raRewrite a = False" using c(1) by (auto simp: relayCleared_def sampleMitm_def withEngine_def split: option.splits)
  then have "m = ''hi''" using t(4) by (simp add: textRewritten_def)
  with t c r show ?thesis by (auto simp: relayCleared_def)
qed

end
