(* ===== verification/Spec2Isabelle.thy ===== *)
theory Spec2Isabelle
  imports L7_Path Ssrf WS_Frame Secrets Mitm_CA Server_Policy GraphQL Grpc_Stage Mcp HTTP_Exchange Policy_Local WS_Relay WS_Schedule Token_Runtime Inference_Local Multi_Audit Server_Setup Tunnels
begin

text \<open>
  A verification library for the egress proxy of whaleshell (Go module \<^verbatim>\<open>whaleshell-proxy\<close>).

  \<^bold>\<open>The program.\<close> A sandboxed workload reaches the network only through this process. It accepts CONNECT
  requests and absolute-form HTTP requests, asks a policy engine whether the destination is allowed,
  resolves the host and drops addresses that must not be reached, dials, and then either relays bytes or
  terminates TLS with a certificate of its own and decides every request inside the connection again, on
  the canonical path, the query and, for MCP, JSON-RPC and GraphQL, every message of the body. Middleware
  stages may change or refuse a request, placeholders for credentials are replaced only for the endpoints
  that own them, and WebSocket messages are reassembled and decided one by one. Beside that run a watcher
  that reloads the policy, an advisor through which the workload proposes rules, a router to a local
  inference service, and the audit log.

  \<^bold>\<open>Conventions.\<close> A Go string or byte slice is a HOL string, one \<^typ>\<open>char\<close> to a byte; WebSocket frames are
  words of eight bits and IP addresses words of 32 and 128 bits. A struct is a record, a failing function
  returns a sum with the error on the left, and a loop that may not return gives an \<open>option\<close>. State is passed
  explicitly, with step relations where goroutines interleave. Code outside the repository is an argument:
  the policy engine and its rules (\<open>policy_engine\<close>), package \<open>env\<close> (\<open>env_pkg\<close>, with its contract \<open>env_contract\<close>), the
  JSON syntax (\<open>json_parser\<close>), the resolver, the dialer and TLS (\<open>dial_world\<close>), the middleware services, the gateway,
  the SPIFFE and OAuth clients. The standard library is modelled where the code depends on its details.

  \<^bold>\<open>Theories.\<close>
  \<^item> \<open>Go_Prelude\<close>: strings, numbers, results, \<open>reached\<close> and the locale \<open>invariant_system\<close> of transition systems with
    an invariant. \<open>Netip\<close>: \<^verbatim>\<open>net/netip\<close>, \<^verbatim>\<open>strconv\<close>. \<open>Go_Http\<close>: headers, URLs, base64. \<open>Go_Json\<close>: decoding of JSON values
    into Go values. \<open>Go_Glob\<close>: \<^verbatim>\<open>path.Match\<close>.
  \<^item> \<open>L7_Path\<close>, \<open>L7_Query\<close>: \<^verbatim>\<open>path.go\<close>, \<^verbatim>\<open>query.go\<close>. Canonical paths are a fixed point without dot segments; the parse of
    an encoded query gives the query back.
  \<^item> \<open>No_Proxy\<close>, \<open>Ssrf\<close>: \<^verbatim>\<open>no_proxy.go\<close>, \<^verbatim>\<open>ssrf.go\<close>. The filter refines an interval specification of the reserved ranges; the
    locale \<open>address_selection\<close> is what the dial needs of filter and bypass list, and \<open>permittedConn\<close> what it promises.
  \<^item> \<open>WS_Frame\<close>, \<open>WS_Relay\<close>, \<open>WS_Schedule\<close>: \<^verbatim>\<open>wsframe.go\<close> and the WebSocket part of \<^verbatim>\<open>terminate.go\<close>. Frames survive writing and
    reading, fragments are put together in order, and whatever the order of the two directions a data frame
    reaches the upstream before the sessions are closed only when every session passed it. The locale
    \<open>inspecting_sessions\<close> is what the schedule needs of session operations; for the gRPC sessions to pass means that
    the service allowed the message, or that the session fails open and its service did not answer. After the
    sessions are closed there is a schedule where a frame passes uninspected.
  \<^item> \<open>Secrets\<close>, \<open>Token_Runtime\<close>: \<^verbatim>\<open>secrets.go\<close>, \<^verbatim>\<open>token_grant.go\<close> (with \<open>HTTP_Exchange\<close>), \<^verbatim>\<open>token_grant_runtime.go\<close>. Only bound keys
    are substituted; a token is one that was issued for a request that agrees in every field of grant and target, because
    the cache key determines them (locale \<open>faithful_key\<close>).
  \<^item> \<open>Mitm_CA\<close>: \<^verbatim>\<open>mitm.go\<close>, with the leaf cache as a transition system of goroutines.
  \<^item> \<open>Server_Policy\<close>: the policy state of \<^verbatim>\<open>proxy.go\<close>, \<^verbatim>\<open>watch.go\<close> and the admission of tunnels. A tunnel belongs to the
    policy in force; the watcher fails closed.
  \<^item> \<open>GraphQL\<close>, \<open>Mcp\<close>: \<^verbatim>\<open>graphql.go\<close>, \<^verbatim>\<open>jsonrpc.go\<close>, \<^verbatim>\<open>mcp.go\<close>. The parser is total, fragments are expanded to exactly the root
    fields, and accepted messages have the declared form.
  \<^item> \<open>Middleware\<close>, \<open>Grpc_Stage\<close>: \<^verbatim>\<open>middleware/stage.go\<close>, \<^verbatim>\<open>grpc.go\<close>, \<^verbatim>\<open>environ.go\<close>. The locale \<open>guarding_stage\<close> is the contract of a
    stage that must have allowed whatever leaves the pipeline.
  \<^item> \<open>HTTP_Exchange\<close>, \<open>Server_Setup\<close>, \<open>Tunnels\<close>: the handlers of \<^verbatim>\<open>proxy.go\<close> and \<^verbatim>\<open>terminate.go\<close>: the decision on a request, the
    admission of CONNECT, the absolute-form handler, the construction of the server, the loop over the
    requests of an intercepted connection and its upgrade, and the relay of raw bytes.
  \<^item> \<open>Policy_Local\<close>, \<open>Inference_Local\<close>, \<open>Multi_Audit\<close>: \<^verbatim>\<open>audit.go\<close>, \<^verbatim>\<open>policy_local.go\<close>, \<^verbatim>\<open>inference_local.go\<close>, \<^verbatim>\<open>peer.go\<close>, \<^verbatim>\<open>peer_linux.go\<close>,
    \<^verbatim>\<open>internal/config\<close>, \<^verbatim>\<open>multiaudit.go\<close>. Proposals are decided by the gateway only, the wait for them ends, the router
    sends its key to the upstream for paths but not for opaque targets and replaces the model at the top level of a
    body that is a JSON object, and audit lines are handed over once, in batches that are posted or given up (\<open>audit_run\<close>).
  \<^item> This theory joins the tunnels with the dial.

  \<^bold>\<open>How the parts compose.\<close> \<open>connectTunnel\<close> runs \<open>handleCONNECT\<close>, the handshakes, \<open>mitmTurns\<close> and, after an upgrade,
  the turns of both WebSocket directions in the order of a given schedule (\<open>schedTurns\<close>); \<open>mitmTurn\<close> is \<open>decideHTTP\<close>, \<open>runMiddleware\<close>, the credential rewriting and \<open>mitmExchange\<close>. \<open>sentCleared\<close> is the
  property of a request that all of these keep, and \<open>intercepted_requests_cleared\<close>, \<open>absolute_requests_cleared\<close> and
  \<open>raw_tunnel_only\<close> state it for the three ways to an upstream; \<open>tunnels_reach_permitted_hosts\<close> adds where the
  connection itself goes.

  \<^bold>\<open>Fuel and bounds.\<close> The selection sets of GraphQL have fuel of twice the number of tokens, documents of the
  number of tokens and fragment expansion of the number of fragments; \<open>parseGraphQLDocument_total\<close> and
  \<open>expandRootFields_exact\<close> show that none runs out. The loop over PEM blocks has the length of the bundle,
  enough because the decoder consumes (\<open>appendEgressCerts_returns\<close>). The wait of the advisor answers within 602
  turns, not before its deadline unless there is a decision (\<open>policyLocalWait_answers\<close>). Other loops recurse on lists or carry a measure.

  \<^bold>\<open>Not modelled.\<close> Sockets, deadlines and the HTTP server of the standard library, logging through
  \<^verbatim>\<open>slog\<close>, the closing of bodies, and the constants of \<^verbatim>\<open>timeouts.go\<close> that only bound sockets: they have no effect on
  what is decided or sent. The interfaces of \<^verbatim>\<open>internal/service\<close> have no code. A turn of a WebSocket
  direction is a whole frame, so that frames torn by concurrent writes to the client are outside, as are the
  values of floating-point numbers beyond their rounding in request identifiers.
\<close>

section \<open>From the tunnel to the address\<close>

text \<open>The dial of a CONNECT request: the SSRF options come from the matched rule and the server.\<close>

definition dialOptions :: "bool \<Rightarrow> string list \<Rightarrow> ssrf_options" where
  "dialOptions loop ips = \<lparr>AllowedIPs = ips, allowLoopback = loop, LookupIPAddr = None\<rparr>"

definition dialBackend :: "(ssrf_error \<Rightarrow> string) \<Rightarrow> dial_world \<Rightarrow> string \<Rightarrow> string \<Rightarrow> bool \<Rightarrow> string list \<Rightarrow> string + unit" where
  "dialBackend message w host portStr loop ips =
     (case fst (DialSSRF w host portStr (dialOptions loop ips)) of Inl err \<Rightarrow> Inl (message err) | Inr conn \<Rightarrow> Inr ())"

lemma dialBackend_Inr:
  "dialBackend message w host portStr loop ips = Inr () \<Longrightarrow> \<exists>conn evs. DialSSRF w host portStr (dialOptions loop ips) = (Inr conn, evs)"
  by (cases "DialSSRF w host portStr (dialOptions loop ips)") (auto simp: dialBackend_def split: sum.splits)

text \<open>The tunnel has a backend: it carries bytes, or got as far as its handshakes.\<close>

fun backendOpened :: "tunnel_end \<Rightarrow> bool" where
  "backendOpened (NoTunnel out) = False"
| "backendOpened _ = True"

lemma connectTunnel_backend:
  assumes "connectTunnel e i configured tls reqHost split bin u turns = Some result" "backendOpened result"
  obtains out log where "handleCONNECT i reqHost split bin = (out, log)" "out = Intercept \<or> out = RawTunnel"
  using assms by (cases "handleCONNECT i reqHost split bin")
    (auto simp: connectTunnel_def Let_def split: connect_outcome.splits)

text \<open>
  C2: the backend of a CONNECT tunnel, relayed or intercepted, is a connection that the SSRF filter
  made for a destination that the engine allowed, under the allowed addresses of the rule that it
  matched; host and port are those of the request, or its whole target with port 443 when it does not
  split. Without an upstream proxy the connection is to an acceptable address of the host and no other
  address was dialled. Through one it is a connection to that proxy, on which a CONNECT was written for
  the first acceptable address, or for the name when the rule restricts none, and for nothing else.\<close>

theorem tunnels_reach_permitted_hosts:
  assumes "connectTunnel e (i\<lparr>inDial := dialBackend message w host portStr loop\<rparr>) configured tls reqHost split bin u turns = Some result"
    and "backendOpened result" and "(case split of Some hp \<Rightarrow> hp | None \<Rightarrow> (reqHost, ''443'')) = (host, portStr)"
  shows "\<exists>pe p dec opts conn evs. inEngine i = Some pe \<and> atoi portStr = Some p \<and> Decide pe host p bin = Inr dec \<and> EngAllow dec \<and>
     opts = dialOptions loop (allowedIPsOf (EngMatched dec)) \<and>
     DialSSRF w host portStr opts = (Inr conn, evs) \<and> permittedConn w host portStr opts conn evs"
proof -
  let ?i = "i\<lparr>inDial := dialBackend message w host portStr loop\<rparr>"
  obtain out log where c: "handleCONNECT ?i reqHost split bin = (out, log)" "out = Intercept \<or> out = RawTunnel"
    by (rule connectTunnel_backend [OF assms(1,2)])
  obtain pe p dec where d: "atoi portStr = Some p" "inEngine i = Some pe" "Decide pe host p bin = Inr dec" "EngAllow dec"
    "dialBackend message w host portStr loop (allowedIPsOf (EngMatched dec)) = Inr ()"
    by (rule handleCONNECT_established [OF c]) (use assms(3) in auto)
  obtain conn evs where conn: "DialSSRF w host portStr (dialOptions loop (allowedIPsOf (EngMatched dec))) = (Inr conn, evs)"
    using dialBackend_Inr [OF d(5)] by blast
  with DialSSRF_conn [OF conn] d show ?thesis by blast
qed

text \<open>A world without a proxy, and the one of \<^const>\<open>witnessWorld\<close> with a resolver, where the proxy is asked.\<close>

definition directWorld :: dial_world where
  "directWorld = witnessWorld\<lparr>getenv := (\<lambda>_. []),
     defaultResolver := (\<lambda>h. Inr [[CHR 0x0A, CHR 0x00, CHR 0x00, CHR 0x01], [CHR 0x08, CHR 0x08, CHR 0x08, CHR 0x08]])\<rparr>"

definition proxiedWorld :: dial_world where
  "proxiedWorld = witnessWorld\<lparr>defaultResolver := defaultResolver directWorld\<rparr>"

definition sampleBackend :: "dial_world \<Rightarrow> connect_input" where
  "sampleBackend w = sampleConnect\<lparr>inDial := dialBackend (\<lambda>_. []) w ''db'' ''22'' False\<rparr>"

theorem tunnels_reach_permitted_hosts_witness:
  "(\<exists>conn evs. connectTunnel sampleMitm (sampleBackend directWorld) None sampleTLS ''db:22'' (Some (''db'', ''22'')) [] sampleUpgrade [] = Some RawBytes \<and>
     DialSSRF directWorld ''db'' ''22'' (dialOptions False []) = (Inr conn, evs) \<and>
     permittedConn directWorld ''db'' ''22'' (dialOptions False []) conn evs) \<and>
   (\<exists>conn evs auth. connectTunnel sampleMitm (sampleBackend proxiedWorld) None sampleTLS ''db:22'' (Some (''db'', ''22'')) [] sampleUpgrade [] = Some RawBytes \<and>
     permittedConn proxiedWorld ''db'' ''22'' (dialOptions False []) conn evs \<and> WriteConnect ''8.8.8.8:22'' auth \<in> set evs)"
proof -
  let ?c = "\<lambda>w. connectTunnel sampleMitm (sampleBackend w) None sampleTLS ''db:22'' (Some (''db'', ''22'')) [] sampleUpgrade []"
  let ?raw = "case_option False (case_tunnel_end (\<lambda>_. False) (\<lambda>_. False) True (\<lambda>_ _. False))"
  have "?raw (?c directWorld)" "?raw (?c proxiedWorld)" by code_simp+
  then have c: "?c directWorld = Some RawBytes" "?c proxiedWorld = Some RawBytes"
    by (auto split: option.splits tunnel_end.splits)
  have dial: "\<exists>conn evs. DialSSRF w ''db'' ''22'' (dialOptions False []) = (Inr conn, evs) \<and>
      permittedConn w ''db'' ''22'' (dialOptions False []) conn evs" if raw: "?c w = Some RawBytes" for w
  proof -
    obtain pe p dec conn evs where d: "inEngine sampleConnect = Some pe" "Decide pe ''db'' p [] = Inr dec"
      "DialSSRF w ''db'' ''22'' (dialOptions False (allowedIPsOf (EngMatched dec))) = (Inr conn, evs)"
      "permittedConn w ''db'' ''22'' (dialOptions False (allowedIPsOf (EngMatched dec))) conn evs"
      using tunnels_reach_permitted_hosts [OF raw [unfolded sampleBackend_def]] by auto
    from d(1,2) have "allowedIPsOf (EngMatched dec) = []" by (auto simp: sampleConnect_def allowedIPsOf_def)
    with d show ?thesis by auto
  qed
  have "WriteConnect ''8.8.8.8:22'' (Some ''Basic dTpw'') \<in> set (snd (DialSSRF proxiedWorld ''db'' ''22'' (dialOptions False [])))"
    by code_simp
  moreover obtain conn evs where "DialSSRF proxiedWorld ''db'' ''22'' (dialOptions False []) = (Inr conn, evs)"
    "permittedConn proxiedWorld ''db'' ''22'' (dialOptions False []) conn evs"
    using dial [OF c(2)] by blast
  ultimately have "permittedConn proxiedWorld ''db'' ''22'' (dialOptions False []) conn evs \<and> WriteConnect ''8.8.8.8:22'' (Some ''Basic dTpw'') \<in> set evs"
    by (metis snd_conv)
  with dial [OF c(1)] c show ?thesis by blast
qed

end
